(* ===== verification/Prelude.thy ===== *)
theory Prelude
  imports Main "HOL-Library.List_Lexorder" "HOL-Library.Char_ord" "HOL-Library.Product_Lexorder"
begin

text \<open>
  What every other theory of the development shares: the exceptions of the program and the
  result type that carries them, the sequencing operator for fallible steps, the behaviour
  of the database queries the services use (\<open>one_or_none\<close>, \<open>first\<close>, bulk update, bulk
  delete, order by), and the instant and duration arithmetic of the clock. The theorem
  collections \<open>res_simps\<close> and \<open>table_simps\<close> are the automation the component proofs use.
\<close>

named_theorems res_simps "case analysis of fallible computations"
named_theorems table_simps "queries and updates of database tables"

section \<open>Exceptions and results\<close>

text \<open>
  The exceptions of \<^verbatim>\<open>app/services/errors.py\<close> (with their message), the one of
  \<^verbatim>\<open>app/services/check.py\<close> (with its reason and status), the web framework's
  \<^verbatim>\<open>HTTPException\<close>, and the Python, SQLAlchemy and codec exceptions that the modelled code
  can let escape.
\<close>

datatype exc =
    NotFound string
  | Conflict string
  | ValidationFailed string
  | Unsafe string
  | CheckRejected string int
  | HTTPException int string
  | RuntimeError string
  | ValueError string
  | TypeError string
  | AttributeError string
  | OverflowError string
  | KeyError string
  | LoginRequired
  | SystemExit int
  | IntegrityError
  | OperationalError string
  | MultipleResultsFound
  | TarError
  | EOFError

type_synonym 'a res = "exc + 'a"

fun rbind :: "'a res \<Rightarrow> ('a \<Rightarrow> 'b res) \<Rightarrow> 'b res" where
  "rbind (Inl e) f = Inl e"
| "rbind (Inr x) f = f x"

lemma rbind_Inr_iff [res_simps]: "rbind m f = Inr y \<longleftrightarrow> (\<exists>x. m = Inr x \<and> f x = Inr y)"
  by (cases m) auto

lemma rbind_Inl_iff [res_simps]:
  "rbind m f = Inl e \<longleftrightarrow> m = Inl e \<or> (\<exists>x. m = Inr x \<and> f x = Inl e)"
  by (cases m) auto

lemma rbind_cong [fundef_cong]:
  "m = m' \<Longrightarrow> (\<And>x. m' = Inr x \<Longrightarrow> f x = f' x) \<Longrightarrow> rbind m f = rbind m' f'"
  by (cases m') auto

fun is_ok :: "'a res \<Rightarrow> bool" where
  "is_ok (Inl e) = False"
| "is_ok (Inr x) = True"

lemma is_okE: "is_ok r \<Longrightarrow> \<exists>x. r = Inr x"
  by (cases r) auto

text \<open>Python truthiness of an optional string: \<open>None\<close> and the empty string are false.\<close>

fun truthy :: "string option \<Rightarrow> bool" where
  "truthy None = False"
| "truthy (Some s) = (s \<noteq> [])"

lemma truthy_iff: "truthy x \<longleftrightarrow> (\<exists>s. x = Some s \<and> s \<noteq> [])"
  by (cases x) auto

text \<open>Python's \<open>x or None\<close> on a string.\<close>

definition or_none :: "string \<Rightarrow> string option" where
  "or_none s = (if s = [] then None else Some s)"

lemma or_none_Some [simp]: "or_none s = Some t \<longleftrightarrow> s = t \<and> s \<noteq> []"
  by (auto simp: or_none_def)

lemma or_none_None [simp]: "or_none s = None \<longleftrightarrow> s = []"
  by (simp add: or_none_def)

lemma truthy_or_none [simp]: "truthy (or_none s) \<longleftrightarrow> s \<noteq> []"
  by (simp add: or_none_def)

fun opt_list :: "'a option \<Rightarrow> 'a list" where
  "opt_list None = []"
| "opt_list (Some x) = [x]"

lemma set_opt_list [simp]: "set (opt_list v) = set_option v"
  by (cases v) auto

lemma list_all2_setD2: "list_all2 R xs ys \<Longrightarrow> y \<in> set ys \<Longrightarrow> \<exists>x \<in> set xs. R x y"
  by (auto simp: list_all2_conv_all_nth in_set_conv_nth) force

lemma list_all2_map_eq:
  assumes "list_all2 R xs ys" and "\<And>x y. R x y \<Longrightarrow> f y = f x"
  shows "map f ys = map f xs"
  using assms(1) by (induction) (auto simp: assms(2))

section \<open>Queries over tables\<close>

text \<open>
  \<^verbatim>\<open>Query.one_or_none()\<close>: no row is \<open>None\<close>, two or more rows raise
  \<open>MultipleResultsFound\<close>. \<^verbatim>\<open>Query.first()\<close> takes the first row, if any.
\<close>

definition one_or_none :: "('a \<Rightarrow> bool) \<Rightarrow> 'a list \<Rightarrow> ('a option) res" where
  "one_or_none P t = (case filter P t of
      [] \<Rightarrow> Inr None
    | [x] \<Rightarrow> Inr (Some x)
    | _ \<Rightarrow> Inl MultipleResultsFound)"

definition update_where :: "('a \<Rightarrow> bool) \<Rightarrow> ('a \<Rightarrow> 'a) \<Rightarrow> 'a list \<Rightarrow> 'a list" where
  "update_where P f t = map (\<lambda>x. if P x then f x else x) t"

definition delete_where :: "('a \<Rightarrow> bool) \<Rightarrow> 'a list \<Rightarrow> 'a list" where
  "delete_where P t = filter (\<lambda>x. \<not> P x) t"

lemma one_or_none_None: "one_or_none P t = Inr None \<longleftrightarrow> (\<forall>x \<in> set t. \<not> P x)"
  by (cases "filter P t") (auto simp: one_or_none_def filter_empty_conv filter_eq_Cons_iff
      split: list.splits)

lemma one_or_none_Some:
  "one_or_none P t = Inr (Some x) \<longleftrightarrow> filter P t = [x]"
  by (auto simp: one_or_none_def split: list.splits)

lemma one_or_none_SomeD:
  assumes "one_or_none P t = Inr (Some x)"
  shows "x \<in> set t" and "P x" and "\<And>y. y \<in> set t \<Longrightarrow> P y \<Longrightarrow> y = x"
proof -
  from assms have f: "filter P t = [x]" by (simp add: one_or_none_Some)
  then have "x \<in> set (filter P t)" by simp
  then show "x \<in> set t" and "P x" by auto
  show "y = x" if "y \<in> set t" "P y" for y
  proof -
    from that have "y \<in> set (filter P t)" by simp
    with f show "y = x" by simp
  qed
qed

text \<open>A key without duplicates never raises, and finds the row it names.\<close>

lemma filter_key_unique:
  assumes "distinct (map k t)" and "x \<in> set t"
  shows "filter (\<lambda>y. k y = k x) t = [x]"
  using assms
proof (induction t)
  case Nil
  then show ?case by simp
next
  case (Cons a t)
  show ?case
  proof (cases "x = a")
    case True
    with Cons.prems have "k x \<notin> k ` set t" by auto
    then have "filter (\<lambda>y. k y = k x) t = []"
      by (auto simp: filter_empty_conv image_iff)
    with True show ?thesis by simp
  next
    case False
    with Cons.prems have "x \<in> set t" and "k a \<noteq> k x" by (auto simp: image_iff)
    with Cons show ?thesis by simp
  qed
qed

lemma one_or_none_key:
  "distinct (map k t) \<Longrightarrow> x \<in> set t \<Longrightarrow> one_or_none (\<lambda>y. k y = k x) t = Inr (Some x)"
  by (simp add: one_or_none_Some filter_key_unique)

lemma one_or_none_unique:
  assumes "distinct (map k t)"
  shows "one_or_none (\<lambda>y. k y = v) t \<noteq> Inl e"
proof (cases "\<exists>x \<in> set t. k x = v")
  case True
  then obtain x where "x \<in> set t" and "v = k x" by auto
  with assms show ?thesis by (simp add: one_or_none_key)
next
  case False
  then have "one_or_none (\<lambda>y. k y = v) t = Inr None" by (auto simp: one_or_none_None)
  then show ?thesis by simp
qed

lemma set_delete_where [table_simps]: "set (delete_where P t) = {x \<in> set t. \<not> P x}"
  by (simp add: delete_where_def)

lemma set_update_where [table_simps]:
  "set (update_where P f t) = (\<lambda>x. if P x then f x else x) ` set t"
  by (simp add: update_where_def)

lemma length_update_where [table_simps]: "length (update_where P f t) = length t"
  by (simp add: update_where_def)

lemma map_update_where [table_simps]:
  "(\<And>x. x \<in> set t \<Longrightarrow> P x \<Longrightarrow> k (f x) = k x) \<Longrightarrow> map k (update_where P f t) = map k t"
  by (auto simp: update_where_def)

lemma distinct_delete_where [table_simps]:
  "distinct (map k t) \<Longrightarrow> distinct (map k (delete_where P t))"
  by (simp add: delete_where_def distinct_map_filter)

section \<open>Ordering rows\<close>

text \<open>
  \<^verbatim>\<open>ORDER BY k DESC\<close> sorts by the reversed order of the key: the wrapper \<open>Desc\<close> carries
  that order, so that the library's stable \<open>sort_key\<close> is the database's sort.
\<close>

datatype 'a desc = Desc (undesc: 'a)

instantiation desc :: (linorder) linorder
begin

definition less_eq_desc :: "'a desc \<Rightarrow> 'a desc \<Rightarrow> bool" where
  "less_eq_desc x y \<longleftrightarrow> undesc y \<le> undesc x"

definition less_desc :: "'a desc \<Rightarrow> 'a desc \<Rightarrow> bool" where
  "less_desc x y \<longleftrightarrow> undesc y < undesc x"

instance
  by standard (auto simp: less_eq_desc_def less_desc_def desc.expand)

end

definition order_by_desc :: "('a \<Rightarrow> 'k::linorder) \<Rightarrow> 'a list \<Rightarrow> 'a list" where
  "order_by_desc k t = sort_key (\<lambda>x. Desc (k x)) t"

lemma set_order_by_desc [table_simps]: "set (order_by_desc k t) = set t"
  by (simp add: order_by_desc_def)

lemma length_order_by_desc [table_simps]: "length (order_by_desc k t) = length t"
  by (simp add: order_by_desc_def)

lemma sorted_order_by_desc: "sorted_wrt (\<lambda>x y. k y \<le> k x) (order_by_desc k t)"
proof -
  have "sorted (map (\<lambda>x. Desc (k x)) (order_by_desc k t))"
    by (simp add: order_by_desc_def)
  then show ?thesis by (simp add: sorted_map less_eq_desc_def)
qed

lemma distinct_order_by_desc:
  "distinct (map f t) \<Longrightarrow> distinct (map f (order_by_desc k t))"
proof -
  assume d: "distinct (map f t)"
  have "distinct (order_by_desc k t)" and "set (order_by_desc k t) = set t"
    using d by (simp_all add: order_by_desc_def distinct_map)
  with d show ?thesis by (simp add: distinct_map)
qed

section \<open>Instants and durations\<close>

text \<open>
  A naive-UTC \<open>datetime\<close> (\<^verbatim>\<open>app/_time.py\<close>) is the number of microseconds since
  0001-01-01T00:00:00, Python's resolution and origin; durations are in microseconds too.
  Python's range ends with the year 9999: leaving it raises \<open>OverflowError\<close>.
\<close>

type_synonym datetime = int

definition second_us :: int where "second_us = 1000000"
definition minute_us :: int where "minute_us = 60 * second_us"
definition hour_us :: int where "hour_us = 60 * minute_us"
definition day_us :: int where "day_us = 24 * hour_us"

definition datetime_max :: datetime where
  "datetime_max = 3652059 * day_us - 1"

definition add_delta :: "datetime \<Rightarrow> int \<Rightarrow> datetime res" where
  "add_delta t d = (if 0 \<le> t + d \<and> t + d \<le> datetime_max then Inr (t + d)
     else Inl (OverflowError ''date value out of range''))"

lemma add_delta_Inr: "add_delta t d = Inr u \<longleftrightarrow> u = t + d \<and> 0 \<le> u \<and> u \<le> datetime_max"
  by (auto simp: add_delta_def)

lemmas us_defs = second_us_def minute_us_def hour_us_def day_us_def

end
