(* ===== verification/JsonRoundtrip.thy ===== *)
theory JsonRoundtrip
  imports Json
begin

text \<open>
  \<^verbatim>\<open>json.loads(json.dumps(v))\<close> is \<open>v\<close>, for every value whose dicts have distinct keys
  and whose floats are the literals of the grammar, and for both separator styles the program uses. The proof follows the
  printer: each kind of value is read back, with any text after it left over, by the
  fuel its nesting needs; \<open>fuel_le\<close> bounds that fuel by the length of the text.
\<close>

text \<open>A float is a literal that the reader takes for one.\<close>

definition float_text :: "string \<Rightarrow> bool" where
  "float_text t \<longleftrightarrow> t \<in> {''NaN'', ''Infinity'', ''-Infinity''} \<or> parse_num t = Some (JFloat t, [])"

fun plain :: "json \<Rightarrow> bool"
  and plain_items :: "json list \<Rightarrow> bool"
  and plain_pairs :: "(string \<times> json) list \<Rightarrow> bool"
where
  "plain (JFloat t) = float_text t"
| "plain (JList xs) = plain_items xs"
| "plain (JDict ps) = (distinct (map fst ps) \<and> plain_pairs ps)"
| "plain _ = True"
| "plain_items [] = True"
| "plain_items (x # xs) = (plain x \<and> plain_items xs)"
| "plain_pairs [] = True"
| "plain_pairs (p # ps) = (plain (snd p) \<and> plain_pairs ps)"

fun fuel_of :: "json \<Rightarrow> nat"
  and fuel_items :: "json list \<Rightarrow> nat"
  and fuel_pairs :: "(string \<times> json) list \<Rightarrow> nat"
where
  "fuel_of (JList xs) = Suc (fuel_items xs)"
| "fuel_of (JDict ps) = Suc (fuel_pairs ps)"
| "fuel_of JNull = 1"
| "fuel_of (JBool b) = 1"
| "fuel_of (JInt n) = 1"
| "fuel_of (JFloat t) = 1"
| "fuel_of (JStr s) = 1"
| "fuel_items [] = 0"
| "fuel_items (x # xs) = Suc (max (fuel_of x) (fuel_items xs))"
| "fuel_pairs [] = 0"
| "fuel_pairs (p # ps) = Suc (max (fuel_of (snd p)) (fuel_pairs ps))"

section \<open>Strings\<close>

lemma unhex4:
  "a < 16 \<Longrightarrow> b < 16 \<Longrightarrow> c < 16 \<Longrightarrow> d < 16 \<Longrightarrow>
   unhex [hex_digit a, hex_digit b, hex_digit c, hex_digit d]
     = Some (16 * (16 * (16 * a + b) + c) + d)"
  by simp

lemma unhex_hex4: "n < 65536 \<Longrightarrow> unhex (hex4 n) = Some n"
proof -
  assume n: "n < 65536"
  have a: "n div 4096 mod 16 = n div 256 div 16" using n by (simp add: div_mult2_eq[symmetric])
  have b: "n div 256 = n div 16 div 16" by (simp add: div_mult2_eq[symmetric])
  have "16 * (16 * (16 * (n div 256 div 16) + n div 256 mod 16) + n div 16 mod 16) + n mod 16 = n"
    unfolding mult_div_mod_eq by (simp add: b)
  moreover have "n div 256 div 16 < 16" using n by simp
  ultimately show ?thesis using unhex4[of "n div 4096 mod 16" "n div 256 mod 16" "n div 16 mod 16" "n mod 16"]
    by (simp add: hex4_def a del: unhex.simps)
qed

lemma escapes_None:
  "map_of escapes c = None \<Longrightarrow> c \<noteq> quote \<and> c \<noteq> backslash"
  by (auto simp: escapes_def)

lemma simple_escape_inverse:
  "map_of escapes c = Some e \<Longrightarrow> simple_escape e = Some c \<and> e \<noteq> CHR ''u''"
  by (auto simp: escapes_def simple_escape_def newline_def split: if_splits)

lemma parse_str_esc:
  "parse_str (esc_char c @ r) = map_option (\<lambda>(s, t). (c # s, t)) (parse_str r)"
proof (cases "map_of escapes c")
  case None
  show ?thesis
  proof (cases "32 \<le> code c \<and> code c \<le> 126")
    case True
    with None escapes_None[OF None] show ?thesis by (simp add: esc_char_def)
  next
    case False
    have h: "code c < 65536" by (rule less_trans[OF code_less]) simp
    have l: "length (hex4 (code c)) = 4" by (simp add: hex4_def)
    have "parse_str (backslash # CHR ''u'' # hex4 (code c) @ r)
        = map_option (\<lambda>(s, t). (c # s, t)) (parse_str r)"
      using unhex_hex4[OF h] l code_less[of c] by (simp add: not_le[symmetric])
    moreover have "esc_char c = backslash # CHR ''u'' # hex4 (code c)"
      using None False by (auto simp: esc_char_def)
    ultimately show ?thesis by simp
  qed
next
  case (Some e)
  with simple_escape_inverse[OF Some] show ?thesis by (simp add: esc_char_def)
qed

lemma parse_str_dump: "parse_str (concat (map esc_char s) @ quote # r) = Some (s, r)"
  by (induction s) (simp_all add: parse_str_esc)

section \<open>Numbers\<close>

definition delim :: "string \<Rightarrow> bool" where
  "delim r \<longleftrightarrow> r = [] \<or> (\<not> is_digit (hd r) \<and> hd r \<noteq> CHR ''.'' \<and> hd r \<noteq> CHR ''e'' \<and> hd r \<noteq> CHR ''E'')"

lemma delim_stop: "delim r \<Longrightarrow> parse_frac r = ([], r) \<and> parse_exp r = ([], r)"
  by (cases r) (auto simp: delim_def parse_frac_def parse_exp_def span_def Let_def split: list.splits)

lemma show_nat_hd: "is_digit (hd (show_nat n))"
  using show_nat_digits[of n] by (metis hd_in_set show_nat_nonempty)

lemma show_nat_zero: "hd (show_nat n) = CHR ''0'' \<Longrightarrow> n = 0"
proof (induction n rule: show_nat.induct)
  case (1 n)
  show ?case
  proof (cases "n < 10")
    case True
    then have "show_nat n = [char_of (48 + n)]" by (subst show_nat.simps) simp
    with 1 have "code (char_of (48 + n)) = code (CHR ''0'')" by simp
    with True show ?thesis by (simp add: code_def)
  next
    case False
    then have "hd (show_nat n) = hd (show_nat (n div 10))"
      by (subst show_nat.simps) simp
    with 1 False have "n div 10 = 0" by simp
    with False show ?thesis by simp
  qed
qed

lemma show_nat_0: "hd (show_nat n) = CHR ''0'' \<Longrightarrow> show_nat n = ''0''"
proof -
  assume "hd (show_nat n) = CHR ''0''"
  then have "n = 0" by (rule show_nat_zero)
  moreover have "char_of (48 :: nat) = CHR ''0''" by code_simp
  ultimately show ?thesis by (simp add: show_nat.simps)
qed

lemma span_digits: "\<forall>c \<in> set s. is_digit c \<Longrightarrow> delim r \<Longrightarrow> span is_digit (s @ r) = (s, r)"
  by (cases r) (auto simp: span_def delim_def)

lemma parse_num_nat:
  assumes "delim r"
  shows "parse_num (show_nat n @ r) = Some (JInt (int n), r)"
    and "parse_num (CHR ''-'' # show_nat n @ r) = Some (JInt (- int n), r)"
proof -
  have st: "parse_frac r = ([], r)" "parse_exp r = ([], r)" using delim_stop[OF assms] by auto
  have nm: "hd (show_nat n) \<noteq> CHR ''-''"
    using show_nat_hd[of n] by (auto simp: is_digit_def code_def)
  have sp: "span is_digit (show_nat n @ r) = (show_nat n, r)"
    using show_nat_digits assms by (rule span_digits)
  show "parse_num (show_nat n @ r) = Some (JInt (int n), r)"
  proof (cases "hd (show_nat n) = CHR ''0''")
    case True
    then have "show_nat n = ''0''" by (rule show_nat_0)
    with st read_show_nat[of n] show ?thesis by (simp add: parse_num_def del: read_show_nat)
  next
    case False
    with st nm sp show ?thesis by (simp add: parse_num_def)
  qed
  show "parse_num (CHR ''-'' # show_nat n @ r) = Some (JInt (- int n), r)"
  proof (cases "hd (show_nat n) = CHR ''0''")
    case True
    then have "show_nat n = ''0''" by (rule show_nat_0)
    with st read_show_nat[of n] show ?thesis by (simp add: parse_num_def del: read_show_nat)
  next
    case False
    with st sp show ?thesis by (simp add: parse_num_def)
  qed
qed

lemma parse_num_int: "delim r \<Longrightarrow> parse_num (show_int n @ r) = Some (JInt n, r)"
  using parse_num_nat[of r "nat n"] parse_num_nat[of r "nat (- n)"]
  by (auto simp: show_int_def)

text \<open>A number is read the same with a delimiter and more text after it.\<close>

lemma span_append: "delim r \<Longrightarrow> span is_digit s = (ds, x) \<Longrightarrow> span is_digit (s @ r) = (ds, x @ r)"
proof -
  assume d: "delim r" and s: "span is_digit s = (ds, x)"
  have r: "takeWhile is_digit r = []" "dropWhile is_digit r = r" using d by (cases r; auto simp: delim_def)+
  show ?thesis
  proof (cases "\<forall>c \<in> set s. is_digit c")
    case True
    then have "takeWhile is_digit s = s" "dropWhile is_digit s = []" by simp_all
    with s r True show ?thesis by (auto simp: span_def)
  next
    case False
    with s show ?thesis by (auto simp: span_def takeWhile_append1 dropWhile_append1)
  qed
qed

lemma parse_frac_append:
  assumes d: "delim r" and p: "parse_frac s = (fr, x)"
  shows "parse_frac (s @ r) = (fr, x @ r)"
proof (cases s)
  case Nil
  with p delim_stop[OF d] show ?thesis by (simp add: parse_frac_def)
next
  case (Cons c s')
  obtain ds t where sp: "span is_digit s' = (ds, t)" using prod.exhaust by blast
  from p Cons sp span_append[OF d sp] show ?thesis by (auto simp: parse_frac_def Let_def split: if_splits)
qed

lemma parse_exp_append:
  assumes d: "delim r" and p: "parse_exp s = (ex, [])"
  shows "parse_exp (s @ r) = (ex, r)"
proof (cases s)
  case Nil
  with p delim_stop[OF d] show ?thesis by (simp add: parse_exp_def)
next
  case (Cons c s')
  show ?thesis
  proof (cases s')
    case Nil
    with p Cons show ?thesis by (auto simp: parse_exp_def span_def Let_def split: if_splits)
  next
    case (Cons b s'')
    let ?sg = "if b = CHR ''+'' \<or> b = CHR ''-'' then [b] else []"
    obtain ds t where sp: "span is_digit (drop (length ?sg) s') = (ds, t)" using prod.exhaust by blast
    have "drop (length ?sg) (s' @ r) = drop (length ?sg) s' @ r" using Cons by auto
    with span_append[OF d sp] have sp': "span is_digit (drop (length ?sg) (s' @ r)) = (ds, t @ r)" by simp
    from p \<open>s = c # s'\<close> Cons sp sp' show ?thesis
      by (auto simp: parse_exp_def Let_def split: if_splits)
  qed
qed

lemma parse_num_append:
  assumes d: "delim r" and p: "parse_num s = Some (JFloat t, [])"
  shows "parse_num (s @ r) = Some (JFloat t, r)"
proof -
  define neg where "neg \<longleftrightarrow> s \<noteq> [] \<and> hd s = CHR ''-''"
  define u where "u = (if neg then tl s else s)"
  obtain ds x where ds: "(if u \<noteq> [] \<and> hd u = CHR ''0'' then (''0'', tl u) else span is_digit u) = (ds, x)"
    using prod.exhaust by blast
  obtain fr y where fr: "parse_frac x = (fr, y)" using prod.exhaust by blast
  obtain ex z where ex: "parse_exp y = (ex, z)" using prod.exhaust by blast
  have c: "ds \<noteq> []" "\<not> (fr = [] \<and> ex = [])" "t = (if neg then ''-'' else []) @ ds @ fr @ ex" "z = []"
    using p ds fr ex by (auto simp: parse_num_def Let_def neg_def[symmetric] u_def[symmetric] split: if_splits)
  have u: "u \<noteq> []" using c(1) ds by (auto simp: span_def)
  then have s: "s \<noteq> []" by (auto simp: u_def neg_def)
  have neg': "(s @ r \<noteq> [] \<and> hd (s @ r) = CHR ''-'') = neg" using s by (simp add: neg_def)
  have u': "(if neg then tl (s @ r) else s @ r) = u @ r" using s by (simp add: u_def)
  have ds': "(if u @ r \<noteq> [] \<and> hd (u @ r) = CHR ''0'' then (''0'', tl (u @ r)) else span is_digit (u @ r)) = (ds, x @ r)"
    using ds u span_append[OF d, of u] by (auto split: if_splits)
  show ?thesis
    unfolding parse_num_def Let_def neg' u' ds'
    using c ex parse_frac_append[OF d fr] parse_exp_append[OF d, of y ex] by simp
qed

text \<open>The characters of a number.\<close>

lemma parse_frac_chars: "parse_frac s = (fr, x) \<Longrightarrow> \<forall>c \<in> set fr. is_digit c \<or> c = CHR ''.''"
  by (auto simp: parse_frac_def span_def Let_def dest: set_takeWhileD split: list.splits if_splits)

lemma parse_exp_chars: "parse_exp s = (ex, x) \<Longrightarrow> \<forall>c \<in> set ex. is_digit c \<or> c \<in> set ''+-eE''"
  by (auto simp: parse_exp_def span_def Let_def dest: set_takeWhileD split: list.splits if_splits)

lemma float_text_chars:
  assumes "float_text t"
  shows "t \<noteq> [] \<and> (\<forall>c \<in> set t. is_digit c \<or> c \<in> set ''+-.eENaInfity'') \<and>
    (t \<in> {''NaN'', ''Infinity'', ''-Infinity''} \<or> is_digit (hd t) \<or> (\<exists>d r. t = CHR ''-'' # d # r \<and> is_digit d))"
proof (cases "t \<in> {''NaN'', ''Infinity'', ''-Infinity''}")
  case False
  then have p: "parse_num t = Some (JFloat t, [])" using assms by (auto simp: float_text_def)
  define neg where "neg \<longleftrightarrow> t \<noteq> [] \<and> hd t = CHR ''-''"
  define u where "u = (if neg then tl t else t)"
  obtain ds x where ds: "(if u \<noteq> [] \<and> hd u = CHR ''0'' then (''0'', tl u) else span is_digit u) = (ds, x)"
    using prod.exhaust by blast
  obtain fr y where fr: "parse_frac x = (fr, y)" using prod.exhaust by blast
  obtain ex z where ex: "parse_exp y = (ex, z)" using prod.exhaust by blast
  have c: "ds \<noteq> []" "t = (if neg then ''-'' else []) @ ds @ fr @ ex"
    using p ds fr ex by (auto simp: parse_num_def Let_def neg_def[symmetric] u_def[symmetric] split: if_splits)
  have "is_digit (CHR ''0'')" by (simp add: is_digit_def code_def)
  then have dig: "\<forall>c \<in> set ds. is_digit c" using ds by (auto simp: span_def dest: set_takeWhileD split: if_splits)
  have "\<forall>c \<in> set t. is_digit c \<or> c \<in> set ''+-.eENaInfity''"
    unfolding c(2) using dig parse_frac_chars[OF fr] parse_exp_chars[OF ex] by auto
  moreover have "t \<noteq> []" using c by auto
  moreover have "is_digit (hd t) \<or> (\<exists>d r. t = CHR ''-'' # d # r \<and> is_digit d)"
    using c dig by (cases ds) auto
  ultimately show ?thesis by blast
qed auto

section \<open>Values\<close>

lemma show_int_hd:
  "show_int n \<noteq> [] \<and> (is_digit (hd (show_int n)) \<or> (hd (show_int n) = CHR ''-''
     \<and> tl (show_int n) \<noteq> [] \<and> is_digit (hd (tl (show_int n)))))"
  by (simp add: show_int_def show_nat_hd)

lemma digit_cases: "is_digit c \<Longrightarrow> c \<noteq> quote \<and> c \<noteq> CHR ''['' \<and> c \<noteq> CHR ''{'' \<and> c \<noteq> CHR ''n''
    \<and> c \<noteq> CHR ''t'' \<and> c \<noteq> CHR ''f'' \<and> c \<noteq> CHR ''N'' \<and> c \<noteq> CHR ''I'' \<and> c \<noteq> CHR ''-''
    \<and> c \<noteq> CHR '']'' \<and> c \<noteq> CHR ''}'' \<and> \<not> json_ws c"
  by (auto simp: is_digit_def code_def json_ws_def newline_def)

lemma parse_value_int:
  assumes "delim r"
  shows "parse_value (Suc n) (show_int i @ r) = Some (JInt i, r)"
proof -
  obtain c t where ct: "show_int i = c # t" using show_int_hd[of i] by (cases "show_int i") auto
  with show_int_hd[of i] have c: "is_digit c \<or> (c = CHR ''-'' \<and> t \<noteq> [] \<and> is_digit (hd t))"
    by simp
  have "parse_literal (c # t @ r) = None"
  proof (cases "is_digit c")
    case True
    with digit_cases[OF True] show ?thesis
      by (simp add: parse_literal_def literals_def starts_with_def)
  next
    case False
    with c obtain d t' where "c = CHR ''-''" and "t = d # t'" and d: "is_digit d" by (cases t) auto
    with digit_cases[OF d] show ?thesis
      by (simp add: parse_literal_def literals_def starts_with_def)
  qed
  moreover have "parse_num (c # t @ r) = Some (JInt i, r)"
    using parse_num_int[OF assms, of i] ct by simp
  ultimately show ?thesis using ct c digit_cases[of c] by auto
qed

lemma parse_value_float:
  assumes "delim r" and t: "float_text t"
  shows "parse_value (Suc n) (t @ r) = Some (JFloat t, r)"
proof (cases "t \<in> {''NaN'', ''Infinity'', ''-Infinity''}")
  case True
  then show ?thesis by (auto simp: parse_literal_def literals_def starts_with_def)
next
  case False
  then have p: "parse_num (t @ r) = Some (JFloat t, r)"
    using t parse_num_append[OF assms(1)] by (auto simp: float_text_def)
  have h: "t \<noteq> [] \<and> (is_digit (hd t) \<or> (\<exists>d r. t = CHR ''-'' # d # r \<and> is_digit d))"
    using float_text_chars[OF t] False by blast
  obtain c t' where ct: "t = c # t'" using h by (cases t) simp_all
  have c: "is_digit c \<or> (c = CHR ''-'' \<and> t' \<noteq> [] \<and> is_digit (hd t'))" using h ct by fastforce
  have "parse_literal (c # t' @ r) = None"
  proof (cases "is_digit c")
    case True
    with digit_cases[OF True] show ?thesis
      by (simp add: parse_literal_def literals_def starts_with_def)
  next
    case False
    with c obtain d t'' where "c = CHR ''-''" and "t' = d # t''" and d: "is_digit d" by (cases t') auto
    with digit_cases[OF d] show ?thesis
      by (simp add: parse_literal_def literals_def starts_with_def)
  qed
  with p ct c digit_cases[of c] show ?thesis by auto
qed

lemma dumps_hd:
  assumes "plain j"
  shows "dumps i k j \<noteq> [] \<and> \<not> json_ws (hd (dumps i k j)) \<and> hd (dumps i k j) \<noteq> CHR '']''"
proof (cases j)
  case (JInt n)
  have "is_digit (hd (show_int n)) \<or> hd (show_int n) = CHR ''-''" and "show_int n \<noteq> []"
    using show_int_hd[of n] by auto
  then show ?thesis
    using JInt digit_cases[of "hd (show_int n)"] by (auto simp: json_ws_def newline_def)
next
  case (JFloat t)
  then have "float_text t" using assms by simp
  with JFloat float_text_chars[of t] digit_cases[of "hd t"] show ?thesis by (auto simp: json_ws_def newline_def)
qed (use assms in \<open>auto simp: json_ws_def newline_def dump_str_def\<close>)

lemma skip_ws_id: "s \<noteq> [] \<Longrightarrow> \<not> json_ws (hd s) \<Longrightarrow> skip_ws s = s"
  by (cases s) (auto simp: skip_ws_def)

lemma skip_ws_append: "list_all json_ws w \<Longrightarrow> skip_ws (w @ s) = skip_ws s"
  by (induction w) (auto simp: skip_ws_def)

lemma skip_ws_dumps:
  "plain j \<Longrightarrow> list_all json_ws w \<Longrightarrow> skip_ws (w @ dumps i k j @ r) = dumps i k j @ r"
  using dumps_hd[of j i k] by (simp add: skip_ws_append skip_ws_id)

lemma dict_put_new: "k \<notin> fst ` set d \<Longrightarrow> dict_put k v d = d @ [(k, v)]"
  by (induction d) auto

lemma foldl_dict_put:
  "distinct (map fst (d @ ps)) \<Longrightarrow> foldl (\<lambda>d p. dict_put (fst p) (snd p) d) d ps = d @ ps"
  by (induction ps arbitrary: d) (auto simp: dict_put_new)

lemma dict_of_distinct: "distinct (map fst ps) \<Longrightarrow> dict_of ps = ps"
  by (simp add: dict_of_def foldl_dict_put)

lemma dumps_items_hd:
  "plain_items (x # xs) \<Longrightarrow> skip_ws (dumps_items i k (x # xs) @ r) = dumps_items i k (x # xs) @ r
     \<and> hd (dumps_items i k (x # xs) @ r) \<noteq> CHR '']''"
  using dumps_hd[of x i k] by (simp add: skip_ws_id)

lemma parse_members_step:
  assumes "list_all json_ws wk" and "plain v"
    and "parse_value n (dumps i k v @ r) = Some (v, r)"
  shows "parse_members (Suc n) (dump_str key @ (CHR '':'' # wk) @ dumps i k v @ r)
     = (case skip_ws r of [] \<Rightarrow> None
        | d # t \<Rightarrow> if d = CHR '','' then
              map_option (\<lambda>(ps, u). ((key, v) # ps, u)) (parse_members n (skip_ws t))
            else if d = CHR ''}'' then Some ([(key, v)], t) else None)"
proof -
  have "skip_ws (CHR '':'' # wk @ dumps i k v @ r) = CHR '':'' # wk @ dumps i k v @ r"
    by (simp add: skip_ws_def json_ws_def newline_def)
  moreover have "skip_ws (wk @ dumps i k v @ r) = dumps i k v @ r"
    using assms by (simp add: skip_ws_dumps)
  ultimately show ?thesis
    using assms(3) by (simp add: dump_str_def parse_str_dump)
qed

lemma skip_ws_delims:
  "skip_ws (CHR '','' # s) = CHR '','' # s" "skip_ws (CHR '']'' # s) = CHR '']'' # s"
  "skip_ws (CHR ''}'' # s) = CHR ''}'' # s" "skip_ws (quote # s) = quote # s"
  by (simp_all add: skip_ws_def json_ws_def newline_def)

lemma delims:
  "delim (CHR '','' # s)" "delim (CHR '']'' # s)" "delim (CHR ''}'' # s)" "delim []"
  by (simp_all add: delim_def is_digit_def code_def)

lemma dumps_pairs_hd:
  "ps \<noteq> [] \<Longrightarrow> \<exists>t. dumps_pairs i k ps @ r = quote # t"
  by (cases ps) (auto simp: dump_str_def)

lemma parse_dumps:
  assumes i: "i = CHR '','' # wi" "list_all json_ws wi" and k: "k = CHR '':'' # wk" "list_all json_ws wk"
  shows "(\<forall>n r. plain j \<longrightarrow> delim r \<longrightarrow> fuel_of j \<le> n \<longrightarrow>
        parse_value n (dumps i k j @ r) = Some (j, r))"
    and "(\<forall>n r. plain_items xs \<longrightarrow> xs \<noteq> [] \<longrightarrow> fuel_items xs \<le> n \<longrightarrow>
        parse_items n (dumps_items i k xs @ CHR '']'' # r) = Some (xs, r))"
    and "(\<forall>n r. plain_pairs ps \<longrightarrow> ps \<noteq> [] \<longrightarrow> fuel_pairs ps \<le> n \<longrightarrow>
        parse_members n (dumps_pairs i k ps @ CHR ''}'' # r) = Some (ps, r))"
proof (induction j and xs and ps rule: fuel_of_fuel_items_fuel_pairs.induct)
  case (1 xs)
  show ?case
  proof (intro allI impI)
    fix n r assume p: "plain (JList xs)" and "delim r" and f: "fuel_of (JList xs) \<le> n"
    then obtain m where m: "n = Suc m" "fuel_items xs \<le> m" by (cases n) auto
    show "parse_value n (dumps i k (JList xs) @ r) = Some (JList xs, r)"
    proof (cases xs)
      case Nil
      with m show ?thesis by (simp add: skip_ws_delims)
    next
      case (Cons x ys)
      with 1 m p have "parse_items m (dumps_items i k xs @ CHR '']'' # r) = Some (xs, r)" by simp
      moreover have "skip_ws (dumps_items i k xs @ CHR '']'' # r) = dumps_items i k xs @ CHR '']'' # r"
        and "hd (dumps_items i k xs @ CHR '']'' # r) \<noteq> CHR '']''"
        using dumps_items_hd[of x ys i k "CHR '']'' # r"] p Cons by auto
      ultimately show ?thesis using m by simp
    qed
  qed
next
  case (2 ps)
  show ?case
  proof (intro allI impI)
    fix n r assume p: "plain (JDict ps)" and "delim r" and f: "fuel_of (JDict ps) \<le> n"
    then obtain m where m: "n = Suc m" "fuel_pairs ps \<le> m" by (cases n) auto
    show "parse_value n (dumps i k (JDict ps) @ r) = Some (JDict ps, r)"
    proof (cases "ps = []")
      case True
      with m show ?thesis by (simp add: skip_ws_delims)
    next
      case False
      with 2 m p have pm: "parse_members m (dumps_pairs i k ps @ CHR ''}'' # r) = Some (ps, r)" by simp
      obtain t where t: "dumps_pairs i k ps @ CHR ''}'' # r = quote # t"
        using dumps_pairs_hd[OF False] by blast
      show ?thesis using m p pm t by (simp add: skip_ws_delims dict_of_distinct)
    qed
  qed
next
  case (9 x xs)
  show ?case
  proof (intro allI impI)
    fix n r assume p: "plain_items (x # xs)" and f: "fuel_items (x # xs) \<le> n"
    then obtain m where m: "n = Suc m" "fuel_of x \<le> m" "fuel_items xs \<le> m" by (cases n) auto
    have x: "parse_value m (dumps i k x @ s) = Some (x, s)" if "delim s" for s
      using 9 p m that by simp
    show "parse_items n (dumps_items i k (x # xs) @ CHR '']'' # r) = Some (x # xs, r)"
    proof (cases xs)
      case Nil
      with m x[OF delims(2)] show ?thesis by (simp add: skip_ws_delims)
    next
      case (Cons y ys)
      have "skip_ws (wi @ dumps_items i k xs @ CHR '']'' # r) = dumps_items i k xs @ CHR '']'' # r"
        using dumps_items_hd[of y ys i k "CHR '']'' # r"] p Cons i by (simp add: skip_ws_append)
      with 9 p m x[OF delims(1)] Cons i show ?thesis by (simp add: skip_ws_delims)
    qed
  qed
next
  case (11 q ps)
  show ?case
  proof (intro allI impI)
    fix n r assume p: "plain_pairs (q # ps)" and f: "fuel_pairs (q # ps) \<le> n"
    then obtain m where m: "n = Suc m" "fuel_of (snd q) \<le> m" "fuel_pairs ps \<le> m" by (cases n) auto
    have x: "parse_value m (dumps i k (snd q) @ s) = Some (snd q, s)" if "delim s" for s
      using 11 p m that by simp
    note st = parse_members_step[OF k(2), of "snd q" m i k, folded k(1)]
    show "parse_members n (dumps_pairs i k (q # ps) @ CHR ''}'' # r) = Some (q # ps, r)"
    proof (cases "ps = []")
      case True
      with m p x[OF delims(3)] st[of "CHR ''}'' # r" "fst q"] show ?thesis
        by (simp add: skip_ws_delims del: parse_members.simps)
    next
      case False
      obtain t where t: "dumps_pairs i k ps @ CHR ''}'' # r = quote # t"
        using dumps_pairs_hd[OF False] by blast
      have sk: "skip_ws (wi @ dumps_pairs i k ps @ CHR ''}'' # r) = dumps_pairs i k ps @ CHR ''}'' # r"
        unfolding t using i by (simp add: skip_ws_append skip_ws_delims)
      have pm: "parse_members m (dumps_pairs i k ps @ CHR ''}'' # r) = Some (ps, r)"
        using 11 p m False by simp
      show ?thesis
        using st[of "CHR '','' # wi @ dumps_pairs i k ps @ CHR ''}'' # r" "fst q"]
          m p x[OF delims(1)] False i sk pm
        by (simp add: skip_ws_delims del: parse_members.simps)
    qed
  qed
next
  case (5 v)
  show ?case
  proof (intro allI impI)
    fix n r assume "delim r" and "fuel_of (JInt v) \<le> n"
    then show "parse_value n (dumps i k (JInt v) @ r) = Some (JInt v, r)"
      using parse_value_int[of r "n - 1" v] by (cases n) (auto simp del: parse_value.simps(2))
  qed
next
  case (6 v)
  show ?case
  proof (intro allI impI)
    fix n r assume "plain (JFloat v)" and "delim r" and "fuel_of (JFloat v) \<le> n"
    then show "parse_value n (dumps i k (JFloat v) @ r) = Some (JFloat v, r)"
      using parse_value_float[of r v "n - 1"] by (cases n) (auto simp del: parse_value.simps(2))
  qed
qed (auto simp: Suc_le_eq gr0_conv_Suc parse_str_dump dump_str_def
      parse_literal_def literals_def starts_with_def)

section \<open>The fuel suffices\<close>

lemma dump_str_length: "2 \<le> length (dump_str s)"
  by (simp add: dump_str_def)

lemma fuel_le:
  assumes "i \<noteq> []"
  shows "plain j \<Longrightarrow> fuel_of j \<le> 2 * length (dumps i k j)"
    and "plain_items xs \<Longrightarrow> fuel_items xs \<le> 2 * length (dumps_items i k xs) + 1"
    and "plain_pairs ps \<Longrightarrow> fuel_pairs ps \<le> 2 * length (dumps_pairs i k ps) + 1"
proof (induction j and xs and ps rule: fuel_of_fuel_items_fuel_pairs.induct)
  case (9 x xs)
  then have i: "1 \<le> length i" and x: "fuel_of x \<le> 2 * length (dumps i k x)"
    and xs: "fuel_items xs \<le> 2 * length (dumps_items i k xs) + 1"
    using assms by (simp_all add: Suc_le_eq)
  then show ?case by (cases "xs = []") auto
next
  case (11 q ps)
  then have "1 \<le> length i" and "fuel_of (snd q) \<le> 2 * length (dumps i k (snd q))"
    and "fuel_pairs ps \<le> 2 * length (dumps_pairs i k ps) + 1"
    using assms by (simp_all add: Suc_le_eq)
  then show ?case by (cases "ps = []") auto
next
  case (5 n)
  show ?case using show_int_hd[of n] by (cases "show_int n") auto
next
  case (6 t)
  then have "t \<noteq> []" using float_text_chars by auto
  then show ?case by (cases t) auto
next
  case (7 s)
  show ?case using dump_str_length[of s] by simp
qed auto

theorem loads_dumps:
  assumes "i = CHR '','' # wi" "list_all json_ws wi" and "k = CHR '':'' # wk" "list_all json_ws wk"
    and "plain j"
  shows "loads (dumps i k j) = Inr j"
proof -
  have "fuel_of j \<le> 2 * length (dumps i k j) + 2"
    using fuel_le(1)[of i j k] assms by simp
  then have "parse_value (2 * length (dumps i k j) + 2) (dumps i k j) = Some (j, [])"
    using parse_dumps(1)[OF assms(1-4), of j] assms(5) delims(4) by (metis append_Nil2)
  moreover have "skip_ws (dumps i k j) = dumps i k j"
    using skip_ws_dumps[OF assms(5), of "[]" i k "[]"] by simp
  ultimately show ?thesis by (simp add: loads_def skip_ws_def)
qed

lemma loads_dumps_compact: "plain j \<Longrightarrow> loads (dumps_compact j) = Inr j"
  unfolding dumps_compact_def
  by (rule loads_dumps[of _ "[]" _ "[]"]) simp_all

lemma loads_dumps_default: "plain j \<Longrightarrow> loads (dumps_default j) = Inr j"
  unfolding dumps_default_def
  by (rule loads_dumps[of _ "'' ''" _ "'' ''"]) (simp_all add: json_ws_def)

end
