(* ===== verification/Datetime.thy ===== *)
theory Datetime
  imports PyStr
begin

text \<open>
  The parts of Python's \<^verbatim>\<open>datetime\<close> the program uses on texts: the proleptic Gregorian
  calendar, \<^verbatim>\<open>isoformat\<close>, \<^verbatim>\<open>strptime(s, "%Y-%m-%d")\<close> and \<^verbatim>\<open>datetime.fromisoformat\<close>
  (Python 3.12, whose parser also takes the basic and week-date forms). An instant is the
  number of microseconds of \<^verbatim>\<open>Prelude\<close>; the theory shows that formatting and parsing are
  inverse on every instant of Python's range.
\<close>

section \<open>The calendar\<close>

definition is_leap :: "int \<Rightarrow> bool" where
  "is_leap y \<longleftrightarrow> y mod 4 = 0 \<and> (y mod 100 \<noteq> 0 \<or> y mod 400 = 0)"

definition days_before_year :: "int \<Rightarrow> int" where
  "days_before_year y = (let x = y - 1 in x * 365 + x div 4 - x div 100 + x div 400)"

definition month_starts :: "int list" where
  "month_starts = [0, 31, 59, 90, 120, 151, 181, 212, 243, 273, 304, 334, 365]"

definition days_before_month :: "int \<Rightarrow> nat \<Rightarrow> int" where
  "days_before_month y m = month_starts ! (m - 1) + (if 2 < m \<and> is_leap y then 1 else 0)"

definition days_in_month :: "int \<Rightarrow> nat \<Rightarrow> int" where
  "days_in_month y m = days_before_month y (Suc m) - days_before_month y m"

definition valid_date :: "int \<Rightarrow> nat \<Rightarrow> int \<Rightarrow> bool" where
  "valid_date y m d \<longleftrightarrow> 1 \<le> y \<and> y \<le> 9999 \<and> 1 \<le> m \<and> m \<le> 12 \<and> 1 \<le> d \<and> d \<le> days_in_month y m"

text \<open>Days since 0001-01-01, and back.\<close>

definition day_number :: "int \<Rightarrow> nat \<Rightarrow> int \<Rightarrow> int" where
  "day_number y m d = days_before_year y + days_before_month y m + d - 1"

lemma div_Suc_step:
  assumes "0 < (k::int)"
  shows "(x + 1) div k = x div k + (if (x + 1) mod k = 0 then 1 else 0)"
proof -
  define q where "q = x div k"
  define r where "r = x mod k"
  have r: "0 \<le> r" "r < k" using assms by (simp_all add: r_def)
  have x: "x + 1 = q * k + (r + 1)" by (simp add: q_def r_def)
  show ?thesis
  proof (cases "r + 1 = k")
    case True
    then have "x + 1 = (q + 1) * k" using x by (simp add: distrib_right)
    then show ?thesis using assms unfolding q_def[symmetric] by simp
  next
    case False
    then have "(q * k + (r + 1)) div k = q" "(q * k + (r + 1)) mod k = r + 1"
      using r assms by simp_all
    with r show ?thesis unfolding q_def[symmetric] x by simp
  qed
qed

lemma days_before_year_Suc:
  "days_before_year (y + 1) = days_before_year y + (if is_leap y then 366 else 365)"
proof -
  have m: "y mod 400 = 0 \<Longrightarrow> y mod 100 = 0" "y mod 100 = 0 \<Longrightarrow> y mod 4 = 0"
    by (auto simp: mod_eq_0_iff_dvd dest: dvd_trans[rotated])
  have e: "y div k = (y - 1) div k + (if y mod k = 0 then 1 else 0)" if "0 < k" for k
    using div_Suc_step[OF that, of "y - 1"] by simp
  have g: "y * 365 + (a + (if P then 1 else 0)) - (b + (if Q then 1 else 0)) + (c + (if R then 1 else 0))
      = (y - 1) * 365 + a - b + c + (if P \<and> (\<not> Q \<or> R) then 366 else 365)"
    if "R \<Longrightarrow> Q" "Q \<Longrightarrow> P" for a b c :: int and P Q R
    using that by (cases P; cases Q; cases R) simp_all
  show ?thesis
    unfolding days_before_year_def is_leap_def Let_def add_diff_cancel_right'
    unfolding e[of 4, simplified] e[of 100, simplified] e[of 400, simplified]
    by (rule g) (fact m)+
qed

lemma days_before_year_mono:
  assumes "y \<le> z"
  shows "days_before_year y \<le> days_before_year z"
  using assms
proof (induction z rule: int_ge_induct)
  case (step z)
  then show ?case using days_before_year_Suc[of z] by (auto split: if_splits)
qed simp

text \<open>The year of a day, counted through the cycles of 400, 100, 4 and 1 years.\<close>

definition year_of :: "int \<Rightarrow> int" where
  "year_of n = (let r = n mod 146097; c = min 3 (r div 36524); s = r - 36524 * c; t = s mod 1461
     in 400 * (n div 146097) + 100 * c + 4 * (s div 1461) + min 3 (t div 365) + 1)"

lemma days_before_year_parts:
  fixes a c q b :: int
  assumes "0 \<le> c" "c \<le> 3" "0 \<le> q" "q \<le> 24" "0 \<le> b" "b \<le> 3"
  shows "days_before_year (400 * a + 100 * c + 4 * q + b + 1) = 146097 * a + 36524 * c + 1461 * q + 365 * b"
    and "b = 3 \<Longrightarrow> q < 24 \<or> c = 3 \<Longrightarrow> is_leap (400 * a + 100 * c + 4 * q + b + 1)"
proof -
  let ?z = "400 * a + 100 * c + 4 * q + b"
  have "?z div 4 = 100 * a + 25 * c + q" using assms by simp
  moreover have "?z div 100 = 4 * a + c" using assms by simp
  moreover have "?z div 400 = a" using assms by simp
  ultimately show "days_before_year (?z + 1) = 146097 * a + 36524 * c + 1461 * q + 365 * b"
    by (simp add: days_before_year_def)
  assume b: "b = 3" and l: "q < 24 \<or> c = 3"
  have "(?z + 1) mod 4 = 0" using b by presburger
  moreover have "(?z + 1) mod 100 \<noteq> 0 \<or> (?z + 1) mod 400 = 0"
  proof (cases "q = 24")
    case True
    with l b have "?z + 1 = 400 * (a + 1)" by simp
    then have "(?z + 1) mod 400 = 0" by (metis mod_mult_self1_is_0)
    then show ?thesis by blast
  next
    case False
    have "?z + 1 = (4 * q + 4) + (4 * a + c) * 100" using b by simp
    then have "(?z + 1) mod 100 = (4 * q + 4) mod 100" by (metis mod_mult_self1)
    also have "\<dots> = 4 * q + 4" using False assms(3,4) by (intro mod_pos_pos_trivial) linarith+
    finally have "(?z + 1) mod 100 = 4 * q + 4" .
    then show ?thesis using assms(3) by simp
  qed
  ultimately show "is_leap (?z + 1)" by (simp add: is_leap_def)
qed

lemma year_of_bounds:
  "days_before_year (year_of n) \<le> n \<and> n < days_before_year (year_of n + 1)"
proof -
  define a r where "a = n div 146097" and "r = n mod 146097"
  define c where "c = min 3 (r div 36524)"
  define s where "s = r - 36524 * c"
  define q t where "q = s div 1461" and "t = s mod 1461"
  define b where "b = min 3 (t div 365)"
  have r: "0 \<le> r" "r < 146097" "n = 146097 * a + r" by (simp_all add: a_def r_def)
  have c: "0 \<le> c" "c \<le> 3" using r by (simp_all add: c_def pos_imp_zdiv_nonneg_iff)
  have s: "0 \<le> s" "s \<le> 36524" "c < 3 \<Longrightarrow> s < 36524" using r unfolding s_def c_def by linarith+
  have q: "0 \<le> q" "q \<le> 24" using s by (simp_all add: q_def pos_imp_zdiv_nonneg_iff)
  have t: "0 \<le> t" "t < 1461" "s = 1461 * q + t" by (simp_all add: t_def q_def)
  have b: "0 \<le> b" "b \<le> 3" "365 * b \<le> t" using t by (simp_all add: b_def pos_imp_zdiv_nonneg_iff)
  have last: "t < 365 * b + 365 \<or> (b = 3 \<and> t = 1460 \<and> (q < 24 \<or> c = 3))" using t s(2,3) q c unfolding b_def by linarith
  have y: "year_of n = 400 * a + 100 * c + 4 * q + b + 1"
    unfolding year_of_def Let_def a_def[symmetric] r_def[symmetric] c_def[symmetric] s_def[symmetric] q_def[symmetric]
      t_def[symmetric] b_def[symmetric] by simp
  note p = days_before_year_parts[OF c q b(1,2), of a]
  have d: "days_before_year (year_of n) = 146097 * a + 36524 * c + 1461 * q + 365 * b" unfolding y by (rule p)
  have n: "n = 146097 * a + 36524 * c + 1461 * q + t" using r t by (simp add: s_def)
  have "n < days_before_year (year_of n + 1)"
  proof (cases "is_leap (year_of n)")
    case True
    then show ?thesis using d n last by (auto simp: days_before_year_Suc)
  next
    case False
    then have "t < 365 * b + 365" using last p(2) y by auto
    with False show ?thesis using d n by (simp add: days_before_year_Suc)
  qed
  moreover have "days_before_year (year_of n) \<le> n" using d n b(3) by linarith
  ultimately show ?thesis by simp
qed

lemma year_unique:
  assumes "days_before_year y \<le> n" "n < days_before_year (y + 1)"
    and "days_before_year z \<le> n" "n < days_before_year (z + 1)"
  shows "y = z"
  using assms days_before_year_mono[of "y + 1" z] days_before_year_mono[of "z + 1" y] by linarith

lemma year_of_eq:
  "days_before_year y \<le> n \<Longrightarrow> n < days_before_year (y + 1) \<Longrightarrow> 1 \<le> y \<Longrightarrow> year_of n = y"
  using year_unique[of "year_of n" n y] year_of_bounds[of n] days_before_year_mono[of 1 y]
  by (simp add: days_before_year_def)

text \<open>The month of a day of the year: the last one that has begun.\<close>

definition month_of :: "int \<Rightarrow> int \<Rightarrow> nat" where
  "month_of y r = last (filter (\<lambda>m. days_before_month y m \<le> r) [1..<13])"

definition civil :: "int \<Rightarrow> int \<times> nat \<times> int" where
  "civil n = (let y = year_of n; r = n - days_before_year y; m = month_of y r
     in (y, m, r - days_before_month y m + 1))"

text \<open>For evaluation: a date is computed only for a day that is known.\<close>

lemma civil_code [code]:
  "civil n = (if 0 \<le> n
     then (let y = year_of n; r = n - days_before_year y; m = month_of y r in (y, m, r - days_before_month y m + 1))
     else (let y = year_of n; r = n - days_before_year y; m = month_of y r in (y, m, r - days_before_month y m + 1)))"
  by (simp add: civil_def)

lemma month_cases: "1 \<le> m \<Longrightarrow> m \<le> (12::nat) \<Longrightarrow>
   m = 1 \<or> m = 2 \<or> m = 3 \<or> m = 4 \<or> m = 5 \<or> m = 6 \<or> m = 7 \<or> m = 8 \<or> m = 9 \<or> m = 10 \<or> m = 11 \<or> m = 12"
  by arith

lemmas month_defs = days_before_month_def days_in_month_def month_starts_def

lemma days_before_month_13: "days_before_month y 13 = (if is_leap y then 366 else 365)"
  by (simp add: month_defs)

lemma days_before_month_1 [simp]: "days_before_month y (Suc 0) = 0"
  by (simp add: month_defs)

lemma days_before_month_Suc: "1 \<le> m \<Longrightarrow> m \<le> 12 \<Longrightarrow> days_before_month y m < days_before_month y (Suc m)"
  by (drule (1) month_cases) (elim disjE; simp add: month_defs)

lemma days_before_month_mono:
  assumes "m \<le> k" and "1 \<le> m" and "k \<le> 13"
  shows "days_before_month y m \<le> days_before_month y k"
  using assms
proof (induction k rule: dec_induct)
  case (step k)
  then show ?case using days_before_month_Suc[of k y] by simp
qed simp

lemma month_of_bounds:
  assumes "0 \<le> r" and "r < (if is_leap y then 366 else 365)"
  shows "1 \<le> month_of y r \<and> month_of y r \<le> 12 \<and> days_before_month y (month_of y r) \<le> r
     \<and> r < days_before_month y (Suc (month_of y r))"
proof -
  define ms where "ms = filter (\<lambda>m. days_before_month y m \<le> r) [1..<13]"
  have mo: "month_of y r = last ms" by (simp add: month_of_def ms_def)
  have one: "1 \<in> set ms" using assms(1) by (simp add: ms_def)
  then have "ms \<noteq> []" by auto
  then have l: "last ms \<in> set ms" by simp
  then have b: "1 \<le> last ms" "last ms \<le> 12" "days_before_month y (last ms) \<le> r" by (auto simp: ms_def)
  have ap: "ms = butlast ms @ [last ms]" using \<open>ms \<noteq> []\<close> by simp
  have "sorted ms" by (simp add: ms_def sorted_wrt_filter)
  then have "sorted (butlast ms @ [last ms])" using ap by metis
  moreover have "set ms = insert (last ms) (set (butlast ms))" by (subst ap) simp
  ultimately have top: "m \<le> last ms" if "m \<in> set ms" for m
    using that by (auto simp: sorted_append)
  have "r < days_before_month y (Suc (last ms))"
  proof (cases "last ms = 12")
    case True
    then show ?thesis using assms(2) days_before_month_13[of y] by simp
  next
    case False
    then have "Suc (last ms) \<in> set [1..<13]" using b by simp
    moreover have "Suc (last ms) \<notin> set ms" using top by force
    ultimately show ?thesis by (auto simp: ms_def)
  qed
  with b mo show ?thesis by simp
qed

lemma month_of_eq:
  assumes "1 \<le> m" "m \<le> 12" and "days_before_month y m \<le> r" and "r < days_before_month y (Suc m)"
  shows "month_of y r = m"
proof -
  have "0 \<le> r" using assms(1-3) days_before_month_mono[of 1 m y] by simp
  moreover have "r < (if is_leap y then 366 else 365)"
    using assms days_before_month_mono[of "Suc m" 13 y] days_before_month_13[of y] by simp
  ultimately have b: "1 \<le> month_of y r" "month_of y r \<le> 12" "days_before_month y (month_of y r) \<le> r"
     "r < days_before_month y (Suc (month_of y r))" using month_of_bounds by blast+
  show ?thesis
    using b assms days_before_month_mono[of "Suc m" "month_of y r" y]
      days_before_month_mono[of "Suc (month_of y r)" m y] by (cases "month_of y r" m rule: linorder_cases) auto
qed

lemma civil_day_number:
  assumes "valid_date y m d"
  shows "civil (day_number y m d) = (y, m, d)"
proof -
  let ?r = "days_before_month y m + d - 1"
  have v: "1 \<le> y" "1 \<le> m" "m \<le> 12" "1 \<le> d" "days_before_month y m + d \<le> days_before_month y (Suc m)"
    using assms by (simp_all add: valid_date_def days_in_month_def)
  have r: "0 \<le> ?r" "?r < (if is_leap y then 366 else 365)" "days_before_month y m \<le> ?r"
    "?r < days_before_month y (Suc m)"
    using v days_before_month_mono[of 1 m y] days_before_month_mono[of "Suc m" 13 y]
    by (simp_all add: days_before_month_13 split: if_splits)
  have "year_of (day_number y m d) = y"
    using r v(1) by (intro year_of_eq) (simp_all add: day_number_def days_before_year_Suc split: if_splits)
  moreover have "month_of y ?r = m" using v r by (intro month_of_eq) simp_all
  ultimately show ?thesis by (simp add: civil_def day_number_def Let_def algebra_simps)
qed

lemma day_number_civil:
  assumes "0 \<le> n" and "n < 3652059" and c: "civil n = (y, m, d)"
  shows "valid_date y m d \<and> day_number y m d = n"
proof -
  have y: "y = year_of n" and m: "m = month_of y (n - days_before_year y)"
    and d: "d = n - days_before_year y - days_before_month y m + 1"
    using c by (auto simp: civil_def Let_def)
  have b: "days_before_year y \<le> n" "n < days_before_year (y + 1)" using year_of_bounds[of n] y by simp_all
  then have r: "0 \<le> n - days_before_year y" "n - days_before_year y < (if is_leap y then 366 else 365)"
    by (simp_all add: days_before_year_Suc split: if_splits)
  note mb = month_of_bounds[OF r, folded m]
  have "1 \<le> y"
  proof (rule ccontr)
    assume "\<not> 1 \<le> y"
    then have "days_before_year (y + 1) \<le> days_before_year 1" by (intro days_before_year_mono) simp
    with b assms(1) show False by (simp add: days_before_year_def)
  qed
  moreover have "y \<le> 9999"
  proof (rule ccontr)
    assume "\<not> y \<le> 9999"
    then have "days_before_year 10000 \<le> days_before_year y" by (intro days_before_year_mono) simp
    with b assms(2) show False by (simp add: days_before_year_def)
  qed
  ultimately show ?thesis using mb by (simp add: valid_date_def days_in_month_def d day_number_def)
qed

section \<open>Instants\<close>

definition instant :: "int \<Rightarrow> nat \<Rightarrow> int \<Rightarrow> int \<Rightarrow> int \<Rightarrow> int \<Rightarrow> int \<Rightarrow> datetime" where
  "instant y m d hh mi ss us =
     (((day_number y m d * 24 + hh) * 60 + mi) * 60 + ss) * second_us + us"

definition valid_time :: "int \<Rightarrow> int \<Rightarrow> int \<Rightarrow> int \<Rightarrow> bool" where
  "valid_time hh mi ss us \<longleftrightarrow> 0 \<le> hh \<and> hh \<le> 23 \<and> 0 \<le> mi \<and> mi \<le> 59 \<and> 0 \<le> ss \<and> ss \<le> 59
     \<and> 0 \<le> us \<and> us < second_us"

text \<open>The constructor \<^verbatim>\<open>datetime(...)\<close>, with its range checks.\<close>

definition make_instant :: "int \<Rightarrow> nat \<Rightarrow> int \<Rightarrow> int \<Rightarrow> int \<Rightarrow> int \<Rightarrow> int \<Rightarrow> datetime option" where
  "make_instant y m d hh mi ss us =
    (if valid_date y m d \<and> valid_time hh mi ss us then Some (instant y m d hh mi ss us) else None)"

definition digit_char :: "int \<Rightarrow> char" where
  "digit_char n = char_of (48 + nat n)"

fun pad :: "nat \<Rightarrow> int \<Rightarrow> string" where
  "pad 0 n = []"
| "pad (Suc w) n = pad w (n div 10) @ [digit_char (n mod 10)]"

definition date_iso :: "datetime \<Rightarrow> string" where
  "date_iso t = (let (y, m, d) = civil (t div day_us) in pad 4 y @ ''-'' @ pad 2 (int m) @ ''-'' @ pad 2 d)"

definition time_iso :: "datetime \<Rightarrow> string" where
  "time_iso t = (let s = t div second_us; us = t mod second_us in
     pad 2 (s div 3600 mod 24) @ '':'' @ pad 2 (s div 60 mod 60) @ '':'' @ pad 2 (s mod 60)
       @ (if us = 0 then [] else ''.'' @ pad 6 us))"

definition isoformat :: "datetime \<Rightarrow> string" where
  "isoformat t = date_iso t @ ''T'' @ time_iso t"

section \<open>Parsing\<close>

definition digits :: "nat \<Rightarrow> string \<Rightarrow> (int \<times> string) option" where
  "digits k s = (if k \<le> length s \<and> list_all is_digit (take k s) then Some (read_int (take k s), drop k s)
     else None)"

text \<open>\<^verbatim>\<open>strptime(s, "%Y-%m-%d")\<close>: four digits, then one or two for month and day.\<close>

definition strp_month :: "string \<Rightarrow> int option" where
  "strp_month s = (if list_all is_digit s \<and> s \<noteq> [] \<and> length s \<le> 2 \<and> 1 \<le> read_int s \<and> read_int s \<le> 12
     then Some (read_int s) else None)"

definition strp_day :: "string \<Rightarrow> int option" where
  "strp_day s = (let s = (if length s = 2 \<and> hd s = CHR '' '' then tl s else s) in
     if list_all is_digit s \<and> s \<noteq> [] \<and> length s \<le> 2 \<and> 1 \<le> read_int s \<and> read_int s \<le> 31
     then Some (read_int s) else None)"

definition strptime_date :: "string \<Rightarrow> datetime option" where
  "strptime_date s = (case digits 4 s of None \<Rightarrow> None
    | Some (y, r) \<Rightarrow>
        if r = [] \<or> hd r \<noteq> CHR ''-'' then None
        else (let (ms, dash, ds) = partition (CHR ''-'') (tl r) in
          if \<not> dash then None
          else (case (strp_month ms, strp_day ds) of
              (Some m, Some d) \<Rightarrow> make_instant y (nat m) d 0 0 0 0
            | _ \<Rightarrow> None)))"

text \<open>Week dates: the Monday of week 1, and the day of a week.\<close>

definition weekday :: "int \<Rightarrow> int" where
  "weekday n = n mod 7"

definition week1_monday :: "int \<Rightarrow> int" where
  "week1_monday y = (let n = days_before_year y; w = weekday n in
     n - w + (if w > 3 then 7 else 0))"

definition week_date :: "int \<Rightarrow> int \<Rightarrow> int \<Rightarrow> (int \<times> nat \<times> int) option" where
  "week_date y w d = (let w1 = weekday (days_before_year y) in
     if 1 \<le> y \<and> y \<le> 9999 \<and> 1 \<le> w \<and> (w \<le> 52 \<or> w = 53 \<and> (w1 = 3 \<or> w1 = 2 \<and> is_leap y))
        \<and> 1 \<le> d \<and> d \<le> 7
     then Some (civil (week1_monday y + (w - 1) * 7 + d - 1)) else None)"

text \<open>The date part of \<^verbatim>\<open>fromisoformat\<close>: calendar or week date, extended or basic.\<close>

definition iso_date :: "string \<Rightarrow> (int \<times> nat \<times> int) option" where
  "iso_date s = (case digits 4 s of None \<Rightarrow> None
    | Some (y, r) \<Rightarrow>
       let sep = (r \<noteq> [] \<and> hd r = CHR ''-''); r = (if sep then tl r else r) in
       if r \<noteq> [] \<and> hd r = CHR ''W'' then
         (case digits 2 (tl r) of None \<Rightarrow> None
          | Some (w, r) \<Rightarrow>
             if r = [] then week_date y w 1
             else if sep \<and> hd r \<noteq> CHR ''-'' then None
             else (case digits 1 (if sep then tl r else r) of
                 Some (d, []) \<Rightarrow> week_date y w d | _ \<Rightarrow> None))
       else (case digits 2 r of None \<Rightarrow> None
          | Some (m, r) \<Rightarrow>
             if sep \<and> (r = [] \<or> hd r \<noteq> CHR ''-'') then None
             else (case digits 2 (if sep then tl r else r) of
                 Some (d, []) \<Rightarrow> if 0 \<le> m then Some (y, nat m, d) else None | _ \<Rightarrow> None)))"

text \<open>Where the date part ends.\<close>

definition iso_split :: "string \<Rightarrow> nat" where
  "iso_split s =
    (if length s = 7 then 7
     else if s ! 4 = CHR ''-'' then
       (if s ! 5 = CHR ''W'' then
          (if length s > 8 \<and> s ! 8 = CHR ''-''
           then (if length s > 10 \<and> is_digit (s ! 10) then 8 else 10)
           else 8)
        else 10)
     else if s ! 4 = CHR ''W'' then
       (let pos = 7 + length (takeWhile is_digit (drop 7 s)) in
        if pos < 9 then pos else if even pos then 7 else 8)
     else 8)"

text \<open>
  A time \<open>HH[:MM[:SS[.ffffff]]]\<close>, with or without colons. The flag of the result tells that
  a character was left, which the caller accepts only before an offset; \<open>more\<close> says whether
  an offset follows.
\<close>

definition fraction :: "bool \<Rightarrow> string \<Rightarrow> (int \<times> bool) option" where
  "fraction more r = (let k = min 6 (length r) in
     case digits k r of None \<Rightarrow> None
     | Some (f, r) \<Rightarrow> Some (f * 10 ^ (6 - k), dropWhile is_digit r \<noteq> [] \<or> more))"

fun clock :: "nat \<Rightarrow> bool \<Rightarrow> bool \<Rightarrow> int list \<Rightarrow> string \<Rightarrow> (int list \<times> int \<times> bool) option" where
  "clock 0 sep more vs r = map_option (\<lambda>(f, x). (vs, f, x)) (fraction more r)"
| "clock (Suc i) sep more vs r = (case digits 2 r of None \<Rightarrow> None
    | Some (v, r) \<Rightarrow>
        if r = [] then Some (vs @ [v], 0, more)
        else (let c = hd r; sep = (if vs = [] then c = CHR '':'' else sep) in
          if tl r = [] then Some (vs @ [v], 0, True)
          else if sep \<and> c = CHR '':'' then (if i = 0 then None else clock i sep more (vs @ [v]) (tl r))
          else if c = CHR ''.'' \<or> c = CHR '','' then map_option (\<lambda>(f, x). (vs @ [v], f, x)) (fraction more (tl r))
          else if \<not> sep then clock i sep more (vs @ [v]) r
          else None))"

definition part :: "int list \<Rightarrow> nat \<Rightarrow> int" where
  "part vs i = (if i < length vs then vs ! i else 0)"

definition tz_char :: "char \<Rightarrow> bool" where
  "tz_char c \<longleftrightarrow> c = CHR ''+'' \<or> c = CHR ''-'' \<or> c = CHR ''Z''"

definition iso_offset :: "string \<Rightarrow> bool" where
  "iso_offset z \<longleftrightarrow> (if hd z = CHR ''Z'' then tl z = []
     else (case clock 3 True False [] (tl z) of
         Some (vs, us, False) \<Rightarrow> ((part vs 0 * 60 + part vs 1) * 60 + part vs 2) * second_us + us < day_us
       | _ \<Rightarrow> False))"

text \<open>
  \<open>datetime.fromisoformat\<close>: the wall-clock instant and whether an offset was given, or
  \<open>None\<close> for \<open>ValueError\<close>. An offset is dropped when the value is stored.
\<close>

definition fromisoformat :: "string \<Rightarrow> (datetime \<times> bool) option" where
  "fromisoformat s = (if length s < 7 then None
     else (let k = iso_split s; rest = drop (Suc k) s in
       case iso_date (take k s) of None \<Rightarrow> None
       | Some (y, m, d) \<Rightarrow>
          if rest = [] then map_option (\<lambda>t. (t, False)) (make_instant y m d 0 0 0 0)
          else (let body = takeWhile (\<lambda>c. \<not> tz_char c) rest;
                    z = dropWhile (\<lambda>c. \<not> tz_char c) rest
            in case clock 3 True (z \<noteq> []) [] body of None \<Rightarrow> None
             | Some (vs, us, left) \<Rightarrow>
                 if (z = [] \<and> left) \<or> (z \<noteq> [] \<and> \<not> iso_offset z) then None
                 else map_option (\<lambda>t. (t, z \<noteq> []))
                   (make_instant y m d (part vs 0) (part vs 1) (part vs 2) us))))"

section \<open>Formatting and parsing are inverse\<close>

lemma digit_char_digit [simp]: "is_digit (digit_char (n mod 10))"
  by (simp add: digit_char_def is_digit_def code_def)

lemma digit_val_char [simp]: "int (digit_val (digit_char (n mod 10))) = n mod 10"
  by (simp add: digit_char_def digit_val_def code_def)

lemma length_pad [simp]: "length (pad w n) = w"
  by (induction w arbitrary: n) auto

lemma pad_digits: "list_all is_digit (pad w n)"
  by (induction w arbitrary: n) auto

lemma read_pad: "0 \<le> n \<Longrightarrow> n < 10 ^ w \<Longrightarrow> read_int (pad w n) = n"
proof (induction w arbitrary: n)
  case 0
  then show ?case by (simp add: read_nat_def)
next
  case (Suc w)
  then have "read_int (pad w (n div 10)) = n div 10"
    by (intro Suc.IH) (auto simp: pos_imp_zdiv_nonneg_iff)
  then show ?case by (simp add: read_nat_snoc)
qed

lemma digits_pad:
  "0 \<le> n \<Longrightarrow> n < 10 ^ w \<Longrightarrow> digits w (pad w n @ r) = Some (n, r)"
  using read_pad[of n w] pad_digits[of w n] by (simp add: digits_def)

lemma digit_not [simp]:
  "is_digit c \<Longrightarrow> c \<noteq> CHR ''-''" "is_digit c \<Longrightarrow> c \<noteq> CHR '':''" "is_digit c \<Longrightarrow> c \<noteq> CHR ''W''"
  "is_digit c \<Longrightarrow> c \<noteq> CHR ''+''" "is_digit c \<Longrightarrow> c \<noteq> CHR ''Z''" "is_digit c \<Longrightarrow> c \<noteq> CHR ''.''"
  by (auto simp: is_digit_def code_def)

lemma pad_nth: "i < w \<Longrightarrow> is_digit (pad w n ! i)"
  using pad_digits[of w n] by (simp add: list_all_length)

lemma pad_hd: "0 < w \<Longrightarrow> is_digit (hd (pad w n))"
proof -
  assume w: "0 < w"
  then have "pad w n \<noteq> []" by (metis length_pad list.size(3) less_irrefl)
  then show ?thesis using pad_nth[OF w, of n] by (simp add: hd_conv_nth)
qed

lemma valid_date_bounds:
  assumes "valid_date y m d"
  shows "0 \<le> y" "y < 10 ^ 4" "0 \<le> int m" "int m < 10 ^ 2" "0 \<le> d" "d < 10 ^ 2"
proof -
  have m: "1 \<le> m" "m \<le> 12" using assms by (simp_all add: valid_date_def)
  have "days_in_month y m \<le> 31"
    using month_cases[OF m] by (elim disjE; simp add: month_defs)
  with assms show "0 \<le> y" "y < 10 ^ 4" "0 \<le> int m" "int m < 10 ^ 2" "0 \<le> d" "d < 10 ^ 2"
    by (simp_all add: valid_date_def)
qed

lemma iso_date_pad:
  assumes "valid_date y m d"
  shows "iso_date (pad 4 y @ ''-'' @ pad 2 (int m) @ ''-'' @ pad 2 d) = Some (y, m, d)"
proof -
  note b = valid_date_bounds[OF assms]
  have h: "hd (pad 2 (int m) @ CHR ''-'' # pad 2 d) \<noteq> CHR ''W''"
    using pad_hd[of 2 "int m"] by (simp del: pad.simps add: hd_append numeral_2_eq_2)
  show ?thesis using b h digits_pad[OF b(5,6), of "[]"]
    by (simp add: iso_date_def digits_pad Let_def del: pad.simps)
qed

lemma clock_pad:
  assumes "0 \<le> h" "h < 10 ^ 2" "0 \<le> mi" "mi < 10 ^ 2" "0 \<le> sc" "sc < 10 ^ 2" "0 \<le> us" "us < 10 ^ 6"
  shows "clock 3 True False [] (pad 2 h @ '':'' @ pad 2 mi @ '':'' @ pad 2 sc
      @ (if us = 0 then [] else ''.'' @ pad 6 us)) = Some ([h, mi, sc], us, False)"
proof -
  have n: "pad 6 us \<noteq> []" "pad 2 mi \<noteq> []" "pad 2 sc \<noteq> []" by (metis length_pad list.size(3) zero_neq_numeral)+
  have f: "fraction False (pad 6 us) = Some (us, False)"
    using assms digits_pad[of us 6 "[]"] by (simp add: fraction_def Let_def del: pad.simps)
  show ?thesis using assms n f digits_pad[of sc 2 "[]"]
    by (simp add: numeral_3_eq_3 digits_pad Let_def del: pad.simps)
qed

lemma no_tz_pad: "c \<in> set (pad w n) \<Longrightarrow> \<not> tz_char c"
  using pad_digits[of w n] by (auto simp: list_all_iff tz_char_def)

lemma isoformat_roundtrip:
  assumes "0 \<le> t" and "t \<le> datetime_max"
  shows "fromisoformat (isoformat t) = Some (t, False)"
proof -
  define n where "n = t div day_us"
  define s where "s = t div second_us"
  define us where "us = t mod second_us"
  obtain y m d where c: "civil n = (y, m, d)" by (cases "civil n")
  have n: "0 \<le> n" "n < 3652059" using assms
    by (auto simp: n_def us_defs datetime_max_def pos_imp_zdiv_nonneg_iff)
  from day_number_civil[OF n c] have v: "valid_date y m d" and dn: "day_number y m d = n" by auto
  let ?h = "s div 3600 mod 24" and ?mi = "s div 60 mod 60" and ?sc = "s mod 60"
  have us: "0 \<le> us" "us < 10 ^ 6" by (simp_all add: us_def us_defs)
  have nd: "n = s div 86400" by (simp add: n_def s_def us_defs zdiv_zmult2_eq[symmetric])
  have e1: "n * 24 + ?h = s div 3600"
    using div_mult_mod_eq[of "s div 3600" 24] by (simp add: nd zdiv_zmult2_eq[symmetric])
  have e2: "s div 3600 * 60 + ?mi = s div 60"
    using div_mult_mod_eq[of "s div 60" 60] by (simp add: zdiv_zmult2_eq[symmetric])
  have e3: "s div 60 * 60 + ?sc = s" by (rule div_mult_mod_eq)
  have "((n * 24 + ?h) * 60 + ?mi) * 60 + ?sc = s" by (simp only: e1 e2 e3)
  moreover have "s * second_us + us = t" by (simp add: s_def us_def)
  ultimately have i: "instant y m d ?h ?mi ?sc us = t" by (simp only: instant_def dn)
  let ?date = "pad 4 y @ ''-'' @ pad 2 (int m) @ ''-'' @ pad 2 d"
  let ?time = "pad 2 ?h @ '':'' @ pad 2 ?mi @ '':'' @ pad 2 ?sc @ (if us = 0 then [] else ''.'' @ pad 6 us)"
  have iso: "isoformat t = ?date @ ''T'' @ ?time"
    using c by (simp add: isoformat_def date_iso_def time_iso_def Let_def s_def us_def n_def del: pad.simps)
  have l: "length ?date = 10" by simp
  have s4: "isoformat t ! 4 = CHR ''-''" unfolding iso by (simp add: nth_append del: pad.simps)
  have s5: "isoformat t ! 5 \<noteq> CHR ''W''"
    unfolding iso using pad_nth[of 0 2 "int m"] by (simp add: nth_append del: pad.simps)
  have k: "iso_split (isoformat t) = 10" using s4 s5 l iso by (simp add: iso_split_def del: pad.simps)
  have td: "take 10 (isoformat t) = ?date" "drop 11 (isoformat t) = ?time" unfolding iso by (simp_all del: pad.simps)
  have nz: "\<forall>c \<in> set ?time. \<not> tz_char c" by (auto simp: tz_char_def simp del: pad.simps dest: no_tz_pad)
  define D where "D = ?date"
  define T where "T = ?time"
  have "T \<noteq> []" by (simp add: T_def del: pad.simps)
  moreover have tw: "takeWhile (\<lambda>c. \<not> tz_char c) T = T" "dropWhile (\<lambda>c. \<not> tz_char c) T = []"
    using nz unfolding T_def by (simp_all only: takeWhile_eq_all_conv dropWhile_eq_Nil_conv)
  moreover have "clock 3 True False [] T = Some ([?h, ?mi, ?sc], us, False)"
    unfolding T_def by (rule clock_pad) (use us in simp_all)
  moreover have "x mod 24 \<le> 23" "x mod 60 \<le> 59" for x :: int
    using pos_mod_bound[of 24 x] pos_mod_bound[of 60 x] by linarith+
  then have "valid_time ?h ?mi ?sc us" using us by (simp add: valid_time_def us_defs)
  then have "make_instant y m d ?h ?mi ?sc us = Some t" using v i by (simp add: make_instant_def)
  moreover have "7 \<le> length (isoformat t)" using iso by simp
  moreover have "iso_date D = Some (y, m, d)" unfolding D_def by (rule iso_date_pad[OF v])
  moreover have "take 10 (isoformat t) = D" "drop (Suc 10) (isoformat t) = T"
    using td by (simp_all add: D_def T_def del: pad.simps)
  ultimately show ?thesis by (simp add: fromisoformat_def k part_def tw Let_def del: clock.simps)
qed

end
