(* ===== verification/Config.thy ===== *)
theory Config
  imports Json
begin

text \<open>
  The server's settings (\<^verbatim>\<open>app/config.py\<close>), read from the process environment, and the world
  outside the repository as one record of parameters: the random draws (\<^verbatim>\<open>uuid\<close>,
  \<^verbatim>\<open>secrets\<close>), the cryptography (\<^verbatim>\<open>hashlib\<close>, \<^verbatim>\<open>hmac\<close>, Fernet, HKDF, Ed25519, PyJWT, pyotp,
  itsdangerous, the payment provider's signature check), name resolution, the HTTP client,
  the compressed archive format, the object store and the text of a binary float. Every definition of the development that reaches one of
  them takes the record as its first argument; what a theorem relies on is a hypothesis
  about its fields.
\<close>

record settings =
  database_url :: string
  admin_token :: string
  session_secret :: string
  jwt_ttl_days :: int
  cookie_secure :: bool
  resend_api_key :: string
  email_from :: string
  key_encryption_key :: string
  key_encryption_key_prev :: string
  require_kek :: bool
  db_pool_size :: int
  db_max_overflow :: int
  db_pool_recycle :: int
  license_key_pepper :: string
  backup_dir_cfg :: string
  backup_s3_bucket :: string
  backup_s3_endpoint :: string
  backup_s3_region :: string
  backup_s3_access_key :: string
  backup_s3_secret_key :: string
  backup_s3_prefix :: string
  backup_retention_count :: int
  backup_retention_days :: int

text \<open>\<^verbatim>\<open>os.environ.get(name, default)\<close> on the environment as a map.\<close>

definition env_get :: "(string \<rightharpoonup> string) \<Rightarrow> string \<Rightarrow> string \<Rightarrow> string" where
  "env_get env n d = (case env n of None \<Rightarrow> d | Some v \<Rightarrow> v)"

definition env_flag :: "(string \<rightharpoonup> string) \<Rightarrow> string \<Rightarrow> string \<Rightarrow> bool" where
  "env_flag env n d \<longleftrightarrow> lower (env_get env n d) \<in> {''1'', ''true'', ''yes''}"

definition get_settings :: "(string \<rightharpoonup> string) \<Rightarrow> settings res" where
  "get_settings env =
    rbind (py_int (env_get env ''JWT_TTL_DAYS'' ''7'')) (\<lambda>ttl.
    rbind (py_int (env_get env ''DB_POOL_SIZE'' ''5'')) (\<lambda>pool.
    rbind (py_int (env_get env ''DB_MAX_OVERFLOW'' ''10'')) (\<lambda>ovf.
    rbind (py_int (env_get env ''DB_POOL_RECYCLE'' ''1800'')) (\<lambda>rec.
    rbind (py_int (env_get env ''BACKUP_RETENTION_COUNT'' ''14'')) (\<lambda>cnt.
    rbind (py_int (env_get env ''BACKUP_RETENTION_DAYS'' ''0'')) (\<lambda>days.
    Inr \<lparr>
      database_url = env_get env ''DATABASE_URL'' ''sqlite:///./license.db'',
      admin_token = env_get env ''ADMIN_TOKEN'' '''',
      session_secret = env_get env ''SESSION_SECRET'' '''',
      jwt_ttl_days = ttl,
      cookie_secure = env_flag env ''COOKIE_SECURE'' ''true'',
      resend_api_key = env_get env ''RESEND_API_KEY'' '''',
      email_from = env_get env ''EMAIL_FROM'' ''onboarding@resend.dev'',
      key_encryption_key = env_get env ''LICENSE_KEY_ENCRYPTION_KEY'' '''',
      key_encryption_key_prev = env_get env ''LICENSE_KEY_ENCRYPTION_KEY_PREV'' '''',
      require_kek = env_flag env ''LICENSE_SERVER_REQUIRE_KEK'' '''',
      db_pool_size = pool,
      db_max_overflow = ovf,
      db_pool_recycle = rec,
      license_key_pepper = env_get env ''LICENSE_KEY_PEPPER'' '''',
      backup_dir_cfg = env_get env ''BACKUP_DIR'' ''./backups'',
      backup_s3_bucket = env_get env ''BACKUP_S3_BUCKET'' '''',
      backup_s3_endpoint = env_get env ''BACKUP_S3_ENDPOINT'' '''',
      backup_s3_region = env_get env ''BACKUP_S3_REGION'' '''',
      backup_s3_access_key = env_get env ''BACKUP_S3_ACCESS_KEY'' '''',
      backup_s3_secret_key = env_get env ''BACKUP_S3_SECRET_KEY'' '''',
      backup_s3_prefix = env_get env ''BACKUP_S3_PREFIX'' ''yg-license-server'',
      backup_retention_count = cnt,
      backup_retention_days = days\<rparr>))))))"

definition default_settings :: settings where
  "default_settings = (case get_settings Map.empty of Inr s \<Rightarrow> s | Inl e \<Rightarrow> undefined)"

section \<open>The world outside the repository\<close>

text \<open>
  One outbound HTTP request of the shared client, and what the client may do with it:
  answer, raise an exception of the \<^verbatim>\<open>httpx.HTTPError\<close> family, or raise another one.
  \<^verbatim>\<open>socket.getaddrinfo\<close> answers with addresses, raises \<open>OSError\<close>, or raises another
  exception (a host name its codec rejects is a \<open>UnicodeError\<close>, which is a \<open>ValueError\<close>).
\<close>

record http_request =
  rq_url :: string
  rq_headers :: "(string \<times> string) list"
  rq_body :: string
  rq_sni :: "string option"

datatype http_result = Response int string | HttpError string | HttpRaise exc

datatype dns_result = Addrs "string list" | DnsOSError | DnsRaise exc

text \<open>
  Random sources are streams: the \<open>n\<close>-th call returns the \<open>n\<close>-th element. Name resolution
  and the network take the number of earlier calls, so that answers may change over time.
\<close>

record env =
  cfg :: settings
  uuid4 :: "nat \<Rightarrow> string"
  token_urlsafe :: "nat \<Rightarrow> string"
  token_hex :: "nat \<Rightarrow> string"
  random_base32 :: "nat \<Rightarrow> string"
  ed25519_pair :: "nat \<Rightarrow> string \<times> string"
  blake2b :: "string \<Rightarrow> string \<Rightarrow> string"
  sha256 :: "string \<Rightarrow> string"
  hmac_sha256 :: "string \<Rightarrow> string \<Rightarrow> string"
  fernet_key_ok :: "string \<Rightarrow> bool"
  fernet_encrypt :: "string \<Rightarrow> nat \<Rightarrow> string \<Rightarrow> string"
  fernet_decrypt :: "string \<Rightarrow> string \<Rightarrow> string option"
  jwt_encode :: "json \<Rightarrow> string \<Rightarrow> string res"
  totp_verify :: "string \<Rightarrow> datetime \<Rightarrow> string \<Rightarrow> bool"
  getaddrinfo :: "nat \<Rightarrow> string \<Rightarrow> int \<Rightarrow> dns_result"
  http_post :: "nat \<Rightarrow> http_request \<Rightarrow> http_result"
  cookie_dump :: "string \<Rightarrow> string \<Rightarrow> json \<Rightarrow> string"
  cookie_load :: "string \<Rightarrow> string \<Rightarrow> string \<Rightarrow> json option"
  stripe_event_of :: "datetime \<Rightarrow> string \<Rightarrow> string \<Rightarrow> string \<Rightarrow> json option"
  provisioning_uri :: "string \<Rightarrow> string"
  qr_svg :: "string \<Rightarrow> string"
  backup_key_of :: "string \<Rightarrow> string"
  targz :: "(string \<times> string) list \<Rightarrow> string"
  untargz :: "string \<Rightarrow> ((string \<times> string) list) res"
  s3_put :: "string \<Rightarrow> string \<Rightarrow> string option"
  days_text :: "int \<Rightarrow> string"

text \<open>
  One concrete world, for the examples that show the hypotheses of the theorems can hold:
  the draws are numbered strings, the cipher tags its text with its key, the hashes tag
  theirs, every name resolves to one public address and every request is answered 200.
\<close>

fun hexs :: "string \<Rightarrow> string" where
  "hexs [] = []"
| "hexs (c # s) = hex_digit (code c div 16) # hex_digit (code c mod 16) # hexs s"

fun unhexs :: "string \<Rightarrow> string option" where
  "unhexs [] = Some []"
| "unhexs [a] = None"
| "unhexs (a # b # s) = (case (hex_val a, hex_val b, unhexs s) of
     (Some x, Some y, Some r) \<Rightarrow> Some (char_of (16 * x + y) # r) | _ \<Rightarrow> None)"

lemma unhexs_hexs: "unhexs (hexs s) = Some s"
proof (induction s)
  case (Cons c s)
  have "code c < 16 * 16" by simp
  then have "code c div 16 < 16" and "code c mod 16 < 16"
    by (simp_all add: less_mult_imp_div_less)
  then have "hex_val (hex_digit (code c div 16)) = Some (code c div 16)"
    and "hex_val (hex_digit (code c mod 16)) = Some (code c mod 16)"
    by simp_all
  moreover have "char_of (16 * (code c div 16) + code c mod 16) = c"
    by simp
  ultimately show ?case using Cons by simp
qed simp

lemma hexs_ascii: "list_all is_ascii (hexs s)"
proof (induction s)
  case (Cons c s)
  have d: "is_ascii (hex_digit n)" if "n < 16" for n
    using that by (simp add: hex_digit_def is_ascii_def code_def)
  have "code c < 16 * 16" by simp
  then have "is_ascii (hex_digit (code c div 16))" and "is_ascii (hex_digit (code c mod 16))"
    by (simp_all add: d less_mult_imp_div_less)
  with Cons show ?case by simp
qed simp

definition sample_env :: "settings \<Rightarrow> env" where
  "sample_env c = \<lparr>
     cfg = c,
     uuid4 = (\<lambda>n. ''id'' @ show_nat n),
     token_urlsafe = (\<lambda>n. ''tok'' @ show_nat n),
     token_hex = (\<lambda>n. ''hex'' @ show_nat n),
     random_base32 = (\<lambda>n. ''B32'' @ show_nat n),
     ed25519_pair = (\<lambda>n. (''priv'' @ show_nat n, ''pub'' @ show_nat n)),
     blake2b = (\<lambda>k m. ''b2:'' @ k @ '':'' @ m),
     sha256 = (\<lambda>m. ''sha:'' @ m),
     hmac_sha256 = (\<lambda>k m. ''mac:'' @ k @ '':'' @ m),
     fernet_key_ok = (\<lambda>k. True),
     fernet_encrypt = (\<lambda>k n p. hexs k @ ''.'' @ hexs p),
     fernet_decrypt = (\<lambda>k c. if starts_with (hexs k @ ''.'') c
        then unhexs (drop (Suc (length (hexs k))) c) else None),
     jwt_encode = (\<lambda>p k. Inr (''jwt:'' @ k)),
     totp_verify = (\<lambda>sec t c. c = ''123456''),
     getaddrinfo = (\<lambda>n h p. Addrs [''93.184.216.34'']),
     http_post = (\<lambda>n r. Response 200 ''ok''),
     cookie_dump = (\<lambda>k salt j. hexs k @ ''.'' @ hexs salt @ ''.'' @ dumps_compact j),
     cookie_load = (\<lambda>k salt c. let pre = hexs k @ ''.'' @ hexs salt @ ''.'' in
        if starts_with pre c then (case loads (drop (length pre) c) of Inl e \<Rightarrow> None | Inr j \<Rightarrow> Some j)
        else None),
     stripe_event_of = (\<lambda>t body sig k. if starts_with (''t='') sig
          \<and> (let (stamp, sep, mac) = partition (CHR '','') (drop 2 sig) in
               mac = ''v1=sig:'' @ k \<and> t div 1000000 - 62135596800 - read_int stamp \<le> 300)
        then (case loads body of Inl e \<Rightarrow> None | Inr j \<Rightarrow> Some j) else None),
     provisioning_uri = (\<lambda>sec. ''otpauth://totp/'' @ sec),
     qr_svg = (\<lambda>u. ''<svg/>''),
     backup_key_of = (\<lambda>k. ''bk:'' @ k),
     targz = (\<lambda>fs. [CHR 0x1F, CHR 0x8B] @ dumps_compact (JDict (map (\<lambda>(n, b). (n, JStr b)) fs))),
     untargz = (\<lambda>d. case loads (drop 2 d) of
        Inr (JDict kvs) \<Rightarrow> Inr (map (\<lambda>(n, j). (n, case j of JStr b \<Rightarrow> b | _ \<Rightarrow> [])) kvs) | _ \<Rightarrow> Inl TarError),
     s3_put = (\<lambda>n d. None),
     days_text = (\<lambda>us. show_int (us div 86400000000) @ ''.0'')\<rparr>"

end
