(* ===== verification/Models.thy ===== *)
theory Models
  imports Config
begin

text \<open>
  The ORM tables of \<^verbatim>\<open>app/models.py\<close> as records, the database session of a request as a
  state record, and what \<^verbatim>\<open>Session.add\<close>, \<^verbatim>\<open>flush\<close> and \<^verbatim>\<open>commit\<close> do to it. Rows that the code
  flushes before it reads them again are written to their table at once; audit events are
  kept in \<open>new_events\<close> until the flush, because the sessions run with \<open>autoflush=False\<close>: a
  query or a bulk update in between does not see them, and an object has no primary key
  before it. Constraints are checked when the session is flushed. Column lengths and
  foreign keys are not enforced, as on SQLite, the engine of the repository's deployment.
\<close>

type_synonym uid = string

section \<open>Rows\<close>

datatype license_status = Active | Delinquent | Disabled | Revoked

fun status_text :: "license_status \<Rightarrow> string" where
  "status_text Active = ''active''"
| "status_text Delinquent = ''delinquent''"
| "status_text Disabled = ''disabled''"
| "status_text Revoked = ''revoked''"

datatype url_source = Admin | Self

datatype delivery_status = Pending | Delivered | Abandoned

text \<open>The display form of a key contains one character outside ASCII, the ellipsis U+2026.\<close>

datatype glyph = Ch char | Ellipsis

record product =
  p_id :: uid
  p_slug :: string
  p_name :: string
  p_description :: "string option"
  p_public_key_pem :: string
  p_private_key_pem :: string
  p_key_prefix :: string
  p_stripe_webhook_secret :: "string option"
  p_stripe_api_key :: "string option"
  p_jwt_issuer :: string
  p_created_at :: datetime

record customer =
  c_id :: uid
  c_stripe_customer_id :: "string option"
  c_email :: string
  c_name :: "string option"
  c_created_at :: datetime

record license =
  l_id :: uid
  l_product_id :: uid
  l_customer_id :: uid
  l_key :: string
  l_plan :: string
  l_max_users :: int
  l_features :: json
  l_valid_until :: datetime
  l_status :: license_status
  l_created_at :: datetime
  l_webhook_url :: "string option"
  l_webhook_secret :: "string option"
  l_webhook_url_source :: url_source
  l_allow_http_webhook :: bool
  l_key_hash :: string
  l_key_display :: "glyph list"

record preset =
  f_id :: uid
  f_product_id :: "uid option"
  f_key :: string
  f_value_type :: string
  f_default_value :: json
  f_created_at :: datetime

record install =
  i_id :: uid
  i_license_id :: uid
  i_install_id :: string
  i_version :: string
  i_last_seen_at :: datetime
  i_ip_addr_hash :: "string option"

text \<open>An audit event as the code constructs it, and with the columns the insert adds.\<close>

record new_event =
  e_license_id :: "uid option"
  e_product_id :: "uid option"
  e_type :: string
  e_payload :: json
  e_note :: "string option"

record event = new_event +
  e_id :: uid
  e_created_at :: datetime
  e_subject_kind :: "string option"
  e_subject_id :: "string option"

record delivery =
  d_id :: uid
  d_license_id :: "uid option"
  d_product_id :: "uid option"
  d_url :: string
  d_secret :: string
  d_event_type :: string
  d_payload_json :: string
  d_attempts :: nat
  d_status :: delivery_status
  d_next_attempt_at :: datetime
  d_last_attempt_at :: "datetime option"
  d_delivered_at :: "datetime option"
  d_last_error :: "string option"
  d_response_status :: "int option"
  d_response_excerpt :: "string option"
  d_created_at :: datetime

record stripe_event =
  se_id :: string
  se_product_id :: "uid option"
  se_type :: string
  se_processed_at :: datetime

record admin_mfa =
  m_enabled :: bool
  m_secret_encrypted :: "string option"
  m_recovery_codes_hashed :: "string option"
  m_created_at :: datetime
  m_last_used_at :: "datetime option"

section \<open>The session\<close>

record tables =
  products :: "product list"
  customers :: "customer list"
  licenses :: "license list"
  presets :: "preset list"
  installs :: "install list"
  events :: "event list"
  deliveries :: "delivery list"
  stripe_events :: "stripe_event list"
  mfa_row :: "admin_mfa option"

text \<open>
  Besides the tables: the events added and not yet flushed, the instant of the request
  (each request reads the clock as one instant), how many draws were made from the random
  sources, the log of outbound HTTP requests, which no rollback undoes, and the background
  tasks of the request (deliveries to attempt once the response is sent).
\<close>

record session = tables +
  new_events :: "new_event list"
  now :: datetime
  n_uuid :: nat
  n_rand :: nat
  n_dns :: nat
  outbox :: "http_request list"
  tasks :: "uid list"

text \<open>\<open>_uuid()\<close> and the other random sources: the next element of the stream.\<close>

definition fresh_id :: "env \<Rightarrow> ('a session_scheme) \<Rightarrow> uid \<times> 'a session_scheme" where
  "fresh_id E s = (uuid4 E (n_uuid s), s\<lparr>n_uuid := Suc (n_uuid s)\<rparr>)"

definition draw :: "(nat \<Rightarrow> 'r) \<Rightarrow> session \<Rightarrow> 'r \<times> session" where
  "draw src s = (src (n_rand s), s\<lparr>n_rand := Suc (n_rand s)\<rparr>)"

text \<open>
  A request that fails leaves the database as it was when its transaction began; what it
  sent and drew stays sent and drawn.
\<close>

definition rollback :: "session \<Rightarrow> session \<Rightarrow> session" where
  "rollback s0 s = s0\<lparr>new_events := [], n_uuid := n_uuid s, n_rand := n_rand s, n_dns := n_dns s,
     outbox := outbox s, tasks := tasks s\<rparr>"

section \<open>Events\<close>

fun payload_str :: "json \<Rightarrow> string" where
  "payload_str (JStr s) = s"
| "payload_str (JInt n) = show_int n"
| "payload_str j = dumps_default j"

text \<open>\<open>_event_autofill_subject\<close>, run before an event is inserted.\<close>

definition autofill_subject :: "'a new_event_scheme \<Rightarrow> string option \<times> string option" where
  "autofill_subject ev =
    (if truthy (e_license_id ev) then (Some ''license'', e_license_id ev)
     else if truthy (e_product_id ev) then (Some ''product'', e_product_id ev)
     else if jtruthy (e_payload ev) then
       (case jget (e_payload ev) ''license_id'' of
          Some pid \<Rightarrow> if jtruthy pid then (Some ''license'', Some (payload_str pid))
            else (case jget (e_payload ev) ''product_id'' of
               Some q \<Rightarrow> if jtruthy q then (Some ''product'', Some (payload_str q)) else (None, None)
             | None \<Rightarrow> (None, None))
        | None \<Rightarrow> (case jget (e_payload ev) ''product_id'' of
               Some q \<Rightarrow> if jtruthy q then (Some ''product'', Some (payload_str q)) else (None, None)
             | None \<Rightarrow> (None, None)))
     else (None, None))"

definition event_row :: "datetime \<Rightarrow> uid \<Rightarrow> new_event \<Rightarrow> event" where
  "event_row t i ev = new_event.extend ev
     (event.fields i t (fst (autofill_subject ev)) (snd (autofill_subject ev)))"

definition insert_event :: "env \<Rightarrow> session \<Rightarrow> new_event \<Rightarrow> session" where
  "insert_event E s ev = (let (i, s1) = fresh_id E s in
     s1\<lparr>events := events s1 @ [event_row (now s) i ev]\<rparr>)"

definition add_event :: "new_event \<Rightarrow> session \<Rightarrow> session" where
  "add_event ev s = s\<lparr>new_events := new_events s @ [ev]\<rparr>"

definition audit :: "uid option \<Rightarrow> uid option \<Rightarrow> string \<Rightarrow> json \<Rightarrow> string option \<Rightarrow> session \<Rightarrow> session" where
  "audit lid pid ty pl nt s =
     add_event \<lparr>e_license_id = lid, e_product_id = pid, e_type = ty, e_payload = pl, e_note = nt\<rparr> s"

section \<open>Constraints, flush and commit\<close>

definition value_types :: "string list" where
  "value_types = [''bool'', ''number'', ''string'', ''json'']"

definition constraints_ok :: "'a tables_scheme \<Rightarrow> bool" where
  "constraints_ok t \<longleftrightarrow>
     distinct (map p_id (products t)) \<and> distinct (map p_slug (products t)) \<and>
     distinct (map c_id (customers t)) \<and> distinct (map c_email (customers t)) \<and>
     distinct (List.map_filter c_stripe_customer_id (customers t)) \<and>
     distinct (map l_id (licenses t)) \<and> distinct (map l_key (licenses t)) \<and>
     distinct (map l_key_hash (licenses t)) \<and>
     distinct (map f_id (presets t)) \<and>
     distinct (map (\<lambda>f. (f_product_id f, f_key f)) (presets t)) \<and>
     list_all (\<lambda>f. f_value_type f \<in> set value_types) (presets t) \<and>
     distinct (map i_id (installs t)) \<and> distinct (map e_id (events t)) \<and>
     distinct (map d_id (deliveries t)) \<and> distinct (map se_id (stripe_events t))"

definition flush_events :: "env \<Rightarrow> session \<Rightarrow> session" where
  "flush_events E s = foldl (insert_event E) (s\<lparr>new_events := []\<rparr>) (new_events s)"

definition flush :: "env \<Rightarrow> session \<Rightarrow> session res" where
  "flush E s = (let s' = flush_events E s
     in if constraints_ok s' then Inr s' else Inl IntegrityError)"

definition commit :: "env \<Rightarrow> session \<Rightarrow> session res" where
  "commit E s = flush E s"

text \<open>A handler run as one request: an escaping exception rolls its transaction back.\<close>

definition run_handler :: "(session \<Rightarrow> ('a \<times> session) res) \<Rightarrow> session \<Rightarrow> 'a res \<times> session" where
  "run_handler h s = (case h s of Inl e \<Rightarrow> (Inl e, s\<lparr>new_events := []\<rparr>) | Inr (x, s') \<Rightarrow> (Inr x, s'))"

section \<open>What a flush does\<close>

text \<open>
  A flush writes the pending events, in order, with the next identifiers, and nothing else.
\<close>

lemma foldl_insert_event:
  "foldl (insert_event E) s evs = s\<lparr>n_uuid := n_uuid s + length evs,
     events := events s @ map (\<lambda>(i, ev). event_row (now s) (uuid4 E i) ev) (enumerate (n_uuid s) evs)\<rparr>"
  by (induction evs arbitrary: s) (simp_all add: insert_event_def fresh_id_def)

lemma flush_events_eq:
  "flush_events E s = s\<lparr>new_events := [], n_uuid := n_uuid s + length (new_events s),
     events := events s @ map (\<lambda>(i, ev). event_row (now s) (uuid4 E i) ev)
       (enumerate (n_uuid s) (new_events s))\<rparr>"
  by (simp add: flush_events_def foldl_insert_event)

lemma flush_Inr: "flush E s = Inr s' \<longleftrightarrow> s' = flush_events E s \<and> constraints_ok s'"
  by (auto simp: flush_def Let_def)

lemma commit_Inr: "commit E s = Inr s' \<longleftrightarrow> s' = flush_events E s \<and> constraints_ok s'"
  by (simp add: commit_def flush_Inr)

lemma flush_events_fields [table_simps]:
  "products (flush_events E s) = products s" "customers (flush_events E s) = customers s"
  "licenses (flush_events E s) = licenses s" "presets (flush_events E s) = presets s"
  "installs (flush_events E s) = installs s" "deliveries (flush_events E s) = deliveries s"
  "stripe_events (flush_events E s) = stripe_events s" "mfa_row (flush_events E s) = mfa_row s"
  "new_events (flush_events E s) = []" "now (flush_events E s) = now s"
  "n_rand (flush_events E s) = n_rand s" "n_dns (flush_events E s) = n_dns s"
  "outbox (flush_events E s) = outbox s" "tasks (flush_events E s) = tasks s"
  by (simp_all add: flush_events_eq)

text \<open>The columns of the events a flush adds, without the generated ones.\<close>

definition event_core :: "'a new_event_scheme \<Rightarrow> new_event" where
  "event_core ev = new_event.truncate ev"

lemma event_core_row [simp]: "event_core (event_row t i ev) = ev"
  by (simp add: event_core_def event_row_def new_event.defs)

lemma flush_events_log:
  "map event_core (events (flush_events E s)) = map event_core (events s) @ new_events s"
  by (simp add: flush_events_eq o_def case_prod_beta)

lemma flush_events_none: "new_events s = [] \<Longrightarrow> flush_events E s = s"
  by (simp add: flush_events_eq)

lemma audit_fields [table_simps]:
  "products (audit l p ty pl nt s) = products s" "customers (audit l p ty pl nt s) = customers s"
  "licenses (audit l p ty pl nt s) = licenses s" "presets (audit l p ty pl nt s) = presets s"
  "installs (audit l p ty pl nt s) = installs s" "deliveries (audit l p ty pl nt s) = deliveries s"
  "stripe_events (audit l p ty pl nt s) = stripe_events s" "mfa_row (audit l p ty pl nt s) = mfa_row s"
  "events (audit l p ty pl nt s) = events s" "now (audit l p ty pl nt s) = now s"
  "n_uuid (audit l p ty pl nt s) = n_uuid s" "n_rand (audit l p ty pl nt s) = n_rand s"
  "n_dns (audit l p ty pl nt s) = n_dns s" "outbox (audit l p ty pl nt s) = outbox s"
  "tasks (audit l p ty pl nt s) = tasks s"
  "new_events (audit l p ty pl nt s) = new_events s @
     [\<lparr>e_license_id = l, e_product_id = p, e_type = ty, e_payload = pl, e_note = nt\<rparr>]"
  by (simp_all add: audit_def add_event_def)

section \<open>Rows by primary key\<close>

definition put_license :: "license \<Rightarrow> session \<Rightarrow> session" where
  "put_license lic s = s\<lparr>licenses := update_where (\<lambda>x. l_id x = l_id lic) (\<lambda>_. lic) (licenses s)\<rparr>"

definition put_customer :: "customer \<Rightarrow> session \<Rightarrow> session" where
  "put_customer c s = s\<lparr>customers := update_where (\<lambda>x. c_id x = c_id c) (\<lambda>_. c) (customers s)\<rparr>"

definition put_product :: "product \<Rightarrow> session \<Rightarrow> session" where
  "put_product p s = s\<lparr>products := update_where (\<lambda>x. p_id x = p_id p) (\<lambda>_. p) (products s)\<rparr>"

definition put_delivery :: "delivery \<Rightarrow> session \<Rightarrow> session" where
  "put_delivery d s = s\<lparr>deliveries := update_where (\<lambda>x. d_id x = d_id d) (\<lambda>_. d) (deliveries s)\<rparr>"

definition put_preset :: "preset \<Rightarrow> session \<Rightarrow> session" where
  "put_preset f s = s\<lparr>presets := update_where (\<lambda>x. f_id x = f_id f) (\<lambda>_. f) (presets s)\<rparr>"

definition put_install :: "install \<Rightarrow> session \<Rightarrow> session" where
  "put_install i s = s\<lparr>installs := update_where (\<lambda>x. i_id x = i_id i) (\<lambda>_. i) (installs s)\<rparr>"

text \<open>The relationships \<open>lic.product\<close> and \<open>lic.customer\<close>.\<close>

definition product_of :: "'a tables_scheme \<Rightarrow> license \<Rightarrow> product option" where
  "product_of t lic = find (\<lambda>p. p_id p = l_product_id lic) (products t)"

definition customer_of :: "'a tables_scheme \<Rightarrow> license \<Rightarrow> customer option" where
  "customer_of t lic = find (\<lambda>c. c_id c = l_customer_id lic) (customers t)"

text \<open>An attribute of a missing object raises \<open>AttributeError\<close>.\<close>

definition attr :: "'a option \<Rightarrow> 'a res" where
  "attr x = (case x of None \<Rightarrow> Inl (AttributeError ''NoneType'') | Some y \<Rightarrow> Inr y)"

section \<open>Sample data\<close>

text \<open>A product and an empty database, for the examples that instantiate the theorems.\<close>

definition sample_product :: product where
  "sample_product = \<lparr>p_id = ''p1'', p_slug = ''demo'', p_name = ''Demo'', p_description = None,
     p_public_key_pem = ''pub'', p_private_key_pem = ''priv'', p_key_prefix = ''demo'',
     p_stripe_webhook_secret = Some ''whsec'', p_stripe_api_key = None,
     p_jwt_issuer = ''yg'', p_created_at = 0\<rparr>"

definition empty_session :: session where
  "empty_session = \<lparr>products = [], customers = [], licenses = [], presets = [], installs = [],
     events = [], deliveries = [], stripe_events = [], mfa_row = None, new_events = [],
     now = 63838368000000000, n_uuid = 0, n_rand = 0, n_dns = 0, outbox = [], tasks = []\<rparr>"

end
