(* ===== verification/Pagination.thy ===== *)
theory Pagination
  imports Datetime Models
begin

text \<open>
  Keyset pagination (\<^verbatim>\<open>app/pagination.py\<close>): the opaque cursor, with the URL-safe base64 of
  the standard library (its decoder skips foreign characters and stops at the padding), the
  limit of a page, and the page itself. Following the cursors from the first page lists
  every row exactly once, in order.
\<close>

section \<open>Base64\<close>

definition b64_alphabet :: string where
  "b64_alphabet = ''ABCDEFGHIJKLMNOPQRSTUVWXYZabcdefghijklmnopqrstuvwxyz0123456789-_''"

definition b64_char :: "nat \<Rightarrow> char" where
  "b64_char n = b64_alphabet ! n"

definition b64_val :: "char \<Rightarrow> nat option" where
  "b64_val c = (if is_upper c then Some (code c - 65)
     else if is_lower c then Some (code c - 71)
     else if is_digit c then Some (code c + 4)
     else if c = CHR ''-'' \<or> c = CHR ''+'' then Some 62
     else if c = CHR ''_'' \<or> c = CHR ''/'' then Some 63 else None)"

abbreviation pad_char :: char where "pad_char \<equiv> CHR ''=''"

fun b64_encode :: "string \<Rightarrow> string" where
  "b64_encode [] = []"
| "b64_encode [a] = [b64_char (code a div 4), b64_char (code a mod 4 * 16), pad_char, pad_char]"
| "b64_encode [a, b] = [b64_char (code a div 4), b64_char (code a mod 4 * 16 + code b div 16),
     b64_char (code b mod 16 * 4), pad_char]"
| "b64_encode (a # b # c # r) = [b64_char (code a div 4), b64_char (code a mod 4 * 16 + code b div 16),
     b64_char (code b mod 16 * 4 + code c div 64), b64_char (code c mod 64)] @ b64_encode r"

text \<open>
  \<^verbatim>\<open>binascii.a2b_base64\<close> outside strict mode: the position in the group of four, the bits
  left over, the padding seen, the text.
\<close>

fun b64_decode :: "nat \<Rightarrow> nat \<Rightarrow> nat \<Rightarrow> string \<Rightarrow> string option" where
  "b64_decode q left pads [] = (if q = 0 then Some [] else None)"
| "b64_decode q left pads (c # r) =
    (if c = pad_char then
       (if 2 \<le> q then (if 4 \<le> q + Suc pads then Some [] else b64_decode q left (Suc pads) r)
        else b64_decode q left pads r)
     else (case b64_val c of
         None \<Rightarrow> b64_decode q left pads r
       | Some v \<Rightarrow>
           if q = 0 then b64_decode 1 v 0 r
           else if q = 1 then map_option ((#) (char_of (left * 4 + v div 16))) (b64_decode 2 (v mod 16) 0 r)
           else if q = 2 then map_option ((#) (char_of (left * 16 + v div 4))) (b64_decode 3 (v mod 4) 0 r)
           else map_option ((#) (char_of (left * 64 + v))) (b64_decode 0 0 0 r)))"

lemma b64_val_char [simp]: "n < 64 \<Longrightarrow> b64_val (b64_char n) = Some n"
proof -
  have "list_all (\<lambda>n. b64_val (b64_char n) = Some n) [0..<64]" by code_simp
  then show "n < 64 \<Longrightarrow> b64_val (b64_char n) = Some n" by (simp add: list_all_iff)
qed

lemma b64_char_not_pad [simp]: "n < 64 \<Longrightarrow> b64_char n \<noteq> pad_char"
  using b64_val_char[of n] by (auto simp: b64_val_def is_upper_def is_lower_def is_digit_def code_def)

lemma code_div4: "code a div 4 < 64" using code_less[of a] by linarith

lemma b64_groups [simp]:
  "code a div 4 < 64" "code a mod 4 * 16 < 64" "code a mod 4 * 16 + code b div 16 < 64"
  "code b mod 16 * 4 < 64" "code b mod 16 * 4 + code c div 64 < 64" "code c mod 64 < 64"
proof -
  have "code a div 4 < 64" "code b div 16 < 16" "code c div 64 < 4"
    using code_less[of a] code_less[of b] code_less[of c] by linarith+
  moreover have "code a mod 4 \<le> 3" "code b mod 16 \<le> 15" by (simp_all add: less_Suc_eq_le[symmetric])
  ultimately show "code a div 4 < 64" "code a mod 4 * 16 < 64" "code a mod 4 * 16 + code b div 16 < 64"
    "code b mod 16 * 4 < 64" "code b mod 16 * 4 + code c div 64 < 64" "code c mod 64 < 64" by linarith+
qed

lemma byte_split:
  "code a div 4 * 4 + (code a mod 4 * 16 + x) div 16 = code a" if "x < 16"
proof -
  have "(code a mod 4 * 16 + x) div 16 = code a mod 4" using that by simp
  then show ?thesis by simp
qed

lemma nibble_split:
  "code b div 16 * 16 + (code b mod 16 * 4 + x) div 4 = code b" if "x < 4"
proof -
  have "(code b mod 16 * 4 + x) div 4 = code b mod 16" using that by simp
  then show ?thesis by simp
qed

lemma small_div: "code b div 16 < 16" "code c div 64 < 4"
  using code_less[of b] code_less[of c] by linarith+

lemma mod_drop: "x < (16::nat) \<Longrightarrow> (m * 16 + x) mod 16 = x" "y < (4::nat) \<Longrightarrow> (m * 4 + y) mod 4 = y"
  by simp_all

lemma b64_roundtrip: "b64_decode 0 0 0 (b64_encode s) = Some s"
proof (induction s rule: b64_encode.induct)
  case 1
  show ?case by simp
next
  case (2 a)
  then show ?case by simp
next
  case (3 a b)
  then show ?case by (simp add: byte_split small_div mod_drop)
next
  case (4 a b c r)
  then show ?case by (simp add: byte_split nibble_split small_div mod_drop)
qed

section \<open>Limits and cursors\<close>

definition DEFAULT_LIMIT :: int where "DEFAULT_LIMIT = 100"
definition MAX_LIMIT :: int where "MAX_LIMIT = 500"

datatype raw_limit = NoLimit | IntLimit int | StrLimit string

definition clamp_limit :: "raw_limit \<Rightarrow> int" where
  "clamp_limit raw = (case (case raw of NoLimit \<Rightarrow> None | IntLimit n \<Rightarrow> Some n
        | StrLimit s \<Rightarrow> (case py_int s of Inl e \<Rightarrow> None | Inr n \<Rightarrow> Some n)) of
      None \<Rightarrow> DEFAULT_LIMIT
    | Some n \<Rightarrow> if n < 1 then DEFAULT_LIMIT else min n MAX_LIMIT)"

definition encode_cursor :: "datetime \<Rightarrow> uid \<Rightarrow> string" where
  "encode_cursor created_at row_id = rstrip_char pad_char (b64_encode (isoformat created_at @ ''|'' @ row_id))"

text \<open>The text model is ASCII: a token that decodes to bytes above 127 is treated as malformed.\<close>

definition decode_cursor :: "string option \<Rightarrow> (datetime \<times> uid) option" where
  "decode_cursor token = (case token of None \<Rightarrow> None
    | Some tok \<Rightarrow> if tok = [] then None
        else (case b64_decode 0 0 0 (tok @ replicate (nat ((- int (length tok)) mod 4)) pad_char) of
            None \<Rightarrow> None
          | Some raw \<Rightarrow> if \<not> list_all is_ascii raw then None
              else (let (ts, _, row_id) = partition (CHR ''|'') raw
                in if ts = [] \<or> row_id = [] then None
                   else map_option (\<lambda>(t, aware). (t, row_id)) (fromisoformat ts))))"

section \<open>Pages\<close>

text \<open>
  The rows come in the order of the query; a row whose columns cannot be read as the key
  raises. The page after a cursor keeps the rows strictly before it and reads one row more
  than it returns.
\<close>

definition paginate ::
  "('r \<Rightarrow> datetime \<times> uid) \<Rightarrow> ('r \<Rightarrow> (datetime \<times> uid) res) \<Rightarrow> string option \<Rightarrow> nat \<Rightarrow> 'r list
    \<Rightarrow> ('r list \<times> string option) res" where
  "paginate cols key_fn cursor lim query =
    (let query' = (case decode_cursor cursor of None \<Rightarrow> query
          | Some (ts, rid) \<Rightarrow> filter (\<lambda>r. fst (cols r) < ts \<or> (fst (cols r) = ts \<and> snd (cols r) < rid)) query);
         rows = take (lim + 1) query'
     in if length rows > lim then
          rbind (key_fn (rows ! (lim - 1))) (\<lambda>(ts, rid). Inr (take lim rows, Some (encode_cursor ts rid)))
        else Inr (rows, None))"

text \<open>A client that follows the cursors, for at most \<open>fuel\<close> pages.\<close>

fun walk ::
  "('r \<Rightarrow> datetime \<times> uid) \<Rightarrow> nat \<Rightarrow> 'r list \<Rightarrow> nat \<Rightarrow> string option \<Rightarrow> ('r list list) option" where
  "walk cols lim query 0 cursor = None"
| "walk cols lim query (Suc fuel) cursor =
     (case paginate cols (\<lambda>r. Inr (cols r)) cursor lim query of
        Inl e \<Rightarrow> None
      | Inr (items, next) \<Rightarrow> (case next of
          None \<Rightarrow> Some [items]
        | Some c \<Rightarrow> map_option ((#) items) (walk cols lim query fuel (Some c))))"

text \<open>Whatever the request asks for, a page has between 1 and 500 rows.\<close>

theorem clamp_limit_bounds: "1 \<le> clamp_limit raw \<and> clamp_limit raw \<le> 500"
  by (auto simp: clamp_limit_def DEFAULT_LIMIT_def MAX_LIMIT_def split: raw_limit.splits sum.splits)

section \<open>Cursors round-trip\<close>

lemma b64_length: "length (b64_encode s) mod 4 = 0"
  by (induction s rule: b64_encode.induct) simp_all

lemma b64_tail: "\<exists>b n. b64_encode s = b @ replicate n pad_char \<and> n < 3 \<and> (b = [] \<or> last b \<noteq> pad_char)"
proof (induction s rule: b64_encode.induct)
  case 1
  show ?case by (intro exI[of _ "[]"] exI[of _ 0]) simp
next
  case (2 a)
  show ?case by (rule exI[of _ "[b64_char (code a div 4), b64_char (code a mod 4 * 16)]"], rule exI[of _ 2])
    (simp add: numeral_2_eq_2)
next
  case (3 a b)
  show ?case by (rule exI[of _ "[b64_char (code a div 4), b64_char (code a mod 4 * 16 + code b div 16),
     b64_char (code b mod 16 * 4)]"], rule exI[of _ 1]) simp
next
  case (4 a b c r)
  then obtain t n where t: "b64_encode r = t @ replicate n pad_char" "n < 3" "t = [] \<or> last t \<noteq> pad_char" by blast
  show ?case by (rule exI[of _ "[b64_char (code a div 4), b64_char (code a mod 4 * 16 + code b div 16),
     b64_char (code b mod 16 * 4 + code c div 64), b64_char (code c mod 64)] @ t"], rule exI[of _ n])
    (use t in auto)
qed

lemma rstrip_repad:
  "rstrip_char pad_char (b64_encode s) @
     replicate (nat ((- int (length (rstrip_char pad_char (b64_encode s)))) mod 4)) pad_char = b64_encode s"
proof -
  obtain b n where b: "b64_encode s = b @ replicate n pad_char" "n < 3" "b = [] \<or> last b \<noteq> pad_char"
    using b64_tail by blast
  have r: "rstrip_char pad_char (b64_encode s) = b"
  proof (cases "b = []")
    case True
    with b have "length (replicate n pad_char) mod 4 = 0" using b64_length[of s] by simp
    with b(2) have "n = 0" by simp
    with b True show ?thesis by (simp add: rstrip_char_def)
  next
    case False
    then obtain b0 x where x: "b = b0 @ [x]" by (meson rev_exhaust)
    with b have "x \<noteq> pad_char" by simp
    with rstrip_char_snoc[OF this, of b0 n] show ?thesis by (simp add: b x)
  qed
  have "(length b + n) mod 4 = 0" using b64_length[of s] by (simp add: b)
  then have "(int (length b) + int n) mod 4 = 0" by (metis of_nat_add of_nat_mod of_nat_numeral of_nat_0)
  then have "(- int (length b)) mod 4 = int n" using b(2) by presburger
  then show ?thesis unfolding r by (simp add: b)
qed

definition cursor_key :: "datetime \<times> uid \<Rightarrow> bool" where
  "cursor_key k \<longleftrightarrow> 0 \<le> fst k \<and> fst k \<le> datetime_max \<and> snd k \<noteq> [] \<and> list_all is_ascii (snd k)"

lemma digit_ascii: "list_all is_digit s \<Longrightarrow> list_all is_ascii s \<and> CHR ''|'' \<notin> set s"
  by (auto simp: list_all_iff is_digit_def is_ascii_def code_def)

lemma isoformat_chars: "list_all is_ascii (isoformat t) \<and> CHR ''|'' \<notin> set (isoformat t)"
proof -
  have p: "list_all is_ascii (pad w n)" "CHR ''|'' \<notin> set (pad w n)" for w n
    using digit_ascii[OF pad_digits[of w n]] by simp_all
  obtain y m d where c: "civil (t div day_us) = (y, m, d)" by (cases "civil (t div day_us)")
  have l: "is_ascii (CHR ''-'')" "is_ascii (CHR ''T'')" "is_ascii (CHR '':'')" "is_ascii (CHR ''.'')"
    by (simp_all add: is_ascii_def code_def)
  show ?thesis by (simp add: isoformat_def date_iso_def time_iso_def c p l Let_def del: pad.simps)
qed

lemma isoformat_nonempty: "isoformat t \<noteq> []"
  by (simp add: isoformat_def)

lemma cursor_roundtrip_lemma:
  assumes "0 \<le> t" and "t \<le> datetime_max" and "i \<noteq> []" and "list_all is_ascii i"
  shows "decode_cursor (Some (encode_cursor t i)) = Some (t, i)"
proof -
  let ?raw = "isoformat t @ ''|'' @ i"
  let ?tok = "rstrip_char pad_char (b64_encode ?raw)"
  have ne: "?tok \<noteq> []"
  proof
    assume "?tok = []"
    then have "b64_encode ?raw = []" using rstrip_repad[of ?raw] by simp
    then have "Some ?raw = Some []" using b64_roundtrip[of ?raw] by simp
    then show False by simp
  qed
  have p: "partition (CHR ''|'') ?raw = (isoformat t, True, i)"
    using isoformat_chars partition_append[of "CHR ''|''" "isoformat t" i] by simp
  have "list_all is_ascii ?raw" using isoformat_chars[of t] assms(4) by (simp add: is_ascii_def code_def)
  then show ?thesis
    using ne p assms isoformat_nonempty[of t]
    by (simp add: decode_cursor_def encode_cursor_def rstrip_repad b64_roundtrip isoformat_roundtrip)
qed

text \<open>
  A cursor made from the creation time and identifier of a row decodes to that time and
  identifier.
\<close>

theorem cursor_roundtrip:
  assumes "0 \<le> t" and "t \<le> datetime_max" and "i \<noteq> []" and "list_all is_ascii i"
  shows "decode_cursor (Some (encode_cursor t i)) = Some (t, i)"
  by (rule cursor_roundtrip_lemma[OF assms])

theorem cursor_roundtrip_witness:
  "decode_cursor (Some (encode_cursor 63838368000000001 ''0a-4f'')) = Some (63838368000000001, ''0a-4f'')"
  by (rule cursor_roundtrip) (simp_all add: datetime_max_def us_defs is_ascii_def code_def)

section \<open>Following the cursors\<close>

definition before_key :: "('r \<Rightarrow> datetime \<times> uid) \<Rightarrow> datetime \<times> uid \<Rightarrow> 'r \<Rightarrow> bool" where
  "before_key cols k r \<longleftrightarrow> cols r < k"

definition after_cursor :: "('r \<Rightarrow> datetime \<times> uid) \<Rightarrow> string option \<Rightarrow> 'r list \<Rightarrow> 'r list" where
  "after_cursor cols cursor query = (case decode_cursor cursor of None \<Rightarrow> query
     | Some k \<Rightarrow> filter (before_key cols k) query)"

lemma paginate_after: "paginate cols kf cursor lim query =
    (let rows = take (lim + 1) (after_cursor cols cursor query)
     in if length rows > lim then
          rbind (kf (rows ! (lim - 1))) (\<lambda>(ts, rid). Inr (take lim rows, Some (encode_cursor ts rid)))
        else Inr (rows, None))"
proof -
  have "(\<lambda>r. fst (cols r) < ts \<or> (fst (cols r) = ts \<and> snd (cols r) < rid)) = before_key cols (ts, rid)" for ts rid
    by (auto simp: before_key_def less_prod_def fun_eq_iff prod.case_eq_if)
  then show ?thesis
    by (auto simp: paginate_def after_cursor_def Let_def split: option.splits prod.splits)
qed

lemma filter_before_nth:
  assumes "sorted_wrt (\<lambda>x y. cols y < cols x) rows" and "j < length rows"
  shows "filter (before_key cols (cols (rows ! j))) rows = drop (Suc j) rows"
proof -
  have lt: "cols (rows ! b) < cols (rows ! a)" if "a < b" "b < length rows" for a b
    using sorted_wrt_nth_less[OF assms(1) that] .
  have "\<not> before_key cols (cols (rows ! j)) x" if "x \<in> set (take (Suc j) rows)" for x
  proof -
    from that obtain i where i: "i < Suc j" "i < length rows" "x = rows ! i"
      by (auto simp: in_set_conv_nth)
    show ?thesis
    proof (cases "i = j")
      case False
      with i lt[of i j] assms(2) show ?thesis by (auto simp: before_key_def)
    qed (simp add: i before_key_def)
  qed
  moreover have "before_key cols (cols (rows ! j)) x" if "x \<in> set (drop (Suc j) rows)" for x
  proof -
    from that obtain i where i: "x = rows ! (Suc j + i)" "Suc j + i < length rows"
      by (auto simp: in_set_conv_nth)
    with lt[of j "Suc j + i"] show ?thesis by (simp add: before_key_def)
  qed
  moreover have "filter P rows = filter P (take (Suc j) rows) @ filter P (drop (Suc j) rows)" for P
    by (metis append_take_drop_id filter_append)
  ultimately show ?thesis by (simp add: filter_False filter_True)
qed

lemma after_encoded:
  assumes "sorted_wrt (\<lambda>x y. cols y < cols x) rows" and "j < length rows" and "cursor_key (cols (rows ! j))"
  shows "after_cursor cols (Some (encode_cursor (fst (cols (rows ! j))) (snd (cols (rows ! j))))) rows
     = drop (Suc j) rows"
proof -
  have "decode_cursor (Some (encode_cursor (fst (cols (rows ! j))) (snd (cols (rows ! j))))) = Some (cols (rows ! j))"
    using assms(3) cursor_roundtrip_lemma by (simp add: cursor_key_def)
  then show ?thesis using filter_before_nth[OF assms(1,2)] by (simp add: after_cursor_def)
qed

lemma walk_from:
  assumes s: "sorted_wrt (\<lambda>x y. cols y < cols x) rows" and k: "\<forall>r \<in> set rows. cursor_key (cols r)"
    and l: "0 < lim" and "after_cursor cols c rows = drop n rows" and "length rows - n < fuel"
  shows "\<exists>pages. walk cols lim rows fuel c = Some pages \<and> concat pages = drop n rows
     \<and> (\<forall>p \<in> set pages. length p \<le> lim)"
  using assms(4,5)
proof (induction fuel arbitrary: n c)
  case (Suc fuel)
  show ?case
  proof (cases "length (drop n rows) \<le> lim")
    case True
    with Suc.prems show ?thesis by (simp add: paginate_after)
  next
    case False
    define j where "j = n + lim - 1"
    have j: "j < length rows" "Suc j = n + lim" using False l by (simp_all add: j_def)
    have nth: "take (lim + 1) (drop n rows) ! (lim - 1) = rows ! j"
      using False l by (simp add: j_def nth_take)
    have p: "paginate cols (\<lambda>r. Inr (cols r)) c lim rows
        = Inr (take lim (drop n rows), Some (encode_cursor (fst (cols (rows ! j))) (snd (cols (rows ! j)))))"
      using False nth Suc.prems(1) by (simp add: paginate_after Let_def split: prod.split)
    have "after_cursor cols (Some (encode_cursor (fst (cols (rows ! j))) (snd (cols (rows ! j))))) rows
        = drop (n + lim) rows"
      using after_encoded[OF s j(1)] k j by simp
    moreover have "length rows - (n + lim) < fuel" using Suc.prems(2) l False by simp
    ultimately obtain pages where "walk cols lim rows fuel
        (Some (encode_cursor (fst (cols (rows ! j))) (snd (cols (rows ! j))))) = Some pages"
      "concat pages = drop (n + lim) rows" "\<forall>p \<in> set pages. length p \<le> lim"
      using Suc.IH by blast
    moreover have "take lim (drop n rows) @ drop (n + lim) rows = drop n rows"
      by (metis add.commute append_take_drop_id drop_drop)
    ultimately show ?thesis using p by (auto simp: min_def)
  qed
qed simp

text \<open>
  C31: following the cursors from the first page of any positive size, over rows in
  descending order of (creation time, identifier), ends, and the pages put together are all
  the rows, each exactly once and in order.
\<close>

theorem pagination_complete:
  assumes "sorted_wrt (\<lambda>x y. cols y < cols x) rows" and "\<forall>r \<in> set rows. cursor_key (cols r)" and "0 < lim"
  shows "\<exists>pages. walk cols lim rows (Suc (length rows)) None = Some pages \<and> concat pages = rows
     \<and> (\<forall>p \<in> set pages. length p \<le> lim)"
  using walk_from[OF assms, of None 0 "Suc (length rows)"] by (simp add: after_cursor_def decode_cursor_def)

theorem pagination_complete_witness:
  "\<exists>pages. walk id 2 [(63838368000000003, ''c''), (63838368000000002, ''b''), (63838368000000002, ''a''),
      (63838368000000001, ''z'')] 5 None = Some pages
    \<and> concat pages = [(63838368000000003, ''c''), (63838368000000002, ''b''), (63838368000000002, ''a''),
      (63838368000000001, ''z'')]"
proof -
  let ?rows = "[(63838368000000003, ''c''), (63838368000000002, ''b''), (63838368000000002, ''a''),
      (63838368000000001, ''z'')] :: (datetime \<times> uid) list"
  have "sorted_wrt (\<lambda>x y. id y < id x) ?rows" by code_simp
  moreover have "\<forall>r \<in> set ?rows. cursor_key (id r)"
    by (simp add: cursor_key_def datetime_max_def us_defs is_ascii_def code_def)
  ultimately have "\<exists>pages. walk id 2 ?rows (Suc (length ?rows)) None = Some pages \<and> concat pages = ?rows
      \<and> (\<forall>p \<in> set pages. length p \<le> 2)" by (intro pagination_complete) simp_all
  moreover have "Suc (length ?rows) = 5" by simp
  ultimately show ?thesis by (elim exE conjE) (intro exI conjI, simp_all only:)
qed

end
