(* ===== verification/IPAddress.thy ===== *)
theory IPAddress
  imports PyStr "HOL-Library.Word"
begin

text \<open>
  Python's \<^verbatim>\<open>ipaddress.ip_address\<close> and the address classes that \<^verbatim>\<open>app/security.py\<close> asks for,
  as in the standard library of Python 3.12: addresses are 32-bit and 128-bit words, a
  network is a base address and a prefix length, membership compares the leading bits. The
  lemmas give the printed and reparsed dotted quad, and the meaning of the private ranges.
\<close>

unbundle bit_operations_syntax

section \<open>Parsing\<close>

datatype ip_addr = V4 "32 word" | V6 "128 word"

fun v4_octet :: "string \<Rightarrow> nat option" where
  "v4_octet s = (if s \<noteq> [] \<and> list_all is_digit s \<and> length s \<le> 3 \<and> (s = ''0'' \<or> hd s \<noteq> CHR ''0'')
      \<and> read_nat s \<le> 255 then Some (read_nat s) else None)"

declare v4_octet.simps [simp del]

definition quad :: "nat \<Rightarrow> nat \<Rightarrow> nat \<Rightarrow> nat \<Rightarrow> 32 word" where
  "quad a b c d = ((of_nat a * 256 + of_nat b) * 256 + of_nat c) * 256 + of_nat d"

definition parse_v4 :: "string \<Rightarrow> (32 word) option" where
  "parse_v4 s = (if CHR ''/'' \<in> set s then None else
     case map v4_octet (split_on (CHR ''.'') s) of
       [Some a, Some b, Some c, Some d] \<Rightarrow> Some (quad a b c d)
     | _ \<Rightarrow> None)"

definition hex_nibble :: "char \<Rightarrow> nat option" where
  "hex_nibble c = (if is_digit c then Some (code c - 48)
     else if 97 \<le> code c \<and> code c \<le> 102 then Some (code c - 87)
     else if 65 \<le> code c \<and> code c \<le> 70 then Some (code c - 55) else None)"

definition hextet :: "string \<Rightarrow> nat option" where
  "hextet s = (if s = [] \<or> length s > 4 then None
     else foldl (\<lambda>acc c. case (acc, hex_nibble c) of (Some n, Some d) \<Rightarrow> Some (16 * n + d) | _ \<Rightarrow> None)
            (Some 0) s)"

text \<open>The 16-bit groups of an address, big-endian, \<open>None\<close> when one is malformed.\<close>

fun hextets :: "string list \<Rightarrow> nat list option" where
  "hextets [] = Some []"
| "hextets (s # ss) = (case (hextet s, hextets ss) of
     (Some n, Some ns) \<Rightarrow> Some (n # ns) | _ \<Rightarrow> None)"

definition v6_of :: "nat list \<Rightarrow> 128 word" where
  "v6_of ns = foldl (\<lambda>acc n. push_bit 16 acc OR of_nat n) 0 ns"

text \<open>
  The two ends of an address around \<open>::\<close>, as lists of its colon-separated parts; an empty
  part is only allowed at the very ends, next to the \<open>::\<close>.
\<close>

definition v6_groups :: "string list \<Rightarrow> nat list option" where
  "v6_groups parts = (
     let inner = filter (\<lambda>i. parts ! i = []) [1 ..< length parts - 1] in
     if length parts < 3 \<or> length parts > 9 \<or> length inner > 1 then None
     else if inner = [] then
       (if length parts \<noteq> 8 \<or> hd parts = [] \<or> last parts = [] then None else hextets parts)
     else
       (let k = hd inner;
            hi = (if hd parts = [] then tl (take k parts) else take k parts);
            lo = (if last parts = [] then butlast (drop (Suc k) parts) else drop (Suc k) parts)
        in if (hd parts = [] \<and> hi \<noteq> []) \<or> (last parts = [] \<and> lo \<noteq> []) \<or> length hi + length lo \<ge> 8
           then None
           else (case (hextets hi, hextets lo) of
               (Some a, Some b) \<Rightarrow> Some (a @ replicate (8 - (length a + length b)) 0 @ b)
             | _ \<Rightarrow> None)))"

text \<open>A trailing dotted quad stands for the last two groups.\<close>

definition hex_of_nat :: "nat \<Rightarrow> string" where
  "hex_of_nat n = (let h = (\<lambda>d. if d < 10 then char_of (48 + d) else char_of (87 + d :: nat)) in
     dropWhile (\<lambda>c. c = CHR ''0'') [h (n div 4096 mod 16), h (n div 256 mod 16), h (n div 16 mod 16)]
       @ [h (n mod 16)])"

definition v6_parts :: "string \<Rightarrow> string list option" where
  "v6_parts s = (let parts = split_on (CHR '':'') s in
     if length parts < 3 then None
     else if CHR ''.'' \<in> set (last parts) then
       (case parse_v4 (last parts) of
          None \<Rightarrow> None
        | Some w \<Rightarrow> Some (butlast parts @
            [hex_of_nat (unat (drop_bit 16 w)), hex_of_nat (unat (w AND 65535))]))
     else Some parts)"

text \<open>\<open>addr%scope\<close>: the scope must be non-empty and without a further percent sign.\<close>

definition v6_scope :: "string \<Rightarrow> string option" where
  "v6_scope s = (let (a, sep, scope) = partition (CHR ''%'') s in
     if \<not> sep then Some a
     else if scope = [] \<or> CHR ''%'' \<in> set scope then None else Some a)"

definition parse_v6 :: "string \<Rightarrow> (128 word) option" where
  "parse_v6 s = (if CHR ''/'' \<in> set s then None else
     case v6_scope s of None \<Rightarrow> None
     | Some a \<Rightarrow> (case v6_parts a of None \<Rightarrow> None
        | Some parts \<Rightarrow> map_option v6_of (v6_groups parts)))"

text \<open>\<open>ip_address\<close>: \<open>None\<close> stands for the \<open>ValueError\<close>.\<close>

definition ip_address :: "string \<Rightarrow> ip_addr option" where
  "ip_address s = (case parse_v4 s of Some w \<Rightarrow> Some (V4 w) | None \<Rightarrow> map_option V6 (parse_v6 s))"

section \<open>Address classes\<close>

definition in_net4 :: "32 word \<Rightarrow> 32 word \<times> nat \<Rightarrow> bool" where
  "in_net4 ip net \<longleftrightarrow> drop_bit (32 - snd net) ip = drop_bit (32 - snd net) (fst net)"

definition in_net6 :: "128 word \<Rightarrow> 128 word \<times> nat \<Rightarrow> bool" where
  "in_net6 ip net \<longleftrightarrow> drop_bit (128 - snd net) ip = drop_bit (128 - snd net) (fst net)"

definition v6 :: "nat list \<Rightarrow> 128 word" where
  "v6 ns = v6_of (ns @ replicate (8 - length ns) 0)"

definition private4 :: "(32 word \<times> nat) list" where
  "private4 = [(quad 0 0 0 0, 8), (quad 10 0 0 0, 8), (quad 127 0 0 0, 8), (quad 169 254 0 0, 16),
     (quad 172 16 0 0, 12), (quad 192 0 0 0, 24), (quad 192 0 0 170, 31), (quad 192 0 2 0, 24),
     (quad 192 168 0 0, 16), (quad 198 18 0 0, 15), (quad 198 51 100 0, 24), (quad 203 0 113 0, 24),
     (quad 240 0 0 0, 4), (quad 255 255 255 255, 32)]"

definition private4_exceptions :: "(32 word \<times> nat) list" where
  "private4_exceptions = [(quad 192 0 0 9, 32), (quad 192 0 0 10, 32)]"

definition private6 :: "(128 word \<times> nat) list" where
  "private6 = [(v6_of [0,0,0,0,0,0,0,1], 128), (v6 [0], 128), (v6_of [0,0,0,0,0,0xFFFF,0,0], 96),
     (v6 [0x64, 0xFF9B, 1], 48), (v6 [0x100], 64), (v6 [0x2001], 23), (v6 [0x2001, 0xDB8], 32),
     (v6 [0x2002], 16), (v6 [0x3FFF], 20), (v6 [0xFC00], 7), (v6 [0xFE80], 10)]"

definition private6_exceptions :: "(128 word \<times> nat) list" where
  "private6_exceptions = [(v6_of [0x2001,1,0,0,0,0,0,1], 128), (v6_of [0x2001,1,0,0,0,0,0,2], 128),
     (v6 [0x2001, 3], 32), (v6 [0x2001, 4, 0x112], 48), (v6 [0x2001, 0x20], 28), (v6 [0x2001, 0x30], 28)]"

definition reserved6 :: "(128 word \<times> nat) list" where
  "reserved6 = [(v6 [0], 8), (v6 [0x100], 8), (v6 [0x200], 7), (v6 [0x400], 6), (v6 [0x800], 5),
     (v6 [0x1000], 4), (v6 [0x4000], 3), (v6 [0x6000], 3), (v6 [0x8000], 3), (v6 [0xA000], 3),
     (v6 [0xC000], 3), (v6 [0xE000], 4), (v6 [0xF000], 5), (v6 [0xF800], 6), (v6 [0xFE00], 9)]"

definition is_private4 :: "32 word \<Rightarrow> bool" where
  "is_private4 w \<longleftrightarrow> list_ex (in_net4 w) private4 \<and> \<not> list_ex (in_net4 w) private4_exceptions"

fun is_private :: "ip_addr \<Rightarrow> bool" where
  "is_private (V4 w) \<longleftrightarrow> is_private4 w"
| "is_private (V6 w) \<longleftrightarrow> (if drop_bit 32 w = 0xFFFF then is_private4 (ucast w)
     else list_ex (in_net6 w) private6 \<and> \<not> list_ex (in_net6 w) private6_exceptions)"

fun is_loopback :: "ip_addr \<Rightarrow> bool" where
  "is_loopback (V4 w) \<longleftrightarrow> in_net4 w (quad 127 0 0 0, 8)"
| "is_loopback (V6 w) \<longleftrightarrow> w = 1"

fun is_link_local :: "ip_addr \<Rightarrow> bool" where
  "is_link_local (V4 w) \<longleftrightarrow> in_net4 w (quad 169 254 0 0, 16)"
| "is_link_local (V6 w) \<longleftrightarrow> in_net6 w (v6 [0xFE80], 10)"

fun is_multicast :: "ip_addr \<Rightarrow> bool" where
  "is_multicast (V4 w) \<longleftrightarrow> in_net4 w (quad 224 0 0 0, 4)"
| "is_multicast (V6 w) \<longleftrightarrow> in_net6 w (v6 [0xFF00], 8)"

fun is_reserved :: "ip_addr \<Rightarrow> bool" where
  "is_reserved (V4 w) \<longleftrightarrow> in_net4 w (quad 240 0 0 0, 4)"
| "is_reserved (V6 w) \<longleftrightarrow> list_ex (in_net6 w) reserved6"

fun is_unspecified :: "ip_addr \<Rightarrow> bool" where
  "is_unspecified (V4 w) \<longleftrightarrow> w = 0"
| "is_unspecified (V6 w) \<longleftrightarrow> w = 0"

section \<open>Dotted quads\<close>

lemma unat_quad:
  assumes "a < 256" "b < 256" "c < 256" "d < 256"
  shows "unat (quad a b c d) = ((a * 256 + b) * 256 + c) * 256 + d"
proof -
  define x where "x = ((a * 256 + b) * 256 + c) * 256 + d"
  have "x < 2 ^ 32" using assms by (simp add: x_def)
  then have "unat (of_nat x :: 32 word) = x" by (simp add: unsigned_of_nat take_bit_nat_eq_self)
  moreover have "quad a b c d = of_nat x" by (simp add: quad_def x_def)
  ultimately show ?thesis by (simp only: x_def)
qed

lemma in_net4_div: "in_net4 w (v, n) \<longleftrightarrow> unat w div 2 ^ (32 - n) = unat v div 2 ^ (32 - n)"
  unfolding in_net4_def fst_conv snd_conv word_unat_eq_iff unat_drop_bit_eq
  by (simp add: drop_bit_eq_div)

lemma digit_div: "d < (256::nat) \<Longrightarrow> (y * 256 + d) div 256 = y"
  by simp

lemma pair_eq: "b < (k::nat) \<Longrightarrow> b' < k \<Longrightarrow> x * k + b = x' * k + b' \<longleftrightarrow> x = x' \<and> b = b'"
  by (metis add_left_cancel div_mult_self3 div_less add.right_neutral less_nat_zero_code)

lemma quad_eq:
  assumes "a < 256" "b < 256" "c < 256" "d < 256" "a' < 256" "b' < 256" "c' < 256" "d' < 256"
  shows "quad a b c d = quad a' b' c' d' \<longleftrightarrow> a = a' \<and> b = b' \<and> c = c' \<and> d = d'"
  using assms by (simp only: word_unat_eq_iff unat_quad pair_eq conj_assoc)

text \<open>Membership by prefix length, octet by octet.\<close>

lemma quad_div:
  assumes "a < 256" "b < 256" "c < 256" "d < 256"
  shows "unat (quad a b c d) div 2 ^ 8 = (a * 256 + b) * 256 + c"
    and "unat (quad a b c d) div 2 ^ 16 = a * 256 + b"
    and "unat (quad a b c d) div 2 ^ 24 = a"
    and "unat (quad a b c d) div 2 ^ 28 = a div 16"
    and "unat (quad a b c d) div 2 ^ 20 = a * 16 + b div 16"
    and "unat (quad a b c d) div 2 ^ 17 = a * 128 + b div 2"
    and "unat (quad a b c d) div 2 ^ 1 = (a * 256 + b) * 32768 + c * 128 + d div 2"
proof -
  note u = unat_quad[OF assms]
  have e8: "x div 2 ^ 8 = x div 256" and e16: "x div 2 ^ 16 = x div 256 div 256"
    and e24: "x div 2 ^ 24 = x div 256 div 256 div 256"
    and e28: "x div 2 ^ 28 = x div 256 div 256 div 256 div 16"
    and e20: "x div 2 ^ 20 = x div 256 div 256 div 16"
    and e17: "x div 2 ^ 17 = x div 256 div 256 div 2" for x :: nat
    by (simp_all add: div_mult2_eq[symmetric])
  note d = digit_div[OF assms(4)] digit_div[OF assms(3)] digit_div[OF assms(2)]
  show "unat (quad a b c d) div 2 ^ 8 = (a * 256 + b) * 256 + c" by (simp only: u e8 d)
  show "unat (quad a b c d) div 2 ^ 16 = a * 256 + b" by (simp only: u e16 d)
  show "unat (quad a b c d) div 2 ^ 24 = a" by (simp only: u e24 d)
  show "unat (quad a b c d) div 2 ^ 28 = a div 16" by (simp only: u e28 d)
  have "unat (quad a b c d) div 2 ^ 20 = (a * 256 + b) div 16" by (simp only: u e20 d)
  then show "unat (quad a b c d) div 2 ^ 20 = a * 16 + b div 16" by simp
  have "unat (quad a b c d) div 2 ^ 17 = (a * 256 + b) div 2" by (simp only: u e17 d)
  then show "unat (quad a b c d) div 2 ^ 17 = a * 128 + b div 2" by simp
  show "unat (quad a b c d) div 2 ^ 1 = (a * 256 + b) * 32768 + c * 128 + d div 2" by (simp add: u)
qed

lemma net4:
  assumes "a < 256" "b < 256" "c < 256" "d < 256" "a' < 256" "b' < 256" "c' < 256" "d' < 256"
  shows "in_net4 (quad a b c d) (quad a' b' c' d', 8) \<longleftrightarrow> a = a'"
    and "in_net4 (quad a b c d) (quad a' b' c' d', 16) \<longleftrightarrow> a = a' \<and> b = b'"
    and "in_net4 (quad a b c d) (quad a' b' c' d', 24) \<longleftrightarrow> a = a' \<and> b = b' \<and> c = c'"
    and "in_net4 (quad a b c d) (quad a' b' c' d', 32) \<longleftrightarrow> a = a' \<and> b = b' \<and> c = c' \<and> d = d'"
    and "in_net4 (quad a b c d) (quad a' b' c' d', 4) \<longleftrightarrow> a div 16 = a' div 16"
    and "in_net4 (quad a b c d) (quad a' b' c' d', 12) \<longleftrightarrow> a = a' \<and> b div 16 = b' div 16"
    and "in_net4 (quad a b c d) (quad a' b' c' d', 15) \<longleftrightarrow> a = a' \<and> b div 2 = b' div 2"
    and "in_net4 (quad a b c d) (quad a' b' c' d', 31) \<longleftrightarrow> a = a' \<and> b = b' \<and> c = c' \<and> d div 2 = d' div 2"
proof -
  note q = quad_div[OF assms(1-4)] quad_div[OF assms(5-8)]
  have m: "32 - 8 = (24::nat)" "32 - 16 = (16::nat)" "32 - 24 = (8::nat)" "32 - 32 = (0::nat)"
    "32 - 4 = (28::nat)" "32 - 12 = (20::nat)" "32 - 15 = (17::nat)" "32 - 31 = (1::nat)" by simp_all
  have h: "x < 256 \<Longrightarrow> x div 16 < (16::nat)" "x < 256 \<Longrightarrow> x div 2 < (128::nat)" for x by auto
  have e: "(x * 256 + y) * 32768 + z * 128 + w = ((x * 256 + y) * 256 + z) * 128 + (w::nat)"
    for x y z w by simp
  show "in_net4 (quad a b c d) (quad a' b' c' d', 8) \<longleftrightarrow> a = a'" by (simp only: in_net4_div m q)
  show "in_net4 (quad a b c d) (quad a' b' c' d', 16) \<longleftrightarrow> a = a' \<and> b = b'"
    using assms by (simp only: in_net4_div m q pair_eq)
  show "in_net4 (quad a b c d) (quad a' b' c' d', 24) \<longleftrightarrow> a = a' \<and> b = b' \<and> c = c'"
    using assms by (simp only: in_net4_div m q pair_eq conj_assoc)
  show "in_net4 (quad a b c d) (quad a' b' c' d', 32) \<longleftrightarrow> a = a' \<and> b = b' \<and> c = c' \<and> d = d'"
    using assms by (simp add: in_net4_def quad_eq)
  show "in_net4 (quad a b c d) (quad a' b' c' d', 4) \<longleftrightarrow> a div 16 = a' div 16"
    by (simp only: in_net4_div m q)
  show "in_net4 (quad a b c d) (quad a' b' c' d', 12) \<longleftrightarrow> a = a' \<and> b div 16 = b' div 16"
    using assms by (simp only: in_net4_div m q pair_eq h)
  show "in_net4 (quad a b c d) (quad a' b' c' d', 15) \<longleftrightarrow> a = a' \<and> b div 2 = b' div 2"
    using assms by (simp only: in_net4_div m q pair_eq h)
  show "in_net4 (quad a b c d) (quad a' b' c' d', 31) \<longleftrightarrow> a = a' \<and> b = b' \<and> c = c' \<and> d div 2 = d' div 2"
    using assms by (simp only: in_net4_div m q e pair_eq h conj_assoc)
qed

text \<open>
  The private IPv4 addresses are these ranges of dotted quads, and no others.
\<close>

lemma private_ipv4_ranges:
  assumes "a < 256" "b < 256" "c < 256" "d < 256"
  shows "is_private (V4 (quad a b c d)) \<longleftrightarrow>
     a \<in> {0, 10, 127} \<or> (a = 169 \<and> b = 254) \<or> (a = 172 \<and> 16 \<le> b \<and> b \<le> 31) \<or> (a = 192 \<and> b = 168)
     \<or> (a = 192 \<and> b = 0 \<and> c = 0 \<and> d \<noteq> 9 \<and> d \<noteq> 10) \<or> (a = 192 \<and> b = 0 \<and> c = 2)
     \<or> (a = 198 \<and> b \<in> {18, 19}) \<or> (a = 198 \<and> b = 51 \<and> c = 100) \<or> (a = 203 \<and> b = 0 \<and> c = 113)
     \<or> 240 \<le> a"
proof -
  have 1: "b div 16 = 1 \<longleftrightarrow> 16 \<le> b \<and> b \<le> 31" and 2: "b div 2 = 9 \<longleftrightarrow> b = 18 \<or> b = 19"
    and 3: "a div 16 = 15 \<longleftrightarrow> 240 \<le> a" using assms by auto
  have e: "list_ex (in_net4 (quad a b c d)) private4_exceptions
      \<longleftrightarrow> (a = 192 \<and> b = 0 \<and> c = 0 \<and> d = 9) \<or> (a = 192 \<and> b = 0 \<and> c = 0 \<and> d = 10)"
    using assms by (simp add: private4_exceptions_def net4)
  have "list_ex (in_net4 (quad a b c d)) private4 \<longleftrightarrow>
     a = 0 \<or> a = 10 \<or> a = 127 \<or> (a = 169 \<and> b = 254) \<or> (a = 172 \<and> b div 16 = 1)
     \<or> (a = 192 \<and> b = 0 \<and> c = 0) \<or> (a = 192 \<and> b = 0 \<and> c = 0 \<and> d div 2 = 85)
     \<or> (a = 192 \<and> b = 0 \<and> c = 2) \<or> (a = 192 \<and> b = 168) \<or> (a = 198 \<and> b div 2 = 9)
     \<or> (a = 198 \<and> b = 51 \<and> c = 100) \<or> (a = 203 \<and> b = 0 \<and> c = 113) \<or> a div 16 = 15
     \<or> (a = 255 \<and> b = 255 \<and> c = 255 \<and> d = 255)"
    using assms by (simp add: private4_def net4)
  note q = this[unfolded 1 2 3]
  have p: "list_ex (in_net4 (quad a b c d)) private4 \<longleftrightarrow>
     a = 0 \<or> a = 10 \<or> a = 127 \<or> (a = 169 \<and> b = 254) \<or> (a = 172 \<and> 16 \<le> b \<and> b \<le> 31)
     \<or> (a = 192 \<and> b = 0 \<and> c = 0) \<or> (a = 192 \<and> b = 0 \<and> c = 2) \<or> (a = 192 \<and> b = 168)
     \<or> (a = 198 \<and> (b = 18 \<or> b = 19)) \<or> (a = 198 \<and> b = 51 \<and> c = 100)
     \<or> (a = 203 \<and> b = 0 \<and> c = 113) \<or> 240 \<le> a" (is "_ \<longleftrightarrow> ?P")
    unfolding q by (rule iffI; elim disjE; simp)
  show ?thesis
  proof (cases "a = 192 \<and> b = 0 \<and> c = 0")
    case True
    show ?thesis unfolding is_private.simps is_private4_def p e using True by simp
  next
    case False
    then have "\<not> list_ex (in_net4 (quad a b c d)) private4_exceptions" unfolding e by blast
    then have "is_private (V4 (quad a b c d)) \<longleftrightarrow> ?P"
      by (simp only: is_private.simps is_private4_def p simp_thms)
    moreover have "(a = 192 \<and> b = 0 \<and> c = 0 \<and> d \<noteq> 9 \<and> d \<noteq> 10) \<longleftrightarrow> False"
      and "(a = 192 \<and> b = 0 \<and> c = 0) \<longleftrightarrow> False" using False by blast+
    ultimately show ?thesis
      by (simp only: insert_iff empty_iff simp_thms disj_assoc conj_disj_distribL)
        (rule iffI; elim disjE; simp)
  qed
qed

section \<open>Printed addresses\<close>

definition dotted :: "nat \<Rightarrow> nat \<Rightarrow> nat \<Rightarrow> nat \<Rightarrow> string" where
  "dotted a b c d = intercalate ''.'' (map show_nat [a, b, c, d])"

lemma hd_show_nat: "0 < n \<Longrightarrow> hd (show_nat n) \<noteq> CHR ''0''"
proof (induction n rule: show_nat.induct)
  case (1 n)
  show ?case
  proof (cases "n < 10")
    case True
    then have "hd (show_nat n) = char_of (48 + n)" by (simp add: show_nat.simps[of n])
    moreover have "code (char_of (48 + n)) \<noteq> code CHR ''0''"
      using True 1(2) by (simp add: code_def)
    ultimately show ?thesis by metis
  next
    case False
    with 1 have "hd (show_nat (n div 10)) \<noteq> CHR ''0''" by simp
    with False show ?thesis by (subst show_nat.simps) (simp add: hd_append)
  qed
qed

lemma show_nat_length: "n < 1000 \<Longrightarrow> length (show_nat n) \<le> 3"
  by (subst show_nat.simps, subst show_nat.simps, subst show_nat.simps) auto

lemma v4_octet_show:
  assumes "n < 256"
  shows "v4_octet (show_nat n) = Some n"
proof -
  have "show_nat n = ''0'' \<or> hd (show_nat n) \<noteq> CHR ''0''"
    using hd_show_nat[of n] by (cases "n = 0") (simp_all add: show_nat.simps[of 0] char_of_def)
  moreover have "length (show_nat n) \<le> 3" using assms show_nat_length[of n] by simp
  ultimately show ?thesis using assms show_nat_digits[of n]
    by (simp add: v4_octet.simps list_all_iff)
qed

lemma no_dot_show_nat: "CHR ''.'' \<notin> set (show_nat n)" and no_slash_show_nat: "CHR ''/'' \<notin> set (show_nat n)"
  using show_nat_digits[of n] by (auto simp: is_digit_def code_def)

lemma parse_dotted:
  assumes "a < 256" "b < 256" "c < 256" "d < 256"
  shows "ip_address (dotted a b c d) = Some (V4 (quad a b c d))"
proof -
  have "split_on (CHR ''.'') (dotted a b c d) = map show_nat [a, b, c, d]"
    unfolding dotted_def by (rule split_on_intercalate) (auto simp: no_dot_show_nat)
  moreover have "CHR ''/'' \<notin> set (dotted a b c d)"
    by (simp add: dotted_def no_slash_show_nat)
  ultimately show ?thesis using assms
    by (simp add: ip_address_def parse_v4_def v4_octet_show)
qed

end
