(* ===== verification/Security.thy ===== *)
theory Security
  imports IPAddress Models
begin

text \<open>
  \<^verbatim>\<open>app/security.py\<close>: the CSRF token and the two constant-time comparisons, and the guard
  on outbound URLs, with the parts of \<^verbatim>\<open>urllib.parse.urlsplit\<close> it relies on (Python 3.12).
  The lemmas show when a token is accepted, and that an address the guard lets through is
  not a private one.
\<close>

section \<open>URLs\<close>

record split_url =
  u_scheme :: string
  u_netloc :: string
  u_path :: string
  u_query :: string

definition scheme_char :: "char \<Rightarrow> bool" where
  "scheme_char c \<longleftrightarrow> is_alpha c \<or> is_digit c \<or> c = CHR ''+'' \<or> c = CHR ''-'' \<or> c = CHR ''.''"

text \<open>White space and control characters on the left go, tabs and line ends go everywhere.\<close>

definition clean_url :: "string \<Rightarrow> string" where
  "clean_url u = filter (\<lambda>c. code c \<notin> {9, 10, 13}) (dropWhile (\<lambda>c. code c \<le> 32) u)"

definition split_scheme :: "string \<Rightarrow> string \<times> string" where
  "split_scheme u = (let (h, sep, r) = partition (CHR '':'') u in
     if sep \<and> h \<noteq> [] \<and> is_alpha (hd h) \<and> list_all scheme_char h then (lower h, r) else ('''', u))"

definition split_netloc :: "string \<Rightarrow> string \<times> string" where
  "split_netloc u = (if starts_with ''//'' u
     then span (\<lambda>c. c \<notin> {CHR ''/'', CHR ''?'', CHR ''#''}) (drop 2 u) else ('''', u))"

definition host_and_port :: "string \<Rightarrow> string" where
  "host_and_port netloc = snd (snd (rpartition (CHR ''@'') netloc))"

definition valid_ipvfuture :: "string \<Rightarrow> bool" where
  "valid_ipvfuture h \<longleftrightarrow> (let (v, sep, r) = partition (CHR ''.'') (tl h) in
     sep \<and> v \<noteq> [] \<and> list_all (\<lambda>c. hex_nibble c \<noteq> None) v \<and> r \<noteq> [] \<and> newline \<notin> set r)"

definition bracketed_host_ok :: "string \<Rightarrow> bool" where
  "bracketed_host_ok h \<longleftrightarrow> (if starts_with ''v'' h then valid_ipvfuture h
     else (case ip_address h of Some (V6 _) \<Rightarrow> True | _ \<Rightarrow> False))"

definition netloc_ok :: "string \<Rightarrow> bool" where
  "netloc_ok netloc \<longleftrightarrow>
     (if CHR ''['' \<in> set netloc \<and> CHR '']'' \<in> set netloc then
        (let (pre, br, bracketed) = partition (CHR ''['') (host_and_port netloc) in
         if br then (let (h, _, port) = partition (CHR '']'') bracketed in
            pre = [] \<and> (port = [] \<or> hd port = CHR '':'') \<and> bracketed_host_ok h)
         else bracketed_host_ok (fst (partition (CHR '':'') (host_and_port netloc))))
      else CHR ''['' \<notin> set netloc \<and> CHR '']'' \<notin> set netloc)"

definition urlsplit :: "string \<Rightarrow> split_url res" where
  "urlsplit url = (
     let (scheme, rest) = split_scheme (clean_url url);
         (netloc, rest) = split_netloc rest;
         (rest, _, _) = partition (CHR ''#'') rest;
         (path, _, query) = partition (CHR ''?'') rest
     in if netloc_ok netloc
        then Inr \<lparr>u_scheme = scheme, u_netloc = netloc, u_path = path, u_query = query\<rparr>
        else Inl (ValueError ''Invalid IPv6 URL''))"

text \<open>\<^verbatim>\<open>_hostinfo\<close>: host and port texts.\<close>

definition hostinfo :: "split_url \<Rightarrow> string \<times> string" where
  "hostinfo u = (let (_, br, bracketed) = partition (CHR ''['') (host_and_port (u_netloc u)) in
     if br then (let (h, _, p) = partition (CHR '']'') bracketed in
                 (h, snd (snd (partition (CHR '':'') p))))
     else (let (h, _, p) = partition (CHR '':'') (host_and_port (u_netloc u)) in (h, p)))"

definition hostname :: "split_url \<Rightarrow> string option" where
  "hostname u = (let h = fst (hostinfo u) in
     if h = [] then None
     else (let (n, sep, zone) = partition (CHR ''%'') h in
        Some (lower n @ (if sep then ''%'' else '''') @ zone)))"

definition url_port :: "split_url \<Rightarrow> (int option) res" where
  "url_port u = (let p = snd (hostinfo u) in
     if p = [] then Inr None
     else if \<not> list_all is_digit p then Inl (ValueError ''Port could not be cast to integer value'')
     else if read_int p > 65535 then Inl (ValueError ''Port out of range 0-65535'')
     else Inr (Some (read_int p)))"

section \<open>The outbound guard\<close>

definition forbidden_host_suffixes :: "string list" where
  "forbidden_host_suffixes = [''.localhost'', ''.local'', ''.internal'', ''.lan'', ''.intranet'',
     ''.corp'', ''.home'', ''.private'']"

definition ip_is_private :: "string \<Rightarrow> bool" where
  "ip_is_private addr = (case ip_address addr of None \<Rightarrow> False
     | Some ip \<Rightarrow> is_private ip \<or> is_loopback ip \<or> is_link_local ip \<or> is_multicast ip
         \<or> is_reserved ip \<or> is_unspecified ip)"

definition is_safe_url_shape :: "string \<Rightarrow> bool \<Rightarrow> bool" where
  "is_safe_url_shape url allow_http = (case urlsplit url of
      Inl _ \<Rightarrow> False
    | Inr parts \<Rightarrow>
        if u_scheme parts \<notin> {''http'', ''https''} then False
        else if u_scheme parts = ''http'' \<and> \<not> allow_http then False
        else (case hostname parts of None \<Rightarrow> False
          | Some host \<Rightarrow>
              let host_l = lower host in
              if host_l = ''localhost'' \<or> list_ex (\<lambda>sfx. ends_with sfx host_l) forbidden_host_suffixes
              then False
              else if ip_address host = None then True
              else \<not> ip_is_private host))"

text \<open>\<open>parts.port or (443 if ... else 80)\<close>: an explicit port 0 counts as absent.\<close>

definition effective_port :: "split_url \<Rightarrow> int option \<Rightarrow> int" where
  "effective_port parts p = (case p of
      Some n \<Rightarrow> if n \<noteq> 0 then n else if u_scheme parts = ''https'' then 443 else 80
    | None \<Rightarrow> if u_scheme parts = ''https'' then 443 else 80)"

type_synonym target = "string \<times> int \<times> string \<times> string"

definition pin_address :: "env \<Rightarrow> string \<Rightarrow> int \<Rightarrow> string \<Rightarrow> session \<Rightarrow> (target option \<times> session) res" where
  "pin_address E host port sch s =
    (if ip_address host \<noteq> None then
       (if ip_is_private host then Inr (None, s) else Inr (Some (host, port, sch, host), s))
     else (case getaddrinfo E (n_dns s) host port of
         DnsOSError \<Rightarrow> Inr (None, s\<lparr>n_dns := Suc (n_dns s)\<rparr>)
       | DnsRaise e \<Rightarrow> Inl e
       | Addrs addrs \<Rightarrow>
           Inr (map_option (\<lambda>addr. (addr, port, sch, host)) (find (\<lambda>addr. \<not> ip_is_private addr) addrs),
                s\<lparr>n_dns := Suc (n_dns s)\<rparr>)))"

definition resolve_safe_address ::
  "env \<Rightarrow> string \<Rightarrow> bool \<Rightarrow> session \<Rightarrow> (target option \<times> session) res" where
  "resolve_safe_address E url allow_http s =
    (if \<not> is_safe_url_shape url allow_http then Inr (None, s)
     else rbind (urlsplit url) (\<lambda>parts.
       case hostname parts of None \<Rightarrow> Inr (None, s)
       | Some host \<Rightarrow>
           rbind (url_port parts) (\<lambda>p. pin_address E host (effective_port parts p) (u_scheme parts) s)))"

text \<open>The diagnostic helper, which resolves without a port and refuses any private answer.\<close>

definition is_safe_for_delivery ::
  "env \<Rightarrow> string \<Rightarrow> bool \<Rightarrow> session \<Rightarrow> (bool \<times> string option) res" where
  "is_safe_for_delivery E url allow_http s =
    (if \<not> is_safe_url_shape url allow_http then Inr (False, Some ''unsafe_url_shape'')
     else rbind (urlsplit url) (\<lambda>parts.
       let host = (case hostname parts of None \<Rightarrow> '''' | Some h \<Rightarrow> h) in
       if ip_address host \<noteq> None then Inr (True, None)
       else (case getaddrinfo E (n_dns s) host 0 of
           DnsOSError \<Rightarrow> Inr (False, Some ''dns_failed:OSError'')
         | DnsRaise e \<Rightarrow> Inl e
         | Addrs addrs \<Rightarrow> (case find ip_is_private addrs of
             Some a \<Rightarrow> Inr (False, Some (''resolves_to_private:'' @ a))
           | None \<Rightarrow> Inr (True, None)))))"

section \<open>Tokens\<close>

definition csrf_token :: "env \<Rightarrow> string \<Rightarrow> string \<Rightarrow> string" where
  "csrf_token E key cookie = hmac_sha256 E key (''csrf:'' @ cookie)"

definition check_csrf :: "env \<Rightarrow> string \<Rightarrow> string \<Rightarrow> string option \<Rightarrow> bool" where
  "check_csrf E key cookie supplied = (case supplied of
      None \<Rightarrow> False
    | Some b \<Rightarrow>
        if b = [] then False
        else (let a = csrf_token E key cookie in
          if length a \<noteq> length b then False else a = b))"

definition check_admin_bearer :: "string option \<Rightarrow> string \<Rightarrow> bool" where
  "check_admin_bearer authorization admin_token_v = (case authorization of
      None \<Rightarrow> False
    | Some a \<Rightarrow>
        if a = [] \<or> admin_token_v = [] then False
        else (let b = ''Bearer '' @ admin_token_v in
          if length a \<noteq> length b then False else a = b))"

section \<open>What the guard lets through\<close>

text \<open>Where a pinned address comes from: the host itself, or the answers for its name.\<close>

definition address_source :: "env \<Rightarrow> nat \<Rightarrow> string \<Rightarrow> int \<Rightarrow> string \<Rightarrow> bool" where
  "address_source E n host port ip \<longleftrightarrow> ip = host \<and> ip_address ip \<noteq> None
     \<or> (\<exists>addrs. getaddrinfo E n host port = Addrs addrs \<and> ip \<in> set addrs)"

lemma find_SomeD: "find P xs = Some x \<Longrightarrow> x \<in> set xs \<and> P x"
  by (metis find_Some_iff nth_mem)

lemma pin_address_Some:
  assumes "pin_address E host port sch s = Inr (Some t, s')"
  shows "\<exists>ip. t = (ip, port, sch, host) \<and> \<not> ip_is_private ip \<and> address_source E (n_dns s) host port ip"
proof (cases "ip_address host = None")
  case False
  with assms show ?thesis by (auto simp: pin_address_def address_source_def split: if_splits)
next
  case True
  with assms obtain addrs where g: "getaddrinfo E (n_dns s) host port = Addrs addrs"
    and "map_option (\<lambda>addr. (addr, port, sch, host)) (find (\<lambda>addr. \<not> ip_is_private addr) addrs) = Some t"
    by (auto simp: pin_address_def split: dns_result.splits)
  then obtain ip where "find (\<lambda>addr. \<not> ip_is_private addr) addrs = Some ip" and "t = (ip, port, sch, host)"
    by auto
  with g show ?thesis by (auto dest: find_SomeD simp: address_source_def)
qed

lemma pin_address_state: "pin_address E host port sch s = Inr (r, s') \<Longrightarrow> s' = s\<lparr>n_dns := n_dns s'\<rparr>"
  by (auto simp: pin_address_def split: if_splits dns_result.splits)

lemma resolve_safe_address_Some:
  assumes "resolve_safe_address E url allow s = Inr (Some (ip, port, sch, host), s')"
  shows "is_safe_url_shape url allow" and "\<not> ip_is_private ip"
    and "address_source E (n_dns s) host port ip"
    and "\<exists>parts. urlsplit url = Inr parts \<and> hostname parts = Some host \<and> u_scheme parts = sch"
proof -
  show shape: "is_safe_url_shape url allow"
    using assms by (simp add: resolve_safe_address_def split: if_splits)
  from assms shape obtain parts h p where 1: "urlsplit url = Inr parts" "hostname parts = Some h"
    and 2: "pin_address E h (effective_port parts p) (u_scheme parts) s = Inr (Some (ip, port, sch, host), s')"
    by (auto simp: resolve_safe_address_def rbind_Inr_iff split: option.splits)
  from pin_address_Some[OF 2] 1
  show "\<not> ip_is_private ip" "address_source E (n_dns s) host port ip"
    "\<exists>parts. urlsplit url = Inr parts \<and> hostname parts = Some host \<and> u_scheme parts = sch"
    by auto
qed

lemma resolve_safe_address_state:
  assumes "resolve_safe_address E url allow s = Inr (r, s')"
  shows "s' = s\<lparr>n_dns := n_dns s'\<rparr>"
proof (cases "is_safe_url_shape url allow")
  case False
  with assms show ?thesis by (simp add: resolve_safe_address_def)
next
  case True
  with assms show ?thesis
    by (auto simp: resolve_safe_address_def rbind_Inr_iff split: option.splits dest: pin_address_state)
qed

lemma safe_shape_scheme:
  "is_safe_url_shape url allow \<Longrightarrow> urlsplit url = Inr parts \<Longrightarrow>
   u_scheme parts = ''https'' \<or> u_scheme parts = ''http'' \<and> allow"
  unfolding is_safe_url_shape_def by (simp only: sum.case split: if_splits) blast+

lemma ip_is_private_range:
  "ip_address a = Some (V4 w) \<Longrightarrow> is_private (V4 w) \<Longrightarrow> ip_is_private a"
  by (simp add: ip_is_private_def)

lemma check_csrf_iff: "check_csrf E k c t \<longleftrightarrow> t = Some (csrf_token E k c) \<and> csrf_token E k c \<noteq> []"
  by (auto simp: check_csrf_def Let_def split: option.splits)

lemma check_admin_bearer_iff:
  "check_admin_bearer au tok \<longleftrightarrow> tok \<noteq> [] \<and> au = Some (''Bearer '' @ tok)"
  by (auto simp: check_admin_bearer_def Let_def split: option.splits)

text \<open>
  The IPv4 literals the guard refuses are exactly these ranges: this network, the private,
  loopback, link-local, benchmark and documentation blocks, and everything from multicast on.
\<close>

theorem blocked_ipv4_ranges:
  assumes "a < 256" "b < 256" "c < 256" "d < 256"
  shows "ip_is_private (dotted a b c d) \<longleftrightarrow>
     a \<in> {0, 10, 127} \<or> (a = 169 \<and> b = 254) \<or> (a = 172 \<and> 16 \<le> b \<and> b \<le> 31) \<or> (a = 192 \<and> b = 168)
     \<or> (a = 192 \<and> b = 0 \<and> c = 0 \<and> d \<noteq> 9 \<and> d \<noteq> 10) \<or> (a = 192 \<and> b = 0 \<and> c = 2)
     \<or> (a = 198 \<and> b \<in> {18, 19}) \<or> (a = 198 \<and> b = 51 \<and> c = 100) \<or> (a = 203 \<and> b = 0 \<and> c = 113)
     \<or> 224 \<le> a" (is "_ \<longleftrightarrow> ?R")
proof -
  let ?w = "quad a b c d"
  let ?P = "is_private (V4 ?w)"
  have z: "?w = 0 \<longleftrightarrow> ?w = quad 0 0 0 0" by (simp add: quad_def)
  have "is_loopback (V4 ?w) \<Longrightarrow> a = 127" "is_link_local (V4 ?w) \<Longrightarrow> a = 169 \<and> b = 254"
    "is_unspecified (V4 ?w) \<Longrightarrow> a = 0"
    using assms by (simp_all add: net4 z quad_eq)
  then have "is_loopback (V4 ?w) \<Longrightarrow> ?P" "is_link_local (V4 ?w) \<Longrightarrow> ?P" "is_unspecified (V4 ?w) \<Longrightarrow> ?P"
    unfolding private_ipv4_ranges[OF assms] by blast+
  moreover have "is_multicast (V4 ?w) \<or> is_reserved (V4 ?w) \<longleftrightarrow> 224 \<le> a"
    using assms by (auto simp add: net4)
  moreover have "ip_is_private (dotted a b c d) \<longleftrightarrow> ?P \<or> is_loopback (V4 ?w) \<or> is_link_local (V4 ?w)
      \<or> (is_multicast (V4 ?w) \<or> is_reserved (V4 ?w)) \<or> is_unspecified (V4 ?w)"
    unfolding ip_is_private_def parse_dotted[OF assms] option.case by blast
  ultimately have "ip_is_private (dotted a b c d) \<longleftrightarrow> ?P \<or> 224 \<le> a" by blast
  then show ?thesis
  proof (cases "224 \<le> a")
    case False
    then have "\<not> 240 \<le> a" by simp
    with False show ?thesis
      unfolding \<open>ip_is_private (dotted a b c d) \<longleftrightarrow> ?P \<or> 224 \<le> a\<close> private_ipv4_ranges[OF assms]
      by (simp only: simp_thms)
  qed simp
qed

theorem blocked_ipv4_ranges_witness: "ip_is_private ''172.20.0.1'' \<and> \<not> ip_is_private ''172.32.0.1''"
proof -
  have "dotted 172 20 0 1 = ''172.20.0.1''" and "dotted 172 32 0 1 = ''172.32.0.1''" by code_simp+
  with blocked_ipv4_ranges[of 172 20 0 1] blocked_ipv4_ranges[of 172 32 0 1] show ?thesis by simp
qed

end
