(* ===== verification/Keystore.thy ===== *)
theory Keystore
  imports Models
begin

text \<open>
  At-rest encryption of stored secrets (\<^verbatim>\<open>app/keystore.py\<close>). Fernet is a parameter: what
  the theorems use of it is that a token decrypts under the key that made it, to the text it
  was made from (\<open>fernet_inverse\<close>). The locale \<open>codec\<close> is the contract of a pair of functions
  that wrap and unwrap a text, \<open>envelope\<close> the one that a client of this module relies on; the
  script that encrypts legacy rows and rotates the key (theory \<open>Rewrap\<close>) is such a client, and
  the backup archive is another \<open>codec\<close>.
\<close>

section \<open>The key\<close>

text \<open>A Fernet object is named by its key; a malformed key is logged and disabled.\<close>

definition fernet :: "env \<Rightarrow> string option" where
  "fernet E = (let k = key_encryption_key (cfg E) in
     if k = [] then None else if fernet_key_ok E k then Some k else None)"

definition fernet_prev :: "env \<Rightarrow> string option" where
  "fernet_prev E = (let k = key_encryption_key_prev (cfg E) in
     if k = [] then None else if fernet_key_ok E k then Some k else None)"

definition enc_prefix :: string where
  "enc_prefix = ''enc:v1:''"

definition encode_ascii :: "string \<Rightarrow> string res" where
  "encode_ascii s = (if list_all is_ascii s then Inr s else Inl (ValueError ''UnicodeEncodeError''))"

definition decrypt_with :: "env \<Rightarrow> string \<Rightarrow> string \<Rightarrow> string res" where
  "decrypt_with E f stored =
     rbind (encode_ascii (drop (length enc_prefix) stored)) (\<lambda>payload.
     case fernet_decrypt E f payload of
       Some p \<Rightarrow> Inr p
     | None \<Rightarrow> Inl (RuntimeError ''secret decryption failed under the supplied KEK''))"

section \<open>Encrypt and decrypt\<close>

definition is_encrypted :: "string option \<Rightarrow> bool" where
  "is_encrypted stored \<longleftrightarrow> (case stored of None \<Rightarrow> False | Some s \<Rightarrow> s \<noteq> [] \<and> starts_with enc_prefix s)"

text \<open>The number is the draw that makes the token's initialisation vector.\<close>

definition encrypt_secret :: "env \<Rightarrow> nat \<Rightarrow> string option \<Rightarrow> (string option) res" where
  "encrypt_secret E n plaintext = (case plaintext of
      None \<Rightarrow> Inr None
    | Some p \<Rightarrow>
        if is_encrypted plaintext then Inr plaintext
        else (case fernet E of
            None \<Rightarrow>
              if require_kek (cfg E) then Inl (RuntimeError ''KEK required'')
              else Inr plaintext
          | Some f \<Rightarrow> Inr (Some (enc_prefix @ fernet_encrypt E f n p))))"

definition decrypt_secret :: "env \<Rightarrow> string option \<Rightarrow> (string option) res" where
  "decrypt_secret E stored = (case stored of
      None \<Rightarrow> Inr None
    | Some s \<Rightarrow>
        if \<not> starts_with enc_prefix s then Inr stored
        else (case fernet E of
            None \<Rightarrow> Inl (RuntimeError ''secret is encrypted at rest but the KEK is unset'')
          | Some f \<Rightarrow>
              rbind (encode_ascii (drop (length enc_prefix) s)) (\<lambda>payload.
              case fernet_decrypt E f payload of
                Some p \<Rightarrow> Inr (Some p)
              | None \<Rightarrow> Inl (RuntimeError ''secret decryption failed''))))"

definition encrypt_pem :: "env \<Rightarrow> nat \<Rightarrow> string \<Rightarrow> string res" where
  "encrypt_pem E n pem = rbind (encrypt_secret E n (Some pem)) attr"

definition decrypt_pem :: "env \<Rightarrow> string \<Rightarrow> string res" where
  "decrypt_pem E stored = rbind (decrypt_secret E (Some stored)) attr"

section \<open>What is relied on, and the contract\<close>

definition fernet_inverse :: "env \<Rightarrow> bool" where
  "fernet_inverse E \<longleftrightarrow> (\<forall>k n p. fernet_key_ok E k \<longrightarrow>
     fernet_decrypt E k (fernet_encrypt E k n p) = Some p \<and> list_all is_ascii (fernet_encrypt E k n p))"

text \<open>
  A codec: what \<open>wrap\<close> makes of a payload, \<open>unwrap\<close> reads back. The stored secrets and the
  backup archives are two of them.
\<close>

locale codec =
  fixes good :: "'e \<Rightarrow> bool"
    and wrap :: "'e \<Rightarrow> nat \<Rightarrow> string \<Rightarrow> string res"
    and unwrap :: "'e \<Rightarrow> string \<Rightarrow> string res"
    and payload :: "string \<Rightarrow> bool"
  assumes unwrap_wrap: "good E \<Longrightarrow> payload x \<Longrightarrow> wrap E n x = Inr y \<Longrightarrow> unwrap E y = Inr x"
begin

lemma wrap_inj:
  assumes "good E" and "payload x" and "payload x'"
    and "wrap E n x = Inr y" and "wrap E m x' = Inr y"
  shows "x = x'"
  using unwrap_wrap[OF assms(1,2,4)] unwrap_wrap[OF assms(1,3,5)] by simp

end

text \<open>
  A storage envelope is a codec of the values that are not wrapped; wrapping a wrapped
  value changes nothing, and a value stored unwrapped is read as it is.
\<close>

locale envelope = codec good wrap unwrap "\<lambda>x. \<not> sealed x"
  for good :: "'e \<Rightarrow> bool"
    and wrap :: "'e \<Rightarrow> nat \<Rightarrow> string \<Rightarrow> string res"
    and unwrap :: "'e \<Rightarrow> string \<Rightarrow> string res"
    and sealed :: "string \<Rightarrow> bool" +
  assumes wrap_sealed: "sealed x \<Longrightarrow> wrap E n x = Inr x"
    and unwrap_plain: "\<not> sealed x \<Longrightarrow> unwrap E x = Inr x"
begin

text \<open>Rewriting a stored value through the envelope never changes what readers get.\<close>

lemma rewrite_same:
  assumes "good E" and "wrap E n x = Inr y"
  shows "unwrap E y = unwrap E x"
proof (cases "sealed x")
  case True
  with wrap_sealed assms(2) show ?thesis by auto
next
  case False
  with assms show ?thesis by (simp add: unwrap_wrap unwrap_plain)
qed

end

lemma is_encrypted_Some: "is_encrypted (Some s) \<longleftrightarrow> starts_with enc_prefix s"
  by (auto simp: is_encrypted_def starts_with_def enc_prefix_def)

lemma is_encrypted_None [simp]: "\<not> is_encrypted None"
  by (simp add: is_encrypted_def)

lemma is_encrypted_wrapped [simp]: "is_encrypted (Some (enc_prefix @ t))"
  by (simp add: is_encrypted_Some)

lemma fernet_ok: "fernet E = Some k \<Longrightarrow> fernet_key_ok E k"
  by (auto simp: fernet_def Let_def split: if_splits)

lemma encrypt_pem_cases: "encrypt_pem E n x =
   (if is_encrypted (Some x) then Inr x
    else case fernet E of
       None \<Rightarrow> if require_kek (cfg E) then Inl (RuntimeError ''KEK required'') else Inr x
     | Some f \<Rightarrow> Inr (enc_prefix @ fernet_encrypt E f n x))"
  by (auto simp: encrypt_pem_def encrypt_secret_def attr_def split: option.splits)

lemma decrypt_pem_plain: "\<not> is_encrypted (Some x) \<Longrightarrow> decrypt_pem E x = Inr x"
  by (auto simp: decrypt_pem_def decrypt_secret_def attr_def is_encrypted_Some)

lemma decrypt_pem_token:
  "fernet_inverse E \<Longrightarrow> fernet E = Some f \<Longrightarrow> decrypt_pem E (enc_prefix @ fernet_encrypt E f n x) = Inr x"
  by (auto dest: fernet_ok simp: decrypt_pem_def decrypt_secret_def attr_def encode_ascii_def
      fernet_inverse_def)

interpretation secret: envelope fernet_inverse encrypt_pem decrypt_pem "\<lambda>x. is_encrypted (Some x)"
proof
  show "decrypt_pem E y = Inr x"
    if "fernet_inverse E" "\<not> is_encrypted (Some x)" "encrypt_pem E n x = Inr y" for E x n y
    using that by (auto simp: encrypt_pem_cases decrypt_pem_plain decrypt_pem_token
        split: option.splits if_splits)
qed (simp_all add: encrypt_pem_cases decrypt_pem_plain)

lemma encrypt_secret_pem: "encrypt_secret E n (Some x) = Inr y \<longleftrightarrow>
   (\<exists>z. y = Some z \<and> encrypt_pem E n x = Inr z)"
  by (auto simp: encrypt_pem_def encrypt_secret_def attr_def is_encrypted_def
      split: option.splits if_splits)

lemma decrypt_secret_bind:
  "decrypt_secret E (Some x) = rbind (decrypt_pem E x) (\<lambda>z. Inr (Some z))"
  by (cases "encode_ascii (drop (length enc_prefix) x)")
    (auto simp: decrypt_pem_def decrypt_secret_def attr_def split: option.splits)

text \<open>
  C28: a secret stored through the envelope is read back unchanged, whatever the key
  configuration is (no key, a malformed key, a working key).
\<close>

theorem secret_roundtrip:
  assumes "fernet_inverse E" and "\<not> is_encrypted (Some x)"
    and "encrypt_secret E n (Some x) = Inr (Some y)"
  shows "decrypt_secret E (Some y) = Inr (Some x)"
  using assms secret.unwrap_wrap by (auto simp: encrypt_secret_pem decrypt_secret_bind)

definition kek_env :: env where
  "kek_env = sample_env (default_settings
     \<lparr>key_encryption_key := ''k1'', key_encryption_key_prev := ''k0'', require_kek := True\<rparr>)"

lemma sample_fernet_inverse: "fernet_inverse (sample_env c)"
proof -
  have "starts_with (a @ ''.'') (a @ CHR ''.'' # b)" for a b
    using starts_with_append[of "a @ ''.''" b] by simp
  then show ?thesis
    by (simp add: fernet_inverse_def sample_env_def unhexs_hexs hexs_ascii) (simp add: is_ascii_def code_def)
qed

theorem secret_roundtrip_witness:
  "\<exists>y. encrypt_secret kek_env 0 (Some ''sk_live'') = Inr (Some y) \<and> y \<noteq> ''sk_live''
     \<and> decrypt_secret kek_env (Some y) = Inr (Some ''sk_live'')"
proof -
  have e: "encrypt_secret kek_env 0 (Some ''sk_live'') = Inr (Some (enc_prefix @ hexs ''k1'' @ ''.'' @ hexs ''sk_live''))"
    by code_simp
  have n: "\<not> is_encrypted (Some ''sk_live'')" by code_simp
  have "fernet_inverse kek_env" by (simp add: kek_env_def sample_fernet_inverse)
  from secret_roundtrip[OF this n e] e show ?thesis by (auto simp: enc_prefix_def)
qed

end
