(* ===== verification/Signing.thy ===== *)
theory Signing
  imports Keystore
begin

text \<open>
  License keys at rest (\<^verbatim>\<open>app/license_keys.py\<close>: the peppered hash and the display form) and
  the signed token a client receives (\<^verbatim>\<open>app/signing.py\<close>). BLAKE2b and the JWT encoder are
  parameters. The lemmas bound the lifetime of a token by the licence's validity and by the
  configured time to live, and bound what of a key its display form shows.
\<close>

section \<open>Hash and display form of a key\<close>

text \<open>\<^verbatim>\<open>hashlib.blake2b\<close> accepts a key of at most 64 bytes.\<close>

definition hash_key :: "env \<Rightarrow> string \<Rightarrow> string res" where
  "hash_key E plaintext = (let pepper = license_key_pepper (cfg E) in
     if pepper = [] then Inl (RuntimeError ''LICENSE_KEY_PEPPER is unset'')
     else if length pepper > 64 then Inl (ValueError ''maximum key length is 64 bytes'')
     else Inr (blake2b E pepper plaintext))"

definition last_n :: "nat \<Rightarrow> 'a list \<Rightarrow> 'a list" where
  "last_n n s = drop (length s - n) s"

definition make_display :: "string \<Rightarrow> glyph list" where
  "make_display plaintext =
    (if CHR ''_'' \<in> set plaintext then
       (let (pre, _, body) = partition (CHR ''_'') plaintext;
            head = take 6 body;
            tail = (if length body \<ge> 10 then last_n 4 body else body)
        in map Ch (pre @ ''_'' @ head) @ [Ellipsis] @ map Ch tail)
     else
       (let head = take 6 plaintext;
            tail = (if length plaintext \<ge> 10 then last_n 4 plaintext else plaintext)
        in map Ch head @ [Ellipsis] @ map Ch tail))"

text \<open>
  Of a key \<open>prefix_body\<close> whose prefix has no underscore and whose body has at least ten
  characters, the display form shows the prefix, the first six and the last four characters
  of the body: keys that agree there have the same display form, so the rest of the body is
  not recoverable from it.
\<close>

theorem make_display_hides_body:
  assumes "CHR ''_'' \<notin> set pre" and "length h = 6" and "length t = 4"
  shows "make_display (pre @ ''_'' @ h @ mid @ t) = map Ch (pre @ ''_'' @ h) @ [Ellipsis] @ map Ch t"
proof -
  have p: "partition (CHR ''_'') (pre @ CHR ''_'' # h @ mid @ t) = (pre, True, h @ mid @ t)"
    using assms(1) by (rule partition_append)
  show ?thesis using assms p by (simp add: make_display_def last_n_def)
qed

theorem make_display_hides_body_witness:
  "make_display ''demo_ABCDEFsecretWXYZ'' = map Ch ''demo_ABCDEF'' @ [Ellipsis] @ map Ch ''WXYZ''"
  using make_display_hides_body[of "''demo''" "''ABCDEF''" "''WXYZ''" "''secret''"] by simp

section \<open>Signed tokens\<close>

definition generate_keypair :: "env \<Rightarrow> session \<Rightarrow> (string \<times> string) \<times> session" where
  "generate_keypair E s = draw (ed25519_pair E) s"

text \<open>
  \<^verbatim>\<open>int(t.timestamp())\<close>: seconds since 1970, truncated towards zero. (The intermediate
  \<^verbatim>\<open>float\<close> is exact enough to leave the whole seconds unchanged for instants before the
  year 2514.)
\<close>

definition epoch_us :: int where
  "epoch_us = 719162 * day_us"

definition timestamp :: "datetime \<Rightarrow> int" where
  "timestamp t = (let d = t - epoch_us in
     if 0 \<le> d then d div second_us else - ((- d) div second_us))"

definition jwt_payload ::
  "product \<Rightarrow> string \<Rightarrow> string \<Rightarrow> string \<Rightarrow> int \<Rightarrow> json \<Rightarrow> datetime \<Rightarrow> datetime \<Rightarrow> datetime \<Rightarrow> json" where
  "jwt_payload p license_id install_id plan max_users features vu t cap = JDict [
     (''iss'', JStr (p_jwt_issuer p)),
     (''kid'', JStr (p_id p)),
     (''aud'', JStr (p_slug p)),
     (''iat'', JInt (timestamp t)),
     (''exp'', JInt (timestamp cap)),
     (''product'', JStr (p_slug p)),
     (''license_id'', JStr license_id),
     (''install_id'', JStr install_id),
     (''plan'', JStr plan),
     (''max_users'', JInt max_users),
     (''features'', features),
     (''valid_until'', JInt (timestamp vu))]"

text \<open>Stored instants are naive UTC, so \<open>valid_until\<close> needs no conversion.\<close>

definition sign_license_jwt ::
  "env \<Rightarrow> datetime \<Rightarrow> product \<Rightarrow> string \<Rightarrow> string \<Rightarrow> string \<Rightarrow> int \<Rightarrow> json \<Rightarrow> datetime \<Rightarrow> (string \<times> datetime) res" where
  "sign_license_jwt E t p license_id install_id plan max_users features vu =
     rbind (add_delta t (jwt_ttl_days (cfg E) * day_us)) (\<lambda>ttl_end.
     let cap = min ttl_end vu in
     rbind (decrypt_pem E (p_private_key_pem p)) (\<lambda>private_pem.
     rbind (jwt_encode E (jwt_payload p license_id install_id plan max_users features vu t cap) private_pem)
       (\<lambda>tok. Inr (tok, cap))))"

lemma timestamp_mono: "a \<le> b \<Longrightarrow> timestamp a \<le> timestamp b"
proof -
  define x where "x = a - epoch_us"
  define y where "y = b - epoch_us"
  assume "a \<le> b"
  then have xy: "x \<le> y" by (simp add: x_def y_def)
  have nn: "0 \<le> z div second_us" if "0 \<le> z" for z
    using that by (simp add: us_defs pos_imp_zdiv_nonneg_iff)
  have mono: "v \<le> w \<Longrightarrow> v div second_us \<le> w div second_us" for v w
    by (simp add: us_defs zdiv_mono1)
  show ?thesis
  proof (cases "0 \<le> x")
    case True
    with xy mono[OF xy] show ?thesis by (simp add: timestamp_def Let_def x_def y_def)
  next
    case False
    with xy nn[of "- x"] nn[of y] mono[of "- y" "- x"] show ?thesis
      by (cases "0 \<le> y") (simp_all add: timestamp_def Let_def x_def[symmetric] y_def[symmetric])
  qed
qed

lemma sign_license_jwt_Inr:
  assumes "sign_license_jwt E t p lid iid plan mu fe vu = Inr (tok, cap)"
  obtains pem where "cap = min (t + jwt_ttl_days (cfg E) * day_us) vu"
    and "decrypt_pem E (p_private_key_pem p) = Inr pem"
    and "jwt_encode E (jwt_payload p lid iid plan mu fe vu t cap) pem = Inr tok"
  using assms by (auto simp: sign_license_jwt_def res_simps Let_def add_delta_Inr)

text \<open>
  C30: a signed token is the encoding, under the product's decrypted private key, of a claim
  set that names the product as audience and whose expiry is neither after the licence's
  validity nor after the configured time to live.
\<close>

theorem jwt_expiry_capped:
  assumes "sign_license_jwt E t p lid iid plan mu fe vu = Inr (tok, cap)"
  shows "\<exists>pl pem x v. decrypt_pem E (p_private_key_pem p) = Inr pem \<and> jwt_encode E pl pem = Inr tok
    \<and> jget pl ''aud'' = Some (JStr (p_slug p)) \<and> jget pl ''license_id'' = Some (JStr lid)
    \<and> jget pl ''exp'' = Some (JInt x) \<and> jget pl ''valid_until'' = Some (JInt v)
    \<and> x \<le> v \<and> x \<le> timestamp (t + jwt_ttl_days (cfg E) * day_us) \<and> cap \<le> vu"
proof -
  from assms obtain pem where cap: "cap = min (t + jwt_ttl_days (cfg E) * day_us) vu"
    and dec: "decrypt_pem E (p_private_key_pem p) = Inr pem"
    and enc: "jwt_encode E (jwt_payload p lid iid plan mu fe vu t cap) pem = Inr tok"
    by (rule sign_license_jwt_Inr)
  have "timestamp cap \<le> timestamp vu" "timestamp cap \<le> timestamp (t + jwt_ttl_days (cfg E) * day_us)"
    by (simp_all add: cap timestamp_mono)
  with dec enc cap show ?thesis
    by (intro exI[of _ "jwt_payload p lid iid plan mu fe vu t cap"]) (simp add: jwt_payload_def)
qed

theorem jwt_expiry_capped_witness:
  "\<exists>tok pl pem x v. decrypt_pem kek_env (enc_prefix @ fernet_encrypt kek_env ''k1'' 0 ''pem'') = Inr pem
    \<and> jwt_encode kek_env pl pem = Inr tok \<and> jget pl ''exp'' = Some (JInt x)
    \<and> jget pl ''valid_until'' = Some (JInt v) \<and> x \<le> v"
proof -
  let ?p = "\<lparr>p_id = ''p1'', p_slug = ''demo'', p_name = ''Demo'', p_description = None,
     p_public_key_pem = ''pub'', p_private_key_pem = enc_prefix @ fernet_encrypt kek_env ''k1'' 0 ''pem'',
     p_key_prefix = ''demo'', p_stripe_webhook_secret = None, p_stripe_api_key = None,
     p_jwt_issuer = ''yg'', p_created_at = 0\<rparr>"
  have "sign_license_jwt kek_env epoch_us ?p ''l1'' ''i1'' ''pro'' 5 (JDict []) (epoch_us + 5 * day_us)
     = Inr (''jwt:pem'', epoch_us + 5 * day_us)" by code_simp
  from jwt_expiry_capped[OF this] show ?thesis by (elim exE conjE) (intro exI conjI, simp_all)
qed

end
