(* ===== verification/Webhooks.thy ===== *)
theory Webhooks
  imports Security Signing
begin

text \<open>
  Outbound webhooks (\<^verbatim>\<open>app/webhooks.py\<close>): the signature, one pinned and signed POST, the
  durable queue with its back-off schedule, and the attempt in a session of its own. A call
  that lets an exception escape has sent nothing. The texts of error messages that come
  from libraries are fixed strings.
\<close>

definition EVENT_STATUS_CHANGED :: string where "EVENT_STATUS_CHANGED = ''license.status.changed''"
definition EVENT_DELETED :: string where "EVENT_DELETED = ''license.deleted''"
definition EVENT_UPDATED :: string where "EVENT_UPDATED = ''license.updated''"

definition backoff_schedule :: "int list" where
  "backoff_schedule = [minute_us, 5 * minute_us, 30 * minute_us, 2 * hour_us, 12 * hour_us, 24 * hour_us]"

definition max_attempts :: nat where
  "max_attempts = length backoff_schedule + 1"

section \<open>Sending\<close>

definition generate_secret :: "env \<Rightarrow> session \<Rightarrow> string \<times> session" where
  "generate_secret E s = (let (t, s1) = draw (token_urlsafe E) s in (''whsec_'' @ t, s1))"

definition sign :: "env \<Rightarrow> string \<Rightarrow> int \<Rightarrow> string \<Rightarrow> string" where
  "sign E secret ts body = hmac_sha256 E secret (show_int ts @ ''.'' @ body)"

definition webhook_body :: "string \<Rightarrow> string \<Rightarrow> int \<Rightarrow> json \<Rightarrow> string" where
  "webhook_body event_id event_type ts data = dumps_compact (JDict [
     (''id'', JStr event_id), (''type'', JStr event_type), (''created_at'', JInt ts), (''data'', data)])"

definition webhook_headers :: "env \<Rightarrow> string \<Rightarrow> string \<Rightarrow> string \<Rightarrow> int \<Rightarrow> string \<Rightarrow> string \<Rightarrow> (string \<times> string) list" where
  "webhook_headers E secret event_id event_type ts body host = [
     (''Content-Type'', ''application/json''),
     (''X-License-Server-Event'', event_type),
     (''X-License-Server-Event-Id'', event_id),
     (''X-License-Server-Signature'', ''t='' @ show_int ts @ '',v1='' @ sign E secret ts body),
     (''Host'', host)]"

definition pinned_url :: "string \<Rightarrow> string \<Rightarrow> int \<Rightarrow> split_url \<Rightarrow> string" where
  "pinned_url scheme ip port parts =
     (let ip_for_url = (if CHR '':'' \<in> set ip then ''['' @ ip @ '']'' else ip);
          u = scheme @ ''://'' @ ip_for_url @ '':'' @ show_int port
            @ (if u_path parts = [] then ''/'' else u_path parts)
      in if u_query parts \<noteq> [] then u @ ''?'' @ u_query parts else u)"

text \<open>The outcome of a delivery: \<open>(ok, status, error)\<close>.\<close>

type_synonym outcome = "bool \<times> int option \<times> string option"

definition http_outcome :: "http_result \<Rightarrow> outcome res" where
  "http_outcome r = (case r of
      HttpError e \<Rightarrow> Inr (False, None, Some e)
    | HttpRaise e \<Rightarrow> Inl e
    | Response status txt \<Rightarrow>
        if 200 \<le> status \<and> status < 300 then Inr (True, Some status, None)
        else Inr (False, Some status, Some (take 200 txt)))"

definition post :: "env \<Rightarrow> http_request \<Rightarrow> session \<Rightarrow> (outcome \<times> session) res" where
  "post E req s = rbind (http_outcome (http_post E (length (outbox s)) req))
     (\<lambda>r. Inr (r, s\<lparr>outbox := outbox s @ [req]\<rparr>))"

definition or_uuid :: "env \<Rightarrow> string option \<Rightarrow> session \<Rightarrow> string \<times> session" where
  "or_uuid E event_id s = (case event_id of Some i \<Rightarrow> (i, s) | None \<Rightarrow> fresh_id E s)"

definition deliver ::
  "env \<Rightarrow> string \<Rightarrow> string \<Rightarrow> string \<Rightarrow> json \<Rightarrow> string option \<Rightarrow> int option \<Rightarrow> bool \<Rightarrow> session
    \<Rightarrow> (outcome \<times> session) res" where
  "deliver E url secret event_type data event_id tstamp allow_http s =
    (if \<not> is_safe_url_shape url allow_http then Inr ((False, None, Some ''refused:unsafe_url_shape''), s)
     else rbind (resolve_safe_address E url allow_http s) (\<lambda>(resolved, s1).
       case resolved of
         None \<Rightarrow> Inr ((False, None, Some ''refused:unsafe_url''), s1)
       | Some (ip, port, scheme, host) \<Rightarrow>
           let (eid, s2) = or_uuid E event_id s1;
               ts = (case tstamp of Some t \<Rightarrow> t | None \<Rightarrow> timestamp (now s2));
               body = webhook_body eid event_type ts data
           in rbind (urlsplit url) (\<lambda>parts.
              post E \<lparr>rq_url = pinned_url scheme ip port parts,
                      rq_headers = webhook_headers E secret eid event_type ts body host,
                      rq_body = body, rq_sni = Some host\<rparr> s2)))"

section \<open>The unqueued helpers\<close>

definition license_refs :: "'a tables_scheme \<Rightarrow> license \<Rightarrow> (string \<times> json) list" where
  "license_refs t lic = [
     (''license_id'', JStr (l_id lic)), (''license_key'', JStr (l_key lic)), (''key'', JStr (l_key lic)),
     (''product_slug'', jopt (map_option p_slug (product_of t lic))),
     (''customer_email'', jopt (map_option c_email (customer_of t lic)))]"

definition has_webhook :: "license \<Rightarrow> bool" where
  "has_webhook lic \<longleftrightarrow> truthy (l_webhook_url lic) \<and> truthy (l_webhook_secret lic)"

definition deliver_license :: "env \<Rightarrow> license \<Rightarrow> string \<Rightarrow> json \<Rightarrow> session \<Rightarrow> (outcome option \<times> session) res" where
  "deliver_license E lic event_type data s = (case (l_webhook_url lic, l_webhook_secret lic) of
      (Some u, Some k) \<Rightarrow>
        if u = [] \<or> k = [] then Inr (None, s)
        else rbind (deliver E u k event_type data None None (l_allow_http_webhook lic) s)
          (\<lambda>(r, s'). Inr (Some r, s'))
    | _ \<Rightarrow> Inr (None, s))"

definition deliver_status_change :: "env \<Rightarrow> license \<Rightarrow> string \<Rightarrow> session \<Rightarrow> (outcome option \<times> session) res" where
  "deliver_status_change E lic previous_status s = deliver_license E lic EVENT_STATUS_CHANGED
     (JDict (license_refs s lic @ [(''previous_status'', JStr previous_status),
        (''current_status'', JStr (status_text (l_status lic)))])) s"

definition deliver_update :: "env \<Rightarrow> license \<Rightarrow> string list \<Rightarrow> session \<Rightarrow> (outcome option \<times> session) res" where
  "deliver_update E lic changed_fields s = deliver_license E lic EVENT_UPDATED
     (JDict (license_refs s lic @ [(''status'', JStr (status_text (l_status lic))),
        (''changed_fields'', JList (map JStr changed_fields))])) s"

definition deliver_deleted ::
  "env \<Rightarrow> string \<Rightarrow> string \<Rightarrow> string \<Rightarrow> string \<Rightarrow> string \<Rightarrow> string \<Rightarrow> session \<Rightarrow> (outcome \<times> session) res" where
  "deliver_deleted E license_id key product_slug customer_email url secret s =
     deliver E url secret EVENT_DELETED
       (JDict [(''license_id'', JStr license_id), (''license_key'', JStr key), (''key'', JStr key),
          (''product_slug'', JStr product_slug), (''customer_email'', JStr customer_email)])
       None None (starts_with ''http://'' url) s"

section \<open>The queue\<close>

definition new_delivery ::
  "uid \<Rightarrow> datetime \<Rightarrow> string \<Rightarrow> string \<Rightarrow> string \<Rightarrow> json \<Rightarrow> uid option \<Rightarrow> uid option \<Rightarrow> delivery" where
  "new_delivery i t url secret event_type data lid pid = \<lparr>d_id = i, d_license_id = lid,
     d_product_id = pid, d_url = url, d_secret = secret, d_event_type = event_type,
     d_payload_json = dumps_compact data, d_attempts = 0, d_status = Pending,
     d_next_attempt_at = t, d_last_attempt_at = None, d_delivered_at = None, d_last_error = None,
     d_response_status = None, d_response_excerpt = None, d_created_at = t\<rparr>"

definition enqueue ::
  "env \<Rightarrow> string \<Rightarrow> string \<Rightarrow> string \<Rightarrow> json \<Rightarrow> uid option \<Rightarrow> uid option \<Rightarrow> session \<Rightarrow> (delivery \<times> session) res" where
  "enqueue E url secret event_type data lid pid s = (let (i, s1) = fresh_id E s;
       d = new_delivery i (now s) url secret event_type data lid pid
     in rbind (flush E (s1\<lparr>deliveries := deliveries s1 @ [d]\<rparr>)) (\<lambda>s2. Inr (d, s2)))"

text \<open>What one attempt's outcome does to the row.\<close>

definition clip :: "nat \<Rightarrow> string option \<Rightarrow> string \<Rightarrow> string" where
  "clip n err d = take n (if truthy err then the err else d)"

definition record_attempt :: "datetime \<Rightarrow> outcome \<Rightarrow> delivery \<Rightarrow> (bool \<times> delivery) res" where
  "record_attempt t r d0 = (let (ok, status, err) = r;
     d = d0\<lparr>d_attempts := Suc (d_attempts d0), d_last_attempt_at := Some t,
            d_response_status := status,
            d_response_excerpt := (if status \<noteq> None then or_none (clip 500 err '''') else None)\<rparr>
     in if ok then Inr (True, d\<lparr>d_status := Delivered, d_delivered_at := Some t, d_last_error := None\<rparr>)
        else let d = d\<lparr>d_last_error := Some (clip 500 err ''(no detail)'')\<rparr> in
          if d_attempts d \<ge> max_attempts then Inr (False, d\<lparr>d_status := Abandoned\<rparr>)
          else rbind (add_delta t (backoff_schedule ! (d_attempts d - 1)))
            (\<lambda>u. Inr (False, d\<lparr>d_next_attempt_at := u\<rparr>)))"

definition delivery_allows_http :: "delivery \<Rightarrow> session \<Rightarrow> bool res" where
  "delivery_allows_http d s = (if truthy (d_license_id d) then
       rbind (one_or_none (\<lambda>l. Some (l_id l) = d_license_id d) (licenses s)) (\<lambda>lic. case lic of
           Some l \<Rightarrow> Inr (l_allow_http_webhook l)
         | None \<Rightarrow> Inr (starts_with ''http://'' (d_url d)))
     else Inr (starts_with ''http://'' (d_url d)))"

definition try_deliver :: "env \<Rightarrow> uid \<Rightarrow> session \<Rightarrow> (bool \<times> session) res" where
  "try_deliver E delivery_id s =
     rbind (one_or_none (\<lambda>d. d_id d = delivery_id) (deliveries s)) (\<lambda>row. case row of
        None \<Rightarrow> Inr (False, s)
      | Some d \<Rightarrow>
          if d_status d \<noteq> Pending then Inr (False, s)
          else (case loads (d_payload_json d) of
              Inl e \<Rightarrow> Inr (False, put_delivery (d\<lparr>d_status := Abandoned,
                                   d_last_error := Some ''payload_decode''\<rparr>) s)
            | Inr data \<Rightarrow>
                rbind (delivery_allows_http d s) (\<lambda>allow_http.
                rbind (deliver E (d_url d) (d_secret d) (d_event_type d) data (Some (d_id d)) None
                         allow_http s) (\<lambda>(r, s1).
                rbind (record_attempt (now s1) r d) (\<lambda>(ok, d').
                Inr (ok, put_delivery d' s1))))))"

definition attempt_in_fresh_session :: "env \<Rightarrow> uid \<Rightarrow> session \<Rightarrow> bool \<times> session" where
  "attempt_in_fresh_session E delivery_id s = (case try_deliver E delivery_id s of
      Inl e \<Rightarrow> (False, s)
    | Inr (ok, s1) \<Rightarrow> (case commit E s1 of
        Inl e \<Rightarrow> (False, rollback s s1)
      | Inr s2 \<Rightarrow> (ok, s2)))"

end
