(* ===== verification/Machine.thy ===== *)
theory Machine
  imports Main
begin

text \<open>
  The interfaces shared by the components that are state machines: a step relation with an
  invariant that its initial states have and its steps keep, and one whose steps also
  decrease a rank, so that every run is finite and bounded. The delivery queue, the second
  factor enrolment and the database as a whole are instances.
\<close>

locale machine =
  fixes initial :: "'s \<Rightarrow> bool"
    and step :: "'s \<Rightarrow> 's \<Rightarrow> bool"
    and inv :: "'s \<Rightarrow> bool"
  assumes inv_initial: "initial s \<Longrightarrow> inv s"
    and inv_step: "inv s \<Longrightarrow> step s t \<Longrightarrow> inv t"
begin

lemma inv_run:
  assumes "step\<^sup>*\<^sup>* s t" and "inv s"
  shows "inv t"
  using assms by (induction rule: rtranclp_induct) (auto intro: inv_step)

lemma inv_reachable: "initial s \<Longrightarrow> step\<^sup>*\<^sup>* s t \<Longrightarrow> inv t"
  using inv_initial inv_run by blast

end

locale ranked_machine = machine +
  fixes rank :: "'s \<Rightarrow> nat"
  assumes rank_step: "inv s \<Longrightarrow> step s t \<Longrightarrow> rank t < rank s"
begin

lemma run_length: "(step ^^ n) s t \<Longrightarrow> inv s \<Longrightarrow> n + rank t \<le> rank s"
proof (induction n arbitrary: t)
  case (Suc n)
  then obtain u where u: "(step ^^ n) s u" and st: "step u t" by auto
  have "inv u" using inv_run[OF relpowp_imp_rtranclp[OF u] Suc.prems(2)] .
  with Suc.IH[OF u Suc.prems(2)] rank_step[OF _ st] show ?case by fastforce
qed simp

text \<open>Every run comes to a state that takes no further step.\<close>

lemma run_ends: "inv s \<Longrightarrow> \<exists>t. step\<^sup>*\<^sup>* s t \<and> \<not> (\<exists>u. step t u)"
proof (induction "rank s" arbitrary: s rule: less_induct)
  case less
  show ?case
  proof (cases "\<exists>u. step s u")
    case True
    then obtain u where u: "step s u" by blast
    with less.prems have "rank u < rank s" and "inv u" by (auto intro: rank_step inv_step)
    with less.hyps obtain t where "step\<^sup>*\<^sup>* u t" "\<not> (\<exists>v. step t v)" by blast
    with u show ?thesis by (blast intro: converse_rtranclp_into_rtranclp)
  qed blast
qed

end

end
