(* ===== verification/Delivery.thy ===== *)
theory Delivery
  imports Webhooks Machine JsonRoundtrip
begin

text \<open>
  The delivery queue as a machine. Three programs move a row: the attempt after a commit,
  the retry worker (\<^verbatim>\<open>app/scripts/retry_webhooks.py\<close>) and the administrator's retry button
  (\<^verbatim>\<open>app/routers/admin_ui/webhook_deliveries.py\<close>). The step relation \<open>attempt_step\<close> is what one
  attempt may do to a row; the theory shows that \<open>try_deliver\<close> refines it, that a row is
  attempted at most seven times, and that the requests the queue sends go to checked
  addresses only.
\<close>

section \<open>The worker and the button\<close>

definition due :: "datetime \<Rightarrow> delivery \<Rightarrow> bool" where
  "due t d \<longleftrightarrow> d_status d = Pending \<and> d_next_attempt_at d \<le> t"

text \<open>\<open>LIMIT n\<close>: a negative limit is no limit.\<close>

definition sql_limit :: "int \<Rightarrow> 'a list \<Rightarrow> 'a list" where
  "sql_limit n xs = (if n < 0 then xs else take (nat n) xs)"

definition due_deliveries :: "int \<Rightarrow> session \<Rightarrow> delivery list" where
  "due_deliveries lim s = sql_limit lim (sort_key d_next_attempt_at (filter (due (now s)) (deliveries s)))"

text \<open>
  The loop of one pass. An exception ends the pass with exit code 1, keeping the rows
  committed before it.
\<close>

fun retry_loop :: "env \<Rightarrow> delivery list \<Rightarrow> session \<Rightarrow> int \<times> session" where
  "retry_loop E [] s = (0, s)"
| "retry_loop E (d # ds) s = (case try_deliver E (d_id d) s of
      Inl e \<Rightarrow> (1, s)
    | Inr (ok, s1) \<Rightarrow> (case commit E s1 of
        Inl e \<Rightarrow> (1, rollback s s1)
      | Inr s2 \<Rightarrow> retry_loop E ds s2))"

definition retry_run :: "env \<Rightarrow> int \<Rightarrow> session \<Rightarrow> int \<times> session" where
  "retry_run E lim s = retry_loop E (due_deliveries lim s) s"

definition retry_delivery :: "env \<Rightarrow> uid \<Rightarrow> session \<Rightarrow> (string \<times> session) res" where
  "retry_delivery E delivery_id s =
     rbind (one_or_none (\<lambda>d. d_id d = delivery_id) (deliveries s)) (\<lambda>row. case row of
        None \<Rightarrow> Inr (''/admin/webhook-deliveries?error=not_found'', s)
      | Some d \<Rightarrow>
          if d_event_type d = ''license.test'' then Inr (''/admin/webhook-deliveries?error=not_retryable'', s)
          else (let d1 = (if d_status d = Abandoned then d\<lparr>d_status := Pending, d_attempts := 0\<rparr> else d);
                    d2 = d1\<lparr>d_next_attempt_at := now s, d_last_error := None\<rparr>
            in rbind (commit E (put_delivery d2 s)) (\<lambda>s1.
               Inr (''/admin/webhook-deliveries?retried=1'', snd (attempt_in_fresh_session E (d_id d) s1)))))"

section \<open>What a delivery sends\<close>

text \<open>
  A request goes to the checked address of the URL's host and port, carries that host in its
  headers and its TLS name, and signs its body, which is the event's identifier, type and data.
\<close>

definition pinned_request :: "env \<Rightarrow> string \<Rightarrow> string \<Rightarrow> string \<Rightarrow> string \<Rightarrow> json \<Rightarrow> http_request \<Rightarrow> bool" where
  "pinned_request E url secret eid ty data req \<longleftrightarrow> (\<exists>ip p host parts n ts. let port = effective_port parts p in
     urlsplit url = Inr parts \<and> hostname parts = Some host \<and> url_port parts = Inr p
     \<and> \<not> ip_is_private ip \<and> address_source E n host port ip
     \<and> rq_url req = pinned_url (u_scheme parts) ip port parts \<and> rq_sni req = Some host
     \<and> rq_body req = webhook_body eid ty ts data
     \<and> rq_headers req = webhook_headers E secret eid ty ts (rq_body req) host)"

lemma resolve_safe_address_port:
  assumes "resolve_safe_address E url allow s = Inr (Some (ip, port, sch, host), s')" and "urlsplit url = Inr parts"
  shows "\<exists>p. url_port parts = Inr p \<and> port = effective_port parts p"
proof -
  from assms obtain h p where "url_port parts = Inr p"
    and "pin_address E h (effective_port parts p) (u_scheme parts) s = Inr (Some (ip, port, sch, host), s')"
    by (auto simp: resolve_safe_address_def rbind_Inr_iff split: option.splits if_splits)
  with pin_address_Some show ?thesis by fastforce
qed

lemma post_Inr:
  "post E req s = Inr (r, s') \<longleftrightarrow> http_outcome (http_post E (length (outbox s)) req) = Inr r
     \<and> s' = s\<lparr>outbox := outbox s @ [req]\<rparr>"
  by (cases "http_outcome (http_post E (length (outbox s)) req)") (auto simp: post_def)

lemma or_uuid_frame: "or_uuid E e s = (i, s') \<Longrightarrow> \<exists>k. s' = s\<lparr>n_uuid := k\<rparr>"
  by (rule exI[of _ "n_uuid s'"]) (auto simp: or_uuid_def fresh_id_def split: option.splits)

lemma deliver_cases:
  assumes "deliver E url secret ty data eid ts allow s = Inr (r, s')"
  obtains (refused) k where "\<not> fst r" "fst (snd r) = None" "s' = s\<lparr>n_dns := k\<rparr>"
  | (sent) req k m i where "pinned_request E url secret i ty data req" "\<And>x. eid = Some x \<Longrightarrow> i = x"
      "s' = s\<lparr>n_dns := k, n_uuid := m, outbox := outbox s @ [req]\<rparr>"
      "http_outcome (http_post E (length (outbox s)) req) = Inr r" "is_safe_url_shape url allow"
proof (cases "is_safe_url_shape url allow")
  case False
  with assms have "r = (False, None, Some ''refused:unsafe_url_shape'')" "s' = s"
    by (simp_all add: deliver_def)
  then show thesis using refused[of "n_dns s"] by simp
next
  case True
  with assms obtain t s1 where t: "resolve_safe_address E url allow s = Inr (t, s1)"
    by (auto simp: deliver_def rbind_Inr_iff)
  obtain k where s1: "s1 = s\<lparr>n_dns := k\<rparr>"
    using resolve_safe_address_state[OF t] by blast
  show thesis
  proof (cases t)
    case None
    with assms True t have "r = (False, None, Some ''refused:unsafe_url'')" "s' = s1"
      by (simp_all add: deliver_def)
    with s1 show thesis using refused[of k] by simp
  next
    case (Some tt)
    obtain ip port scheme host where tt: "tt = (ip, port, scheme, host)" by (cases tt)
    obtain i s2 where i: "or_uuid E eid s1 = (i, s2)" by fastforce
    define m where "m = (case ts of Some t \<Rightarrow> t | None \<Rightarrow> timestamp (now s2))"
    define body where "body = webhook_body i ty m data"
    from assms True t Some tt i obtain parts where parts: "urlsplit url = Inr parts"
      and p: "post E \<lparr>rq_url = pinned_url scheme ip port parts,
         rq_headers = webhook_headers E secret i ty m body host, rq_body = body, rq_sni = Some host\<rparr> s2
         = Inr (r, s')" (is "post E ?req s2 = _")
      by (auto simp: deliver_def rbind_Inr_iff m_def body_def Let_def)
    note safe = resolve_safe_address_Some[OF t[unfolded Some tt]]
    have "pinned_request E url secret i ty data ?req"
      using safe parts resolve_safe_address_port[OF t[unfolded Some tt] parts]
      by (simp add: pinned_request_def body_def Let_def) blast
    moreover have "\<And>x. eid = Some x \<Longrightarrow> i = x" using i by (simp add: or_uuid_def)
    moreover obtain k' where "s2 = s\<lparr>n_dns := k, n_uuid := k'\<rparr>"
      using s1 or_uuid_frame[OF i] by auto
    ultimately show thesis using sent[of i ?req k' k] p True by (simp add: post_Inr)
  qed
qed

section \<open>The machine of one row\<close>

inductive attempt_step :: "delivery \<Rightarrow> delivery \<Rightarrow> bool" where
  poison: "d_status d = Pending \<Longrightarrow> loads (d_payload_json d) = Inl e \<Longrightarrow>
    attempt_step d (d\<lparr>d_status := Abandoned, d_last_error := Some ''payload_decode''\<rparr>)"
| delivered: "d_status d = Pending \<Longrightarrow> 200 \<le> st \<Longrightarrow> st < 300 \<Longrightarrow>
    attempt_step d (d\<lparr>d_attempts := Suc (d_attempts d), d_last_attempt_at := Some t,
      d_response_status := Some st, d_response_excerpt := None, d_status := Delivered,
      d_delivered_at := Some t, d_last_error := None\<rparr>)"
| retry: "d_status d = Pending \<Longrightarrow> Suc (d_attempts d) < max_attempts \<Longrightarrow> length err \<le> 500 \<Longrightarrow>
    (\<And>x. ex = Some x \<Longrightarrow> st \<noteq> None \<and> length x \<le> 500) \<Longrightarrow>
    attempt_step d (d\<lparr>d_attempts := Suc (d_attempts d), d_last_attempt_at := Some t,
      d_response_status := st, d_response_excerpt := ex, d_last_error := Some err,
      d_next_attempt_at := t + backoff_schedule ! d_attempts d\<rparr>)"
| abandon: "d_status d = Pending \<Longrightarrow> max_attempts \<le> Suc (d_attempts d) \<Longrightarrow> length err \<le> 500 \<Longrightarrow>
    (\<And>x. ex = Some x \<Longrightarrow> st \<noteq> None \<and> length x \<le> 500) \<Longrightarrow>
    attempt_step d (d\<lparr>d_attempts := Suc (d_attempts d), d_last_attempt_at := Some t,
      d_response_status := st, d_response_excerpt := ex, d_last_error := Some err,
      d_status := Abandoned\<rparr>)"

inductive_cases attempt_stepE: "attempt_step d d'"

definition delivery_inv :: "delivery \<Rightarrow> bool" where
  "delivery_inv d \<longleftrightarrow> d_attempts d \<le> max_attempts \<and>
     (d_status d = Pending \<longrightarrow> d_attempts d < max_attempts) \<and>
     (d_status d = Delivered \<longrightarrow> 1 \<le> d_attempts d \<and> d_delivered_at d \<noteq> None)"

definition attempts_left :: "delivery \<Rightarrow> nat" where
  "attempts_left d = (if d_status d = Pending then max_attempts - d_attempts d else 0)"

definition queued :: "delivery \<Rightarrow> bool" where
  "queued d \<longleftrightarrow> d_status d = Pending \<and> d_attempts d = 0"

interpretation queue: ranked_machine queued attempt_step delivery_inv attempts_left
proof
  show "delivery_inv d" if "queued d" for d
    using that by (simp add: queued_def delivery_inv_def max_attempts_def)
  show "delivery_inv d'" if "delivery_inv d" "attempt_step d d'" for d d'
    using that(2,1) by (cases rule: attempt_step.cases) (auto simp: delivery_inv_def)
  show "attempts_left d' < attempts_left d" if "delivery_inv d" "attempt_step d d'" for d d'
    using that(2,1) by (cases rule: attempt_step.cases) (auto simp: delivery_inv_def attempts_left_def)
qed

lemma attempt_step_pending: "attempt_step d d' \<Longrightarrow> d_status d = Pending"
  by (auto elim: attempt_stepE)

lemma attempt_step_fixed: "attempt_step d d' \<Longrightarrow> d_id d' = d_id d \<and> d_url d' = d_url d
    \<and> d_secret d' = d_secret d \<and> d_event_type d' = d_event_type d
    \<and> d_payload_json d' = d_payload_json d \<and> d_license_id d' = d_license_id d"
  by (auto elim: attempt_stepE)

section \<open>Attempts refine the machine\<close>

lemma clip_length: "length (clip n e d) \<le> n"
  by (simp add: clip_def)

lemma deliver_outcome:
  assumes "deliver E url secret ty data eid ts allow s = Inr ((ok, st, err), s')"
  shows "ok \<Longrightarrow> \<exists>n. st = Some n \<and> 200 \<le> n \<and> n < 300 \<and> err = None"
  using assms by (cases rule: deliver_cases) (auto simp: http_outcome_def split: http_result.splits if_splits)

lemma record_attempt_step:
  assumes r: "record_attempt t (ok, st, err) d = Inr (ok', d')" and p: "d_status d = Pending"
    and ok: "ok \<Longrightarrow> \<exists>n. st = Some n \<and> 200 \<le> n \<and> n < 300 \<and> err = None"
  shows "attempt_step d d' \<and> ok' = ok \<and> ok' = (d_status d' = Delivered)"
proof (cases ok)
  case True
  with ok obtain n where "st = Some n" "200 \<le> n" "n < 300" "err = None" by auto
  with r True delivered[OF p, of n t] show ?thesis
    by (auto simp: record_attempt_def clip_def or_none_def)
next
  case False
  define ex where "ex = (if st \<noteq> None then or_none (clip 500 err '''') else None)"
  have ex: "\<And>x. ex = Some x \<Longrightarrow> st \<noteq> None \<and> length x \<le> 500"
    using clip_length by (auto simp: ex_def split: if_splits)
  show ?thesis
  proof (cases "max_attempts \<le> Suc (d_attempts d)")
    case True
    have d': "d' = d\<lparr>d_attempts := Suc (d_attempts d), d_last_attempt_at := Some t,
        d_response_status := st, d_response_excerpt := ex,
        d_last_error := Some (clip 500 err ''(no detail)''), d_status := Abandoned\<rparr>" and n: "\<not> ok'"
      using r False True by (simp_all add: record_attempt_def ex_def Let_def)
    have "attempt_step d d'" unfolding d' by (rule abandon[OF p True clip_length ex])
    with d' n False show ?thesis by simp
  next
    case nab: False
    then have l: "Suc (d_attempts d) < max_attempts" by simp
    have d': "d' = d\<lparr>d_attempts := Suc (d_attempts d), d_last_attempt_at := Some t,
        d_response_status := st, d_response_excerpt := ex,
        d_last_error := Some (clip 500 err ''(no detail)''),
        d_next_attempt_at := t + backoff_schedule ! d_attempts d\<rparr>" and n: "\<not> ok'"
      using r False nab by (auto simp: record_attempt_def ex_def Let_def rbind_Inr_iff add_delta_Inr)
    have "attempt_step d d'" unfolding d' by (rule retry[OF p l clip_length ex])
    with d' n p False show ?thesis by simp
  qed
qed

text \<open>
  One call of \<open>try_deliver\<close>: nothing, or one step of one pending row, all else in the
  database unchanged, with at most one request, to that row's receiver.
\<close>

definition session_extras :: "session \<Rightarrow> session \<Rightarrow> session" where
  "session_extras s' s = s\<lparr>n_dns := n_dns s', n_uuid := n_uuid s', outbox := outbox s'\<rparr>"

lemma session_extras_self [simp]: "session_extras s s = s"
  by (simp add: session_extras_def)

definition row_request :: "env \<Rightarrow> delivery \<Rightarrow> http_request \<Rightarrow> bool" where
  "row_request E d req \<longleftrightarrow> (\<exists>data. loads (d_payload_json d) = Inr data
     \<and> pinned_request E (d_url d) (d_secret d) (d_id d) (d_event_type d) data req)"

definition row_requests :: "env \<Rightarrow> delivery \<Rightarrow> http_request list \<Rightarrow> bool" where
  "row_requests E d reqs \<longleftrightarrow> length reqs \<le> 1 \<and> (\<forall>req \<in> set reqs. row_request E d req)"

definition attempted :: "env \<Rightarrow> uid \<Rightarrow> session \<Rightarrow> bool \<Rightarrow> session \<Rightarrow> delivery \<Rightarrow> delivery \<Rightarrow> bool" where
  "attempted E i s ok s' d d' \<longleftrightarrow> d \<in> set (deliveries s) \<and> d_id d = i \<and> attempt_step d d'
     \<and> (\<forall>x \<in> set (deliveries s). d_id x = i \<longrightarrow> x = d)
     \<and> ok = (d_status d' = Delivered) \<and> s' = session_extras s' (put_delivery d' s)
     \<and> (\<exists>reqs. outbox s' = outbox s @ reqs \<and> row_requests E d reqs)"

lemma try_deliver_refines:
  assumes "try_deliver E i s = Inr (ok, s')"
  shows "(s' = s \<and> \<not> ok \<and> (\<forall>d \<in> set (deliveries s). d_id d = i \<longrightarrow> d_status d \<noteq> Pending)) \<or>
    (\<exists>d d'. attempted E i s ok s' d d')"
proof -
  from assms obtain row where row: "one_or_none (\<lambda>d. d_id d = i) (deliveries s) = Inr row"
    by (auto simp: try_deliver_def rbind_Inr_iff)
  show ?thesis
  proof (cases row)
    case None
    with assms row show ?thesis by (auto simp: try_deliver_def one_or_none_None)
  next
    case (Some d)
    note d = one_or_none_SomeD[OF row[unfolded Some]]
    have u: "\<forall>x \<in> set (deliveries s). d_id x = i \<longrightarrow> x = d" using d(3) by blast
    show ?thesis
    proof (cases "d_status d = Pending")
      case False
      with assms row Some have "s' = s" "\<not> ok" by (simp_all add: try_deliver_def)
      with False d show ?thesis by blast
    next
      case p: True
      show ?thesis
      proof (cases "loads (d_payload_json d)")
        case (Inl e)
        let ?d = "d\<lparr>d_status := Abandoned, d_last_error := Some ''payload_decode''\<rparr>"
        from assms row Some p Inl have ok: "\<not> ok" and s': "s' = put_delivery ?d s"
          by (simp_all add: try_deliver_def)
        have "ok = (d_status ?d = Delivered)" using ok by simp
        moreover have "s' = session_extras s' (put_delivery ?d s)" by (simp add: s')
        moreover have "\<exists>reqs. outbox s' = outbox s @ reqs \<and> row_requests E d reqs"
          by (simp add: s' row_requests_def put_delivery_def)
        ultimately have "attempted E i s ok s' d ?d"
          unfolding attempted_def using poison[OF p Inl] u d(1,2) by blast
        then show ?thesis by blast
      next
        case (Inr data)
        with assms row Some p obtain allow r s1 d' where
          del: "deliver E (d_url d) (d_secret d) (d_event_type d) data (Some (d_id d)) None allow s
             = Inr (r, s1)" and rec: "record_attempt (now s1) r d = Inr (ok, d')"
          and s': "s' = put_delivery d' s1"
          by (auto simp: try_deliver_def rbind_Inr_iff)
        obtain ok' st err where r: "r = (ok', st, err)" by (cases r)
        note st = record_attempt_step[OF rec[unfolded r] p deliver_outcome[OF del[unfolded r]]]
        from del have "s' = session_extras s' (put_delivery d' s)
            \<and> (\<exists>reqs. outbox s' = outbox s @ reqs \<and> row_requests E d reqs)"
          by (cases rule: deliver_cases)
            (auto simp: s' session_extras_def put_delivery_def row_requests_def row_request_def Inr)
        with st u d(1,2) have "attempted E i s ok s' d d'" unfolding attempted_def by blast
        then show ?thesis by blast
      qed
    qed
  qed
qed

section \<open>Passes over the queue\<close>

text \<open>
  What any number of attempts does to the database: rows move by steps of the machine, the
  other tables stay, and every request is one of a row of the queue, to its own receiver.
\<close>

definition same_data :: "session \<Rightarrow> session \<Rightarrow> bool" where
  "same_data s s' \<longleftrightarrow> licenses s' = licenses s \<and> products s' = products s \<and> customers s' = customers s
     \<and> presets s' = presets s \<and> installs s' = installs s \<and> stripe_events s' = stripe_events s
     \<and> mfa_row s' = mfa_row s \<and> now s' = now s"

definition queue_run :: "env \<Rightarrow> session \<Rightarrow> session \<Rightarrow> bool" where
  "queue_run E s s' \<longleftrightarrow> list_all2 attempt_step\<^sup>*\<^sup>* (deliveries s) (deliveries s')
     \<and> (\<exists>reqs. outbox s' = outbox s @ reqs
          \<and> (\<forall>req \<in> set reqs. \<exists>d \<in> set (deliveries s). row_request E d req))
     \<and> same_data s s'"

lemma same_data_trans: "same_data s t \<Longrightarrow> same_data t u \<Longrightarrow> same_data s u"
  by (simp add: same_data_def)

lemma queue_run_refl: "queue_run E s s"
  by (auto simp: queue_run_def same_data_def list_all2_conv_all_nth)

lemma attempt_steps_fixed: "attempt_step\<^sup>*\<^sup>* d d' \<Longrightarrow> d_id d' = d_id d \<and> d_url d' = d_url d
    \<and> d_secret d' = d_secret d \<and> d_event_type d' = d_event_type d
    \<and> d_payload_json d' = d_payload_json d \<and> d_license_id d' = d_license_id d"
  by (induction rule: rtranclp_induct) (auto dest: attempt_step_fixed)

lemma row_request_steps: "attempt_step\<^sup>*\<^sup>* d d' \<Longrightarrow> row_request E d' req \<Longrightarrow> row_request E d req"
  by (auto dest!: attempt_steps_fixed simp: row_request_def)

lemma queue_run_trans:
  assumes "queue_run E s t" and "queue_run E t u"
  shows "queue_run E s u"
proof -
  have l: "list_all2 attempt_step\<^sup>*\<^sup>* (deliveries s) (deliveries t)"
    "list_all2 attempt_step\<^sup>*\<^sup>* (deliveries t) (deliveries u)" using assms by (auto simp: queue_run_def)
  then have lu: "list_all2 attempt_step\<^sup>*\<^sup>* (deliveries s) (deliveries u)"
    by (rule list_all2_trans[rotated]) (rule rtranclp_trans)
  have "\<exists>d \<in> set (deliveries s). row_request E d req"
    if d: "d \<in> set (deliveries t)" "row_request E d req" for d req
  proof -
    obtain d0 where "d0 \<in> set (deliveries s)" "attempt_step\<^sup>*\<^sup>* d0 d"
      using list_all2_setD2[OF l(1) d(1)] by blast
    with d(2) show ?thesis by (blast intro: row_request_steps)
  qed
  moreover obtain xs ys where "outbox t = outbox s @ xs" "outbox u = outbox t @ ys"
    "\<forall>req \<in> set xs. \<exists>d \<in> set (deliveries s). row_request E d req"
    "\<forall>req \<in> set ys. \<exists>d \<in> set (deliveries t). row_request E d req"
    using assms unfolding queue_run_def by blast
  ultimately have "\<exists>reqs. outbox u = outbox s @ reqs
      \<and> (\<forall>req \<in> set reqs. \<exists>d \<in> set (deliveries s). row_request E d req)"
    by (intro exI[of _ "xs @ ys"]) (simp only: append_assoc set_append, blast)
  moreover have "same_data s u" using assms by (auto simp: queue_run_def intro: same_data_trans)
  ultimately show ?thesis using lu by (simp add: queue_run_def)
qed

lemma queue_run_inv:
  "queue_run E s s' \<Longrightarrow> \<forall>d \<in> set (deliveries s). delivery_inv d \<Longrightarrow> \<forall>d \<in> set (deliveries s'). delivery_inv d"
  using queue.inv_run by (auto simp: queue_run_def dest: list_all2_setD2)

lemma queue_run_attempted:
  assumes "attempted E i s ok s' d d'"
  shows "queue_run E s s'"
proof -
  have d: "d_id d = i" "attempt_step d d'" "\<forall>x \<in> set (deliveries s). d_id x = i \<longrightarrow> x = d"
    and s': "s' = session_extras s' (put_delivery d' s)" using assms by (auto simp: attempted_def)
  have i: "d_id d' = i" using d attempt_step_fixed by blast
  have "deliveries s' = update_where (\<lambda>x. d_id x = i) (\<lambda>_. d') (deliveries s)"
    using i by (subst s') (simp add: session_extras_def put_delivery_def)
  then have "list_all2 attempt_step\<^sup>*\<^sup>* (deliveries s) (deliveries s')"
    using d by (auto simp: update_where_def list_all2_conv_all_nth)
  moreover have "\<exists>reqs. outbox s' = outbox s @ reqs
      \<and> (\<forall>req \<in> set reqs. \<exists>d \<in> set (deliveries s). row_request E d req)"
    using assms unfolding attempted_def row_requests_def by blast
  moreover have "same_data s s'"
    by (subst s') (simp add: same_data_def session_extras_def put_delivery_def)
  ultimately show ?thesis by (simp add: queue_run_def)
qed

lemma queue_run_try_deliver: "try_deliver E i s = Inr (ok, s') \<Longrightarrow> queue_run E s s'"
  by (drule try_deliver_refines) (auto intro: queue_run_refl queue_run_attempted)

lemma queue_run_commit: "queue_run E s s1 \<Longrightarrow> commit E s1 = Inr s2 \<Longrightarrow> queue_run E s s2"
  by (auto simp: commit_Inr queue_run_def same_data_def table_simps)

lemma queue_run_rollback: "queue_run E s s1 \<Longrightarrow> queue_run E s (rollback s s1)"
  by (auto simp: queue_run_def same_data_def rollback_def list_all2_conv_all_nth)

lemma queue_run_fresh_session: "queue_run E s (snd (attempt_in_fresh_session E i s))"
  by (auto simp: attempt_in_fresh_session_def split: sum.splits intro: queue_run_refl
      queue_run_rollback queue_run_commit dest: queue_run_try_deliver)

lemma queue_run_loop: "queue_run E s (snd (retry_loop E ds s))"
proof (induction ds arbitrary: s)
  case (Cons d ds)
  show ?case
  proof (cases "try_deliver E (d_id d) s")
    case (Inr r)
    obtain ok s1 where r: "r = (ok, s1)" by (cases r)
    with Inr have q: "queue_run E s s1" using queue_run_try_deliver by blast
    show ?thesis using Inr r q Cons.IH
      by (auto split: sum.splits intro: queue_run_rollback queue_run_trans[OF queue_run_commit])
  qed (simp add: queue_run_refl)
qed (simp add: queue_run_refl)

text \<open>
  A pass takes the rows in the order of the list: at most one request each, in that order.
\<close>

lemma try_deliver_requests:
  assumes "try_deliver E (d_id d) s = Inr (ok, s')" and "d0 \<in> set (deliveries s)" and "d_id d0 = d_id d"
    and "attempt_step\<^sup>*\<^sup>* d d0"
  shows "outbox s' = outbox s \<or> (\<exists>req. outbox s' = outbox s @ [req] \<and> row_request E d req)"
  using try_deliver_refines[OF assms(1)]
proof
  assume "\<exists>x x'. attempted E (d_id d) s ok s' x x'"
  then obtain x x' where a: "attempted E (d_id d) s ok s' x x'" by blast
  have x: "x = d0" using a assms(2,3) unfolding attempted_def by blast
  obtain reqs where r: "outbox s' = outbox s @ reqs" "length reqs \<le> 1" "\<forall>req \<in> set reqs. row_request E x req"
    using a unfolding attempted_def row_requests_def by blast
  show ?thesis
  proof (cases reqs)
    case (Cons req rest)
    then have "rest = []" using r(2) by simp
    with Cons r x row_request_steps[OF assms(4)] show ?thesis by simp
  qed (use r in simp)
qed simp

lemma retry_loop_requests:
  assumes "set ds \<subseteq> set (deliveries s0)" and "list_all2 attempt_step\<^sup>*\<^sup>* (deliveries s0) (deliveries s)"
  shows "\<exists>es reqs. es \<in> set (subseqs ds) \<and> outbox (snd (retry_loop E ds s)) = outbox s @ reqs \<and> list_all2 (row_request E) es reqs"
  using assms
proof (induction ds arbitrary: s)
  case (Cons d ds)
  have nil: "[] \<in> set (subseqs xs)" for xs :: "delivery list" by (induction xs) (simp_all add: Let_def)
  show ?case
  proof (cases "try_deliver E (d_id d) s")
    case (Inl e)
    with nil show ?thesis by (intro exI[of _ "[]"]) (simp add: Let_def)
  next
    case (Inr r)
    obtain ok s1 where r: "try_deliver E (d_id d) s = Inr (ok, s1)" using Inr by (cases r) simp
    obtain d0 where d0: "d0 \<in> set (deliveries s)" "attempt_step\<^sup>*\<^sup>* d d0"
      using Cons.prems by (force simp: list_all2_conv_all_nth in_set_conv_nth)
    have "outbox s1 = outbox s \<or> (\<exists>req. outbox s1 = outbox s @ [req] \<and> row_request E d req)"
      using try_deliver_requests[OF r d0(1) _ d0(2)] attempt_steps_fixed[OF d0(2)] by blast
    then obtain fs qs where f: "fs = [] \<or> fs = [d]" "outbox s1 = outbox s @ qs" "list_all2 (row_request E) fs qs" by force
    have sub: "fs @ es \<in> set (subseqs (d # ds))" if "es \<in> set (subseqs ds)" for es
      using f(1) that by (auto simp: Let_def)
    show ?thesis
    proof (cases "commit E s1")
      case (Inl e)
      with f r sub[OF nil] show ?thesis by (auto simp: rollback_def)
    next
      case (Inr s2)
      have "outbox s2 = outbox s1" using Inr by (auto simp: commit_Inr table_simps)
      have "queue_run E s s2" using queue_run_commit[OF queue_run_try_deliver[OF r] Inr] .
      then have "list_all2 attempt_step\<^sup>*\<^sup>* (deliveries s) (deliveries s2)" by (simp add: queue_run_def)
      with Cons.prems(2) have "list_all2 attempt_step\<^sup>*\<^sup>* (deliveries s0) (deliveries s2)"
        by (rule list_all2_trans[rotated]) (rule rtranclp_trans)
      with Cons.IH[of s2] Cons.prems(1) obtain es reqs where
        e: "es \<in> set (subseqs ds)" "outbox (snd (retry_loop E ds s2)) = outbox s2 @ reqs" "list_all2 (row_request E) es reqs" by auto
      have "list_all2 (row_request E) (fs @ es) (qs @ reqs)" using f(3) e(3) by (rule list_all2_appendI)
      moreover have "outbox (snd (retry_loop E (d # ds) s)) = outbox s @ qs @ reqs"
        using r Inr f(2) e(2) \<open>outbox s2 = outbox s1\<close> by simp
      ultimately show ?thesis using sub[OF e(1)] by blast
    qed
  qed
qed simp

lemma due_deliveries_set: "set (due_deliveries lim s) \<subseteq> {d \<in> set (deliveries s). due (now s) d}"
  by (auto simp: due_deliveries_def sql_limit_def dest: in_set_takeD)

section \<open>Properties of the queue\<close>

text \<open>Name resolution answers with numeric addresses.\<close>

definition dns_numeric :: "env \<Rightarrow> bool" where
  "dns_numeric E \<longleftrightarrow> (\<forall>n h p addrs. getaddrinfo E n h p = Addrs addrs \<longrightarrow> (\<forall>a \<in> set addrs. ip_address a \<noteq> None))"

definition public_address :: "string \<Rightarrow> bool" where
  "public_address ip \<longleftrightarrow> (\<exists>a. ip_address ip = Some a \<and> \<not> is_private a \<and> \<not> is_loopback a
     \<and> \<not> is_link_local a \<and> \<not> is_multicast a \<and> \<not> is_reserved a \<and> \<not> is_unspecified a)"

lemma public_addressI: "ip_address ip \<noteq> None \<Longrightarrow> \<not> ip_is_private ip \<Longrightarrow> public_address ip"
  by (auto simp: public_address_def ip_is_private_def)

lemma address_source_numeric: "dns_numeric E \<Longrightarrow> address_source E n host port ip \<Longrightarrow> ip_address ip \<noteq> None"
  by (auto simp: dns_numeric_def address_source_def)

lemma row_request_target:
  assumes "row_request E d req" and "dns_numeric E"
  shows "\<exists>parts host p ip. urlsplit (d_url d) = Inr parts \<and> hostname parts = Some host \<and> url_port parts = Inr p
     \<and> (ip = host \<or> (\<exists>n addrs. getaddrinfo E n host (effective_port parts p) = Addrs addrs \<and> ip \<in> set addrs))
     \<and> public_address ip \<and> rq_url req = pinned_url (u_scheme parts) ip (effective_port parts p) parts
     \<and> rq_sni req = Some host \<and> (''Host'', host) \<in> set (rq_headers req)
     \<and> (''X-License-Server-Event-Id'', d_id d) \<in> set (rq_headers req)"
proof -
  obtain ip p host parts n ts where r: "urlsplit (d_url d) = Inr parts" "hostname parts = Some host" "url_port parts = Inr p"
    "\<not> ip_is_private ip" "address_source E n host (effective_port parts p) ip"
    "rq_url req = pinned_url (u_scheme parts) ip (effective_port parts p) parts" "rq_sni req = Some host"
    "rq_headers req = webhook_headers E (d_secret d) (d_id d) (d_event_type d) ts (rq_body req) host"
    using assms(1) unfolding row_request_def pinned_request_def Let_def by blast
  have "public_address ip" using address_source_numeric[OF assms(2) r(5)] r(4) by (intro public_addressI)
  moreover have "ip = host \<or> (\<exists>n addrs. getaddrinfo E n host (effective_port parts p) = Addrs addrs \<and> ip \<in> set addrs)"
    using r(5) unfolding address_source_def by blast
  ultimately show ?thesis using r by (intro exI[of _ parts] exI[of _ host] exI[of _ p] exI[of _ ip]) (simp add: webhook_headers_def)
qed

text \<open>
  C5: the requests that a pass of the retry worker sends are, one for one and in the order of
  the queue, for rows that were pending and due when the pass began, at most one each. Each
  goes to the URL of its row with the host replaced by an address: the host itself when it is
  one, or one that name resolution gave for exactly that host and port; the host is the TLS name and the Host
  header, and the row's identifier the event's. The address is never private, loopback,
  link-local, multicast, reserved or unspecified.
\<close>

theorem retry_targets_public:
  assumes "retry_run E lim s = (c, s')" and "dns_numeric E"
  shows "\<exists>ds reqs. outbox s' = outbox s @ reqs \<and> ds \<in> set (subseqs (due_deliveries lim s))
     \<and> (\<forall>d \<in> set ds. d \<in> set (deliveries s) \<and> d_status d = Pending \<and> d_next_attempt_at d \<le> now s)
     \<and> list_all2 (\<lambda>d req. \<exists>parts host p ip. urlsplit (d_url d) = Inr parts \<and> hostname parts = Some host \<and> url_port parts = Inr p
     \<and> (ip = host \<or> (\<exists>n addrs. getaddrinfo E n host (effective_port parts p) = Addrs addrs \<and> ip \<in> set addrs))
     \<and> public_address ip \<and> rq_url req = pinned_url (u_scheme parts) ip (effective_port parts p) parts
     \<and> rq_sni req = Some host \<and> (''Host'', host) \<in> set (rq_headers req)
     \<and> (''X-License-Server-Event-Id'', d_id d) \<in> set (rq_headers req)) ds reqs"
proof -
  have "set (due_deliveries lim s) \<subseteq> set (deliveries s)" using due_deliveries_set by blast
  from retry_loop_requests[OF this, where E = E and s = s] obtain ds reqs where
    r: "ds \<in> set (subseqs (due_deliveries lim s))" "outbox s' = outbox s @ reqs" "list_all2 (row_request E) ds reqs"
    using assms(1) by (auto simp: retry_run_def list.rel_refl)
  have "set ds \<subseteq> set (due_deliveries lim s)" using r(1) subseqs_powset[of "due_deliveries lim s"] by blast
  then have "\<forall>d \<in> set ds. d \<in> set (deliveries s) \<and> d_status d = Pending \<and> d_next_attempt_at d \<le> now s"
    using due_deliveries_set[of lim s] by (auto simp: due_def)
  with r(1,2) show ?thesis
    by (intro exI[of _ ds] exI[of _ reqs] conjI list_all2_mono[OF r(3)] row_request_target[OF _ assms(2)])
qed

text \<open>
  From the row as it was queued, at most seven attempts are ever made, the seventh leaves
  it delivered or abandoned, and the back-off index stays inside the schedule.
\<close>

theorem delivery_attempts_bounded:
  assumes "queued d" and "(attempt_step ^^ n) d d'"
  shows "n \<le> max_attempts \<and> delivery_inv d' \<and> (n = max_attempts \<longrightarrow> d_status d' \<noteq> Pending)
    \<and> (d_status d' = Pending \<longrightarrow> d_attempts d' < length backoff_schedule + 1)"
proof -
  have i: "delivery_inv d" using assms(1) by (rule queue.inv_initial)
  have j: "delivery_inv d'" using queue.inv_run[OF relpowp_imp_rtranclp[OF assms(2)] i] .
  have "n + attempts_left d' \<le> attempts_left d" using assms(2) i by (rule queue.run_length)
  moreover have "attempts_left d \<le> max_attempts" by (simp add: attempts_left_def)
  ultimately show ?thesis using j
    by (auto simp: attempts_left_def delivery_inv_def max_attempts_def)
qed

definition port_ok :: "string \<Rightarrow> bool" where
  "port_ok url \<longleftrightarrow> (case urlsplit url of Inl _ \<Rightarrow> True
     | Inr parts \<Rightarrow> (case url_port parts of Inl _ \<Rightarrow> False | Inr _ \<Rightarrow> True))"

lemma safe_shape_parts: "is_safe_url_shape url allow \<Longrightarrow> \<exists>parts h. urlsplit url = Inr parts \<and> hostname parts = Some h"
  by (cases "urlsplit url") (auto simp: is_safe_url_shape_def split: if_splits option.splits)

text \<open>What escapes from a delivery: an unusable port, or what the resolver or the client raise.\<close>

definition raised_outside :: "env \<Rightarrow> exc \<Rightarrow> bool" where
  "raised_outside E e \<longleftrightarrow> (\<exists>n h p. getaddrinfo E n h p = DnsRaise e) \<or> (\<exists>n r. http_post E n r = HttpRaise e)"

lemma resolve_raises:
  assumes "resolve_safe_address E url allow s = Inl e" and "port_ok url"
  shows "raised_outside E e"
proof -
  have safe: "is_safe_url_shape url allow" using assms(1) by (auto simp: resolve_safe_address_def split: if_splits)
  then obtain parts h where p: "urlsplit url = Inr parts" "hostname parts = Some h"
    using safe_shape_parts by blast
  with assms(2) obtain q where "url_port parts = Inr q" by (auto simp: port_ok_def split: sum.splits)
  then have "pin_address E h (effective_port parts q) (u_scheme parts) s = Inl e"
    using assms(1) safe p by (simp add: resolve_safe_address_def)
  then show ?thesis by (auto simp: pin_address_def raised_outside_def split: if_splits dns_result.splits)
qed

lemma deliver_raises:
  assumes "deliver E url secret ty data eid ts allow s = Inl e" and "port_ok url"
  shows "raised_outside E e"
proof -
  have safe: "is_safe_url_shape url allow" using assms(1) by (auto simp: deliver_def split: if_splits)
  then obtain parts where p: "urlsplit url = Inr parts" using safe_shape_parts by blast
  have post: "raised_outside E e" if "post E req s = Inl e" for req s
    using that by (auto simp: post_def http_outcome_def raised_outside_def split: http_result.splits if_splits)
  show ?thesis
  proof (cases "resolve_safe_address E url allow s")
    case (Inl x)
    with assms(1) safe have "x = e" by (simp add: deliver_def)
    with Inl resolve_raises[OF _ assms(2)] show ?thesis by blast
  next
    case (Inr y)
    obtain t s1 where "y = (t, s1)" by (cases y)
    with assms(1) safe p Inr post show ?thesis
      by (cases t) (auto simp: deliver_def Let_def split: prod.splits)
  qed
qed

lemma record_attempt_total:
  assumes "0 \<le> t" and "t + day_us \<le> datetime_max" and "d_attempts d < max_attempts"
  shows "\<exists>ok d'. record_attempt t r d = Inr (ok, d')"
proof -
  have b: "i < length backoff_schedule \<Longrightarrow> 0 \<le> backoff_schedule ! i \<and> backoff_schedule ! i \<le> day_us" for i
    by (auto simp: backoff_schedule_def us_defs nth_Cons' less_Suc_eq)
  obtain ok st err where r: "r = (ok, st, err)" by (cases r)
  have "Suc (d_attempts d) < max_attempts \<Longrightarrow> d_attempts d < length backoff_schedule"
    by (simp add: max_attempts_def)
  with b[of "d_attempts d"] assms show ?thesis
    by (auto simp: r record_attempt_def Let_def add_delta_def)
qed

definition instant_ok :: "datetime \<Rightarrow> bool" where
  "instant_ok t \<longleftrightarrow> 0 \<le> t \<and> t + day_us \<le> datetime_max"

definition row :: "uid \<Rightarrow> session \<Rightarrow> delivery \<Rightarrow> bool" where
  "row i s d \<longleftrightarrow> one_or_none (\<lambda>x. d_id x = i) (deliveries s) = Inr (Some d)"

lemma try_deliver_terminal: "row i s d \<Longrightarrow> d_status d \<noteq> Pending \<Longrightarrow> try_deliver E i s = Inr (False, s)"
  by (simp add: try_deliver_def row_def)

lemma delivery_allows_http_total:
  assumes "distinct (map l_id (licenses s))"
  shows "\<exists>a. delivery_allows_http d s = Inr a"
proof (cases "d_license_id d")
  case (Some k)
  have "one_or_none (\<lambda>l. Some (l_id l) = d_license_id d) (licenses s)
      = one_or_none (\<lambda>l. l_id l = k) (licenses s)" using Some by simp
  then obtain b where "one_or_none (\<lambda>l. Some (l_id l) = d_license_id d) (licenses s) = Inr b"
    using one_or_none_unique[OF assms, of k] by (metis sum.exhaust)
  then show ?thesis by (cases b) (simp_all add: delivery_allows_http_def)
qed (simp add: delivery_allows_http_def)

lemma try_deliver_raises:
  assumes "try_deliver E i s = Inl e" and "port_ok (d_url d)" and "instant_ok (now s)"
    and r: "row i s d" and i: "delivery_inv d" and l: "distinct (map l_id (licenses s))"
  shows "raised_outside E e"
proof -
  have p: "d_status d = Pending" using try_deliver_terminal[OF r] assms(1) by force
  obtain data where data: "loads (d_payload_json d) = Inr data"
    using assms(1) r p by (cases "loads (d_payload_json d)") (auto simp: try_deliver_def row_def)
  obtain allow where a: "delivery_allows_http d s = Inr allow"
    using delivery_allows_http_total[OF l] by blast
  show ?thesis
  proof (cases "deliver E (d_url d) (d_secret d) (d_event_type d) data (Some (d_id d)) None allow s")
    case (Inl x)
    with assms(1) r p data a have "x = e" by (simp add: try_deliver_def row_def)
    with deliver_raises[OF Inl assms(2)] show ?thesis by simp
  next
    case (Inr y)
    obtain x s1 where y: "y = (x, s1)" by (cases y)
    from Inr[unfolded y] have "now s1 = now s" by (cases rule: deliver_cases) auto
    with assms(3) p i obtain ok d' where "record_attempt (now s1) x d = Inr (ok, d')"
      using record_attempt_total[of "now s1" d x] by (auto simp: instant_ok_def delivery_inv_def)
    with assms(1) r p data a Inr y show ?thesis by (simp add: try_deliver_def row_def)
  qed
qed

lemma attempted_row:
  assumes "row i s d" and "attempted E i s ok s' d0 d'"
  shows "d0 = d \<and> row i s' d' \<and> licenses s' = licenses s \<and> attempt_step d d'"
proof -
  note d = one_or_none_SomeD[OF assms(1)[unfolded row_def]]
  have m: "d0 \<in> set (deliveries s)" "d_id d0 = i" "attempt_step d0 d'"
    "s' = session_extras s' (put_delivery d' s)" using assms(2) unfolding attempted_def by blast+
  then have a: "d0 = d" "attempt_step d0 d'" "s' = session_extras s' (put_delivery d' s)"
    using d(3)[OF m(1,2)] by blast+
  have i: "d_id d' = i" using a d(2) attempt_step_fixed by metis
  have "deliveries s' = update_where (\<lambda>x. d_id x = i) (\<lambda>_. d') (deliveries s)" "licenses s' = licenses s"
    using i by (subst a(3), simp add: session_extras_def put_delivery_def)+
  moreover have "filter (\<lambda>x. d_id x = i) (update_where (\<lambda>x. d_id x = i) (\<lambda>_. d') t)
      = map (\<lambda>_. d') (filter (\<lambda>x. d_id x = i) t)" for t
    using i by (induction t) (auto simp: update_where_def)
  moreover have "filter (\<lambda>x. d_id x = i) (deliveries s) = [d]"
    using assms(1) by (simp add: row_def one_or_none_Some)
  ultimately show ?thesis using a by (simp add: row_def one_or_none_Some)
qed

text \<open>
  Attempts in sessions of their own at the given instants, with the number of those that
  returned: one that raises is rolled back.
\<close>

definition attempt_returns :: "env \<Rightarrow> uid \<Rightarrow> session \<Rightarrow> bool" where
  "attempt_returns E i s = (case try_deliver E i s of Inl e \<Rightarrow> False
     | Inr (ok, s1) \<Rightarrow> (case commit E s1 of Inl e \<Rightarrow> False | Inr s2 \<Rightarrow> True))"

fun attempts_at :: "env \<Rightarrow> uid \<Rightarrow> datetime list \<Rightarrow> session \<Rightarrow> nat \<times> session" where
  "attempts_at E i [] s = (0, s)"
| "attempts_at E i (t # ts) s =
     (let (n, s') = attempts_at E i ts (snd (attempt_in_fresh_session E i (s\<lparr>now := t\<rparr>)))
      in (if attempt_returns E i (s\<lparr>now := t\<rparr>) then Suc n else n, s'))"

text \<open>A row in a consistent database, between two transactions.\<close>

definition settled_base :: "uid \<Rightarrow> session \<Rightarrow> delivery \<Rightarrow> bool" where
  "settled_base i s d \<longleftrightarrow> row i s d \<and> constraints_ok s \<and> new_events s = []"

lemma settled_base_now [simp]: "settled_base i (s\<lparr>now := t\<rparr>) d = settled_base i s d"
  by (simp add: settled_base_def row_def constraints_ok_def)

lemma settled_base_rollback: "settled_base i s d \<Longrightarrow> settled_base i (rollback s s1) d"
  by (simp add: settled_base_def row_def constraints_ok_def rollback_def)

lemma commit_attempted:
  assumes "settled_base i s d" and "attempted E i s ok s1 d0 d1"
  shows "commit E s1 = Inr s1 \<and> settled_base i s1 d1 \<and> attempt_step d d1"
proof -
  have b: "row i s d" "constraints_ok s" "new_events s = []" using assms(1) by (simp_all add: settled_base_def)
  note r = attempted_row[OF b(1) assms(2)]
  have s1: "s1 = session_extras s1 (put_delivery d1 s)" using assms(2) by (simp add: attempted_def)
  have "map d_id (deliveries (put_delivery d1 s)) = map d_id (deliveries s)"
    by (simp add: put_delivery_def update_where_def)
  then have "constraints_ok (put_delivery d1 s)" using b(2) by (simp add: constraints_ok_def put_delivery_def)
  then have c: "constraints_ok s1" "new_events s1 = []"
    using b(3) by (subst s1, simp add: session_extras_def put_delivery_def constraints_ok_def)+
  then have "commit E s1 = Inr s1" by (simp add: commit_Inr flush_events_def)
  with c r show ?thesis by (simp add: settled_base_def)
qed

lemma fresh_session_row:
  assumes "settled_base i s d"
  shows "\<exists>d'. settled_base i (snd (attempt_in_fresh_session E i s)) d' \<and> (if attempt_returns E i s \<and> d_status d = Pending
     then attempt_step d d' else d' = d)"
proof (cases "try_deliver E i s")
  case (Inl e)
  with assms show ?thesis by (auto simp: attempt_in_fresh_session_def attempt_returns_def)
next
  case (Inr r)
  obtain ok s1 where t: "try_deliver E i s = Inr (ok, s1)" using Inr by (cases r) simp
  have row: "row i s d" using assms by (simp add: settled_base_def)
  show ?thesis
  proof (cases "d_status d = Pending")
    case True
    have "d \<in> set (deliveries s)" "d_id d = i" using one_or_none_SomeD[OF row[unfolded row_def]] by blast+
    then obtain d0 d1 where "attempted E i s ok s1 d0 d1" using try_deliver_refines[OF t] True by blast
    from commit_attempted[OF assms this] t True show ?thesis
      by (intro exI[of _ d1]) (simp add: attempt_in_fresh_session_def attempt_returns_def)
  next
    case False
    then have "s1 = s" using try_deliver_terminal[OF row] t by simp
    then have "settled_base i (snd (attempt_in_fresh_session E i s)) d"
      using assms t settled_base_rollback
      by (auto simp: attempt_in_fresh_session_def commit_Inr settled_base_def row_def flush_events_def split: sum.splits)
    with False show ?thesis by auto
  qed
qed

lemma attempts_at_settle:
  assumes "attempts_at E i ts s = (n, s')" and "settled_base i s d" and "delivery_inv d"
  shows "\<exists>d'. settled_base i s' d' \<and> attempt_step\<^sup>*\<^sup>* d d' \<and> (d_status d' = Pending \<longrightarrow> d_attempts d' = d_attempts d + n)"
  using assms
proof (induction ts arbitrary: s d n)
  case (Cons t ts)
  let ?s = "s\<lparr>now := t\<rparr>"
  obtain m where m: "attempts_at E i ts (snd (attempt_in_fresh_session E i ?s)) = (m, s')"
    and n: "n = (if attempt_returns E i ?s then Suc m else m)"
    using Cons.prems(1) by (auto simp: Let_def split: prod.splits)
  obtain d1 where d1: "settled_base i (snd (attempt_in_fresh_session E i ?s)) d1"
    and st: "if attempt_returns E i ?s \<and> d_status d = Pending then attempt_step d d1 else d1 = d"
    using fresh_session_row[of i ?s d E] Cons.prems(2) by auto
  have inv: "delivery_inv d1" and run: "attempt_step\<^sup>*\<^sup>* d d1"
    using st Cons.prems(3) queue.inv_step by (auto split: if_splits)
  obtain d' where d': "settled_base i s' d'" "attempt_step\<^sup>*\<^sup>* d1 d'" "d_status d' = Pending \<longrightarrow> d_attempts d' = d_attempts d1 + m"
    using Cons.IH[OF m d1 inv] by blast
  have "d_attempts d' = d_attempts d + n" if p: "d_status d' = Pending"
  proof -
    have one: "d_status d1 = Pending" using d'(2) p by (metis attempt_step_pending converse_rtranclpE)
    have "d_status d = Pending" using st one by (metis attempt_step_pending)
    with st one n have "d_attempts d1 = d_attempts d + (if attempt_returns E i ?s then 1 else 0)"
      by (auto elim!: attempt_stepE split: if_splits)
    with d'(3) p n show ?thesis by simp
  qed
  with d' run show ?case by (blast intro: rtranclp_trans)
qed auto



definition sample_delivery :: delivery where
  "sample_delivery = new_delivery ''d1'' 63838368000000000 ''https://93.184.216.34/hook'' ''whsec_k''
     EVENT_UPDATED (JDict [(''license_id'', JStr ''l1'')]) None None"

definition queue_session :: "delivery list \<Rightarrow> session" where
  "queue_session ds = empty_session\<lparr>deliveries := ds\<rparr>"

lemma sample_dns_numeric: "dns_numeric (sample_env c)"
proof -
  have "ip_address ''93.184.216.34'' \<noteq> None" by code_simp
  then show ?thesis by (simp add: dns_numeric_def sample_env_def)
qed



text \<open>
  C11: what a receiver can check: the body of every request for a delivery decodes to the
  delivery's identifier, type, time and the data that was enqueued, the identifier is the
  same on every attempt, and the signature header is the HMAC of that time and that body
  under the delivery's secret.
\<close>

theorem webhook_authentic:
  assumes "try_deliver E i s = Inr (ok, s')" and "row i s d"
    and "d_payload_json d = dumps_compact data" and "plain data"
  shows "\<exists>reqs. outbox s' = outbox s @ reqs \<and> (\<forall>req \<in> set reqs. \<exists>ts.
     loads (rq_body req) = Inr (JDict [(''id'', JStr i), (''type'', JStr (d_event_type d)),
        (''created_at'', JInt ts), (''data'', data)])
     \<and> (''X-License-Server-Event-Id'', i) \<in> set (rq_headers req)
     \<and> (''X-License-Server-Signature'', ''t='' @ show_int ts @ '',v1='' @
          hmac_sha256 E (d_secret d) (show_int ts @ ''.'' @ rq_body req)) \<in> set (rq_headers req))"
  using try_deliver_refines[OF assms(1)]
proof (elim disjE exE)
  fix d0 d' assume a: "attempted E i s ok s' d0 d'"
  then have d0: "d0 = d" using attempted_row[OF assms(2)] by blast
  have i: "d_id d = i" using one_or_none_SomeD[OF assms(2)[unfolded row_def]] by blast
  from a obtain reqs where o: "outbox s' = outbox s @ reqs" and r: "\<forall>req \<in> set reqs. row_request E d req"
    unfolding attempted_def row_requests_def d0 by blast
  have "\<exists>ts. loads (rq_body req) = Inr (JDict [(''id'', JStr i), (''type'', JStr (d_event_type d)),
        (''created_at'', JInt ts), (''data'', data)])
     \<and> (''X-License-Server-Event-Id'', i) \<in> set (rq_headers req)
     \<and> (''X-License-Server-Signature'', ''t='' @ show_int ts @ '',v1='' @
          hmac_sha256 E (d_secret d) (show_int ts @ ''.'' @ rq_body req)) \<in> set (rq_headers req)"
    if q: "row_request E d req" for req
  proof -
    from q obtain ts host where b: "rq_body req = webhook_body i (d_event_type d) ts data"
      and h: "rq_headers req = webhook_headers E (d_secret d) i (d_event_type d) ts (rq_body req) host"
      using loads_dumps_compact[OF assms(4)] unfolding row_request_def pinned_request_def Let_def i assms(3) by auto
    have "loads (rq_body req) = Inr (JDict [(''id'', JStr i), (''type'', JStr (d_event_type d)),
        (''created_at'', JInt ts), (''data'', data)])"
      unfolding b webhook_body_def by (rule loads_dumps_compact) (simp add: assms(4))
    then show ?thesis by (intro exI[of _ ts]) (simp add: h webhook_headers_def sign_def)
  qed
  with o r show ?thesis by blast
qed auto

section \<open>Instances\<close>

abbreviation (input) one_row :: session where "one_row \<equiv> queue_session [sample_delivery]"

lemma one_row_row: "row ''d1'' one_row sample_delivery"
  by (simp add: row_def one_or_none_Some queue_session_def empty_session_def sample_delivery_def new_delivery_def)

lemma sample_queued: "queued sample_delivery"
  by (simp add: queued_def sample_delivery_def new_delivery_def)

theorem retry_targets_public_witness:
  "\<exists>ip parts req. outbox (snd (retry_run kek_env 200 one_row)) = [req] \<and> public_address ip
     \<and> urlsplit (d_url sample_delivery) = Inr parts \<and> rq_url req = pinned_url (u_scheme parts) ip 443 parts"
proof -
  have n: "dns_numeric kek_env" by (simp add: kek_env_def sample_dns_numeric)
  have o: "outbox one_row = []" by (simp add: queue_session_def empty_session_def)
  have l: "length (outbox (snd (retry_run kek_env 200 one_row))) = 1" by code_simp
  have d: "deliveries one_row = [sample_delivery]" by (simp add: queue_session_def)
  have "case urlsplit (d_url sample_delivery) of Inl e \<Rightarrow> False | Inr parts \<Rightarrow>
      (case url_port parts of Inl e \<Rightarrow> False | Inr p \<Rightarrow> effective_port parts p = 443)" by code_simp
  then have p: "\<forall>parts p. urlsplit (d_url sample_delivery) = Inr parts \<longrightarrow> url_port parts = Inr p \<longrightarrow> effective_port parts p = 443"
    by (auto split: sum.splits)
  from retry_targets_public[OF prod.collapse[symmetric] n, of 200 one_row] o l d p show ?thesis
    by (fastforce simp: list_all2_Cons2 length_Suc_conv)
qed

theorem delivery_attempts_bounded_witness:
  "\<exists>d'. (attempt_step ^^ 1) sample_delivery d' \<and> d_attempts d' = 1 \<and> delivery_inv d'"
proof -
  let ?d = "sample_delivery\<lparr>d_attempts := Suc (d_attempts sample_delivery), d_last_attempt_at := Some 0,
      d_response_status := None, d_response_excerpt := None, d_last_error := Some [],
      d_next_attempt_at := 0 + backoff_schedule ! d_attempts sample_delivery\<rparr>"
  have "attempt_step sample_delivery ?d"
    by (rule retry) (simp_all add: sample_delivery_def new_delivery_def max_attempts_def backoff_schedule_def)
  then have st: "(attempt_step ^^ 1) sample_delivery ?d" by (simp add: OO_def)
  from delivery_attempts_bounded[OF sample_queued st] st show ?thesis
    by (intro exI[of _ ?d]) (simp add: sample_delivery_def new_delivery_def)
qed


lemma right_exists: "(case x of Inl e \<Rightarrow> False | Inr y \<Rightarrow> P y) \<Longrightarrow> \<exists>y. x = Inr y \<and> P y"
  by (cases x) auto


theorem webhook_authentic_witness:
  "\<exists>ok s'. try_deliver kek_env ''d1'' one_row = Inr (ok, s') \<and> length (outbox s') = 1 \<and>
     (\<forall>req \<in> set (outbox s'). \<exists>ts. loads (rq_body req) = Inr (JDict [(''id'', JStr ''d1''),
        (''type'', JStr EVENT_UPDATED), (''created_at'', JInt ts),
        (''data'', JDict [(''license_id'', JStr ''l1'')])]))"
proof -
  have "case try_deliver kek_env ''d1'' one_row of Inl e \<Rightarrow> False | Inr (ok, s') \<Rightarrow> length (outbox s') = 1"
    by code_simp
  then obtain ok s' where t: "try_deliver kek_env ''d1'' one_row = Inr (ok, s')" "length (outbox s') = 1"
    by (auto dest!: right_exists)
  have p: "d_payload_json sample_delivery = dumps_compact (JDict [(''license_id'', JStr ''l1'')])"
    and e: "d_event_type sample_delivery = EVENT_UPDATED"
    by (simp_all add: sample_delivery_def new_delivery_def)
  have o: "outbox one_row = []" by (simp add: queue_session_def empty_session_def)
  have "plain (JDict [(''license_id'', JStr ''l1'')])" by simp
  from webhook_authentic[OF t(1) one_row_row p this] show ?thesis using t o e by (auto simp: e)
qed

end
