(* ===== verification/Store.thy ===== *)
theory Store
  imports Models
begin

text \<open>
  The contract of a table whose rows are written back by primary key, stated once as a
  locale and met by every table the services update. Its lemmas say that a write changes
  the row it names and no other, and never a key.
\<close>

locale row_store =
  fixes key :: "'r \<Rightarrow> uid"
    and rows :: "session \<Rightarrow> 'r list"
    and put :: "'r \<Rightarrow> session \<Rightarrow> session"
  assumes rows_put: "rows (put r s) = update_where (\<lambda>x. key x = key r) (\<lambda>_. r) (rows s)"
begin

lemma keys_put: "map key (rows (put r s)) = map key (rows s)"
  by (simp add: rows_put map_update_where)

lemma put_found: "x \<in> set (rows s) \<Longrightarrow> key x = key r \<Longrightarrow> r \<in> set (rows (put r s))"
  by (auto simp: rows_put set_update_where image_iff)

lemma put_only: "x \<in> set (rows (put r s)) \<Longrightarrow> x = r \<or> (x \<in> set (rows s) \<and> key x \<noteq> key r)"
  by (auto simp: rows_put set_update_where split: if_splits)

lemma put_other: "x \<in> set (rows s) \<Longrightarrow> key x \<noteq> key r \<Longrightarrow> x \<in> set (rows (put r s))"
  by (auto simp: rows_put set_update_where image_iff)

lemma put_rows: "r0 \<in> set (rows s) \<Longrightarrow> key r0 = key r \<Longrightarrow>
    set (rows (put r s)) = insert r {x \<in> set (rows s). key x \<noteq> key r}"
  using put_found put_only put_other by blast

lemma put_all: "(\<And>x. x \<in> set (rows s) \<Longrightarrow> P x) \<Longrightarrow> P r \<Longrightarrow> x \<in> set (rows (put r s)) \<Longrightarrow> P x"
  using put_only by blast

lemma put_lookup:
  assumes "distinct (map key (rows s))" and "x \<in> set (rows s)" and "key x = key r"
  shows "one_or_none (\<lambda>y. key y = key r) (rows (put r s)) = Inr (Some r)"
  by (rule one_or_none_key) (use assms keys_put put_found in simp_all)

end

interpretation license_store: row_store l_id licenses put_license
  by unfold_locales (simp add: put_license_def)

interpretation customer_store: row_store c_id customers put_customer
  by unfold_locales (simp add: put_customer_def)

interpretation product_store: row_store p_id products put_product
  by unfold_locales (simp add: put_product_def)

interpretation preset_store: row_store f_id presets put_preset
  by unfold_locales (simp add: put_preset_def)

interpretation install_store: row_store i_id installs put_install
  by unfold_locales (simp add: put_install_def)

interpretation delivery_store: row_store d_id deliveries put_delivery
  by unfold_locales (simp add: put_delivery_def)

lemma put_license_fields [table_simps]:
  "products (put_license l s) = products s" "customers (put_license l s) = customers s"
  "presets (put_license l s) = presets s" "installs (put_license l s) = installs s"
  "deliveries (put_license l s) = deliveries s" "stripe_events (put_license l s) = stripe_events s"
  "mfa_row (put_license l s) = mfa_row s" "events (put_license l s) = events s"
  "new_events (put_license l s) = new_events s" "now (put_license l s) = now s"
  "n_uuid (put_license l s) = n_uuid s" "n_rand (put_license l s) = n_rand s"
  "n_dns (put_license l s) = n_dns s" "outbox (put_license l s) = outbox s"
  "tasks (put_license l s) = tasks s"
  by (simp_all add: put_license_def)

lemma put_install_fields [table_simps]:
  "products (put_install l s) = products s" "customers (put_install l s) = customers s"
  "presets (put_install l s) = presets s" "licenses (put_install l s) = licenses s"
  "deliveries (put_install l s) = deliveries s" "stripe_events (put_install l s) = stripe_events s"
  "mfa_row (put_install l s) = mfa_row s" "events (put_install l s) = events s"
  "new_events (put_install l s) = new_events s" "now (put_install l s) = now s"
  "n_uuid (put_install l s) = n_uuid s" "n_rand (put_install l s) = n_rand s"
  "n_dns (put_install l s) = n_dns s" "outbox (put_install l s) = outbox s"
  "tasks (put_install l s) = tasks s"
  by (simp_all add: put_install_def)

end
