(* ===== verification/Wellformed.thy ===== *)
theory Wellformed
  imports Delivery Store
begin

text \<open>
  What every committed state of the database satisfies: each licence's hash and display form
  belong to its key, a licence with a webhook URL has a signing secret and a URL that the
  outbound guard accepts under the licence's own http flag, and every row refers to rows
  that exist. The component theories show that their operations keep \<open>rows_ok\<close>.
\<close>

definition webhook_wf :: "license \<Rightarrow> bool" where
  "webhook_wf l \<longleftrightarrow> (truthy (l_webhook_url l) \<longrightarrow>
     truthy (l_webhook_secret l) \<and> is_safe_url_shape (the (l_webhook_url l)) (l_allow_http_webhook l))"

definition license_wf :: "env \<Rightarrow> license \<Rightarrow> bool" where
  "license_wf E l \<longleftrightarrow> hash_key E (l_key l) = Inr (l_key_hash l)
     \<and> l_key_display l = make_display (l_key l) \<and> webhook_wf l"

definition placed :: "'a tables_scheme \<Rightarrow> license \<Rightarrow> bool" where
  "placed t l \<longleftrightarrow> l_product_id l \<in> p_id ` set (products t) \<and> l_customer_id l \<in> c_id ` set (customers t)"

definition rows_ok :: "env \<Rightarrow> 'a tables_scheme \<Rightarrow> bool" where
  "rows_ok E t \<longleftrightarrow> (\<forall>l \<in> set (licenses t). license_wf E l \<and> placed t l)
     \<and> (\<forall>i \<in> set (installs t). i_license_id i \<in> l_id ` set (licenses t))
     \<and> (\<forall>f \<in> set (presets t). \<forall>p. f_product_id f = Some p \<longrightarrow> p \<in> p_id ` set (products t))
     \<and> (\<forall>d \<in> set (deliveries t). delivery_inv d)"

lemma rows_ok_license: "rows_ok E s \<Longrightarrow> l \<in> set (licenses s) \<Longrightarrow> license_wf E l \<and> placed s l"
  by (simp add: rows_ok_def)

lemma rows_ok_frame [table_simps]:
  "rows_ok E (flush_events E s) = rows_ok E s" "rows_ok E (audit l p ty pl nt s) = rows_ok E s"
  "rows_ok E (s\<lparr>n_uuid := k\<rparr>) = rows_ok E s" "rows_ok E (s\<lparr>n_rand := k\<rparr>) = rows_ok E s"
  "rows_ok E (s\<lparr>n_dns := k\<rparr>) = rows_ok E s" "rows_ok E (s\<lparr>outbox := ob\<rparr>) = rows_ok E s"
  "rows_ok E (s\<lparr>tasks := ts\<rparr>) = rows_ok E s" "rows_ok E (s\<lparr>new_events := nes\<rparr>) = rows_ok E s"
  "rows_ok E (s\<lparr>now := t\<rparr>) = rows_ok E s"
  "rows_ok E (s\<lparr>events := evs\<rparr>) = rows_ok E s" "rows_ok E (s\<lparr>stripe_events := ses\<rparr>) = rows_ok E s"
  "rows_ok E (s\<lparr>mfa_row := m\<rparr>) = rows_ok E s"
  by (simp_all add: rows_ok_def placed_def table_simps)

lemma placed_frame [table_simps]:
  "placed (flush_events E s) x = placed s x" "placed (audit l p ty pl nt s) x = placed s x"
  "placed (s\<lparr>n_uuid := k\<rparr>) x = placed s x" "placed (s\<lparr>n_rand := k\<rparr>) x = placed s x"
  "placed (s\<lparr>licenses := ls\<rparr>) x = placed s x" "placed (s\<lparr>deliveries := ds\<rparr>) x = placed s x"
  "placed (put_license lic s) x = placed s x"
  by (simp_all add: placed_def table_simps)

lemma placed_cong: "l_product_id l' = l_product_id l \<Longrightarrow> l_customer_id l' = l_customer_id l \<Longrightarrow>
    placed s l' = placed s l"
  by (simp add: placed_def)

text \<open>The columns of a licence that no operation changes once it is issued.\<close>

definition same_identity :: "license \<Rightarrow> license \<Rightarrow> bool" where
  "same_identity l l' \<longleftrightarrow> l_id l' = l_id l \<and> l_product_id l' = l_product_id l
     \<and> l_customer_id l' = l_customer_id l \<and> l_key l' = l_key l \<and> l_key_hash l' = l_key_hash l
     \<and> l_key_display l' = l_key_display l \<and> l_created_at l' = l_created_at l"

lemma same_identity_refl [simp]: "same_identity l l"
  by (simp add: same_identity_def)

lemma same_identity_trans: "same_identity a b \<Longrightarrow> same_identity b c \<Longrightarrow> same_identity a c"
  by (simp add: same_identity_def)

lemma rows_ok_put_license:
  assumes "rows_ok E s" and "l \<in> set (licenses s)" and "same_identity l l'" and "webhook_wf l'"
  shows "rows_ok E (put_license l' s)"
proof -
  have wf: "license_wf E l'" and pl: "placed s l'"
    using assms rows_ok_license[OF assms(1,2)]
    by (simp_all add: license_wf_def same_identity_def placed_def)
  have "l_id ` set (licenses (put_license l' s)) = l_id ` set (licenses s)"
    by (metis license_store.keys_put list.set_map)
  moreover have "license_wf E x \<and> placed s x" if "x \<in> set (licenses (put_license l' s))" for x
    by (rule license_store.put_all[OF _ _ that]) (use assms(1) wf pl in \<open>auto simp: rows_ok_def\<close>)
  ultimately show ?thesis
    using assms(1) by (auto simp: rows_ok_def table_simps)
qed

lemma rows_ok_add_delivery [table_simps]:
  "delivery_inv d \<Longrightarrow> rows_ok E (s\<lparr>deliveries := deliveries s @ [d]\<rparr>) = rows_ok E s"
  by (auto simp: rows_ok_def placed_def)

lemma delivery_inv_new [simp]: "delivery_inv (new_delivery i t url secret ty data lid pid)"
  by (simp add: new_delivery_def delivery_inv_def max_attempts_def)

lemma rows_ok_add_license:
  "rows_ok E s \<Longrightarrow> license_wf E l \<Longrightarrow> placed s l \<Longrightarrow> rows_ok E (s\<lparr>licenses := licenses s @ [l]\<rparr>)"
  by (auto simp: rows_ok_def placed_def)

lemma rows_ok_add_customer: "rows_ok E s \<Longrightarrow> rows_ok E (s\<lparr>customers := customers s @ [c]\<rparr>)"
  by (auto simp: rows_ok_def placed_def)

lemma rows_ok_queue_run:
  assumes "rows_ok E s" and "queue_run E s s'"
  shows "rows_ok E s'"
proof -
  have "\<forall>d \<in> set (deliveries s'). delivery_inv d"
    using assms by (intro queue_run_inv[OF assms(2)]) (simp add: rows_ok_def)
  with assms show ?thesis
    by (simp add: rows_ok_def placed_def queue_run_def same_data_def)
qed

section \<open>Queueing\<close>

lemma enqueue_Inr:
  "enqueue E url secret ty data lid pid s = Inr (d, s') \<longleftrightarrow>
     d = new_delivery (uuid4 E (n_uuid s)) (now s) url secret ty data lid pid
     \<and> s' = flush_events E (s\<lparr>n_uuid := Suc (n_uuid s), deliveries := deliveries s @ [d]\<rparr>)
     \<and> constraints_ok s'"
  by (auto simp: enqueue_def fresh_id_def flush_Inr res_simps Let_def)

lemma rows_ok_enqueue:
  "enqueue E url secret ty data lid pid s = Inr (d, s') \<Longrightarrow> rows_ok E s' = rows_ok E s"
  by (auto simp: enqueue_Inr table_simps rows_ok_def placed_def)

lemma generate_secret_eq [simp]:
  "generate_secret E s = (''whsec_'' @ token_urlsafe E (n_rand s), s\<lparr>n_rand := Suc (n_rand s)\<rparr>)"
  by (simp add: generate_secret_def draw_def)

section \<open>Committed states\<close>

definition good :: "env \<Rightarrow> session \<Rightarrow> bool" where
  "good E s \<longleftrightarrow> rows_ok E s \<and> constraints_ok s \<and> new_events s = []"

lemma good_commit: "commit E s = Inr s' \<Longrightarrow> rows_ok E s \<Longrightarrow> good E s'"
  by (auto simp: good_def commit_Inr table_simps)

lemma constraints_ok_frame [table_simps]:
  "constraints_ok (s\<lparr>tasks := ts\<rparr>) = constraints_ok s" "constraints_ok (s\<lparr>outbox := ob\<rparr>) = constraints_ok s"
  "constraints_ok (rollback s s1) = constraints_ok s" "new_events (rollback s s1) = []"
  by (simp_all add: constraints_ok_def rollback_def)

lemma good_queue_run: "good E s \<Longrightarrow> queue_run E s s' \<Longrightarrow> constraints_ok s' \<Longrightarrow> new_events s' = [] \<Longrightarrow> good E s'"
  by (auto simp: good_def intro: rows_ok_queue_run)

lemma good_fresh_session:
  assumes "good E s"
  shows "good E (snd (attempt_in_fresh_session E i s))"
proof -
  have "constraints_ok (snd (attempt_in_fresh_session E i s))
      \<and> new_events (snd (attempt_in_fresh_session E i s)) = []"
    using assms by (auto simp: attempt_in_fresh_session_def good_def commit_Inr table_simps
        split: sum.splits prod.splits)
  with assms show ?thesis by (intro good_queue_run[OF assms queue_run_fresh_session]) simp_all
qed

lemma good_tasks [table_simps]: "good E (s\<lparr>tasks := ts\<rparr>) = good E s"
  by (simp add: good_def table_simps)

lemma good_outbox [table_simps]: "good E (s\<lparr>outbox := ob\<rparr>) = good E s"
  by (simp add: good_def table_simps)

lemma queue_run_tasks: "queue_run E s s' \<Longrightarrow> queue_run E s (s'\<lparr>tasks := ts\<rparr>)"
  by (simp add: queue_run_def same_data_def)

end
