(* ===== verification/Email.thy ===== *)
theory Email
  imports Webhooks Datetime
begin

text \<open>
  Outgoing mail (\<^verbatim>\<open>app/email.py\<close>): the two messages, sent through the provider's HTTP API.
  The provider's URL is fixed and well formed, so the client can raise only exceptions of its
  \<^verbatim>\<open>HTTPError\<close> family there, which the code catches.
\<close>

definition email_api :: string where
  "email_api = ''https://api.resend.com/emails''"

text \<open>\<^verbatim>\<open>email.utils.formataddr\<close> on an ASCII name.\<close>

definition format_from :: "string \<Rightarrow> string \<Rightarrow> string" where
  "format_from addr product_name =
    (if product_name = [] then addr
     else (let special = (\<lambda>c. c \<in> set (''][()<>@,:;.'' @ [quote, backslash]));
               q = (if list_ex special product_name then [quote] else []);
               esc = concat (map (\<lambda>c. if c = quote \<or> c = backslash then [backslash, c] else [c]) product_name)
       in q @ esc @ q @ '' <'' @ addr @ ''>''))"

definition text_body :: "string \<Rightarrow> string \<Rightarrow> string" where
  "text_body product_name key =
     ''Thanks for licensing '' @ product_name @ ''.'' @ [newline, newline]
     @ ''Your license key:'' @ [newline, newline] @ ''  '' @ key @ [newline, newline]
     @ ''Set this as your LICENSE_KEY environment variable when installing the app.'' @ [newline]
     @ ''Keep it secret -- anyone with this key can use the license.'' @ [newline, newline]
     @ ''Reply to this email if you need help installing.'' @ [newline]"

definition email_payload :: "env \<Rightarrow> string \<Rightarrow> string \<Rightarrow> string \<Rightarrow> string \<Rightarrow> json" where
  "email_payload E to product_name subject txt = JDict [
     (''from'', JStr (format_from (email_from (cfg E)) product_name)), (''to'', JList [JStr to]),
     (''subject'', JStr subject), (''text'', JStr txt)]"

definition email_request :: "env \<Rightarrow> json \<Rightarrow> http_request" where
  "email_request E payload = \<lparr>rq_url = email_api,
     rq_headers = [(''Authorization'', ''Bearer '' @ resend_api_key (cfg E)),
       (''Content-Type'', ''application/json'')],
     rq_body = dumps_compact payload, rq_sni = None\<rparr>"

definition send_email :: "env \<Rightarrow> json \<Rightarrow> session \<Rightarrow> bool \<times> session" where
  "send_email E payload s =
     ((case http_post E (length (outbox s)) (email_request E payload) of
         Response status txt \<Rightarrow> 200 \<le> status \<and> status < 300
       | _ \<Rightarrow> False),
      s\<lparr>outbox := outbox s @ [email_request E payload]\<rparr>)"

definition send_license_email :: "env \<Rightarrow> string \<Rightarrow> string \<Rightarrow> string \<Rightarrow> session \<Rightarrow> bool \<times> session" where
  "send_license_email E to key product_name s =
    (if resend_api_key (cfg E) = [] then (False, s)
     else send_email E (email_payload E to product_name
            (''Your '' @ product_name @ '' license key'') (text_body product_name key)) s)"

definition plural :: "int \<Rightarrow> string" where
  "plural n = (if n \<noteq> 1 then ''s'' else '''')"

definition send_expiry_warning_email ::
  "env \<Rightarrow> string \<Rightarrow> string \<Rightarrow> string \<Rightarrow> int \<Rightarrow> string \<Rightarrow> session \<Rightarrow> bool \<times> session" where
  "send_expiry_warning_email E to key product_name days_left valid_until_iso s =
    (if resend_api_key (cfg E) = [] then (False, s)
     else send_email E (email_payload E to product_name
        (''Your '' @ product_name @ '' license expires in '' @ show_int days_left @ '' day'' @ plural days_left)
        (''Your '' @ product_name @ '' license expires on '' @ valid_until_iso @ ''.'' @ [newline, newline]
         @ ''License key (for reference, do not share):'' @ [newline] @ ''  '' @ key @ [newline, newline]
         @ ''That's '' @ show_int days_left @ '' day'' @ plural days_left @ '' from today. ''
         @ ''Reply to this email to renew or extend.'' @ [newline])) s)"

lemma send_email_frame: "snd (send_email E pl s) = s\<lparr>outbox := outbox s @ [email_request E pl]\<rparr>"
  by (simp add: send_email_def)

lemma send_license_email_frame:
  "snd (send_license_email E to key nm s) = s\<lparr>outbox := outbox (snd (send_license_email E to key nm s))\<rparr>"
  by (simp add: send_license_email_def send_email_def)

end
