(* ===== verification/Licenses.thy ===== *)
theory Licenses
  imports Wellformed Email
begin

text \<open>
  The licence lifecycle (\<^verbatim>\<open>app/services/licenses.py\<close>): issuing, status changes, webhook
  configuration, edits, test deliveries and deletion. A function that receives a mutable
  licence takes its row and writes it back. The optional scheduler of the code is the
  choice between an attempt at once (\<open>Sync\<close>) and a background task of the request
  (\<open>Background\<close>); \<open>run_tasks\<close> runs those after the response.
\<close>

section \<open>After the commit\<close>

datatype schedule = Sync | Background

definition run_attempt :: "env \<Rightarrow> schedule \<Rightarrow> uid \<Rightarrow> session \<Rightarrow> session" where
  "run_attempt E sched delivery_id s = (case sched of
      Sync \<Rightarrow> snd (attempt_in_fresh_session E delivery_id s)
    | Background \<Rightarrow> s\<lparr>tasks := tasks s @ [delivery_id]\<rparr>)"

definition run_tasks :: "env \<Rightarrow> session \<Rightarrow> session" where
  "run_tasks E s = foldl (\<lambda>s d. snd (attempt_in_fresh_session E d s)) (s\<lparr>tasks := []\<rparr>) (tasks s)"

definition run_delivery :: "env \<Rightarrow> schedule \<Rightarrow> uid option \<Rightarrow> session \<Rightarrow> session" where
  "run_delivery E sched delivery_id s = (case delivery_id of
      Some d \<Rightarrow> if d \<noteq> [] then run_attempt E sched d s else s
    | None \<Rightarrow> s)"

section \<open>Issuing\<close>

definition find_or_add_customer ::
  "env \<Rightarrow> string option \<Rightarrow> string \<Rightarrow> string option \<Rightarrow> session \<Rightarrow> (customer \<times> session) res" where
  "find_or_add_customer E stripe_customer_id email name_clean s =
     rbind (case stripe_customer_id of
         Some i \<Rightarrow> one_or_none (\<lambda>c. c_stripe_customer_id c = Some i) (customers s)
       | None \<Rightarrow> one_or_none (\<lambda>c. c_email c = email) (customers s)) (\<lambda>found. case found of
       Some cust \<Rightarrow> Inr (cust, s)
     | None \<Rightarrow> (let (i, s1) = fresh_id E s;
           cust = \<lparr>c_id = i, c_stripe_customer_id = stripe_customer_id, c_email = email,
                   c_name = name_clean, c_created_at = now s\<rparr>
         in rbind (flush E (s1\<lparr>customers := customers s1 @ [cust]\<rparr>)) (\<lambda>s2. Inr (cust, s2))))"

definition clean :: "string option \<Rightarrow> string option" where
  "clean x = (case x of None \<Rightarrow> None | Some v \<Rightarrow> or_none (strip v))"

text \<open>The row of a new licence; its key and its webhook secret are drawn here.\<close>

definition new_license ::
  "env \<Rightarrow> product \<Rightarrow> customer \<Rightarrow> string \<Rightarrow> int \<Rightarrow> int \<Rightarrow> json \<Rightarrow> string option \<Rightarrow> bool \<Rightarrow> session
    \<Rightarrow> (license \<times> session) res" where
  "new_license E p cust plan max_users valid_days features url allow_http s =
     (let (secret, s2) = (if url \<noteq> None then apfst Some (generate_secret E s) else (None, s));
          (body, s3) = draw (token_urlsafe E) s2;
          key = p_key_prefix p @ ''_'' @ body
      in rbind (hash_key E key) (\<lambda>h.
         rbind (add_delta (now s3) (valid_days * day_us)) (\<lambda>vu.
         let (i, s4) = fresh_id E s3
         in Inr (\<lparr>l_id = i, l_product_id = p_id p, l_customer_id = c_id cust, l_key = key,
               l_plan = plan, l_max_users = max_users, l_features = features, l_valid_until = vu,
               l_status = Active, l_created_at = now s4, l_webhook_url = url,
               l_webhook_secret = secret, l_webhook_url_source = (if url \<noteq> None then Admin else Self),
               l_allow_http_webhook = allow_http, l_key_hash = h, l_key_display = make_display key\<rparr>, s4))))"

text \<open>
  The event is built before the licence has been flushed, when the licence has no
  identifier yet: its \<open>license_id\<close> is \<open>None\<close>.
\<close>

definition issue_license ::
  "env \<Rightarrow> product \<Rightarrow> string \<Rightarrow> string option \<Rightarrow> string \<Rightarrow> int \<Rightarrow> int \<Rightarrow> json \<Rightarrow> string option \<Rightarrow> bool
    \<Rightarrow> string option \<Rightarrow> string \<Rightarrow> bool \<Rightarrow> session \<Rightarrow> ((license \<times> customer) \<times> session) res" where
  "issue_license E p email name plan max_users valid_days features webhook_url allow_http
      stripe_customer_id note send s =
    rbind (find_or_add_customer E stripe_customer_id email (clean name) s) (\<lambda>(cust, s1).
    let url = clean webhook_url in
    if url \<noteq> None \<and> \<not> is_safe_url_shape (the url) allow_http then Inl (Unsafe ''unsafe webhook url'')
    else
      rbind (new_license E p cust plan max_users valid_days features url allow_http s1) (\<lambda>(lic, s4).
      let s5 = audit None (Some (p_id p)) ''issued''
            (JDict [(''plan'', JStr plan), (''webhook'', JBool (url \<noteq> None))]) (Some note)
            (s4\<lparr>licenses := licenses s4 @ [lic]\<rparr>)
      in rbind (commit E s5) (\<lambda>s6.
         Inr ((lic, cust), if send then snd (send_license_email E (c_email cust) (l_key lic) (p_name p) s6)
                           else s6))))"

section \<open>Status transitions\<close>

definition status_data :: "'a tables_scheme \<Rightarrow> license \<Rightarrow> license_status \<Rightarrow> json" where
  "status_data t lic new_status = JDict (license_refs t lic @
     [(''previous_status'', JStr (status_text (l_status lic))),
      (''current_status'', JStr (status_text new_status))])"

text \<open>Queue a notification of the licence, when it has a webhook: the delivery's identifier.\<close>

definition notify :: "env \<Rightarrow> license \<Rightarrow> string \<Rightarrow> json \<Rightarrow> session \<Rightarrow> (uid option \<times> session) res" where
  "notify E lic event_type data s = (if has_webhook lic then
       rbind (enqueue E (the (l_webhook_url lic)) (the (l_webhook_secret lic)) event_type data
               (Some (l_id lic)) (Some (l_product_id lic)) s) (\<lambda>(d, s'). Inr (Some (d_id d), s'))
     else Inr (None, s))"

definition finish :: "env \<Rightarrow> schedule \<Rightarrow> uid option \<Rightarrow> session \<Rightarrow> session res" where
  "finish E sched delivery_id s = rbind (commit E s) (\<lambda>s'. Inr (run_delivery E sched delivery_id s'))"

definition set_status ::
  "env \<Rightarrow> license \<Rightarrow> license_status \<Rightarrow> string \<Rightarrow> schedule \<Rightarrow> session \<Rightarrow> session res" where
  "set_status E lic new_status note sched s =
     (let s1 = put_license (lic\<lparr>l_status := new_status\<rparr>) s;
          s2 = audit (Some (l_id lic)) (Some (l_product_id lic)) (''status:'' @ status_text new_status)
                 (JDict []) (Some note) s1
      in rbind (notify E lic EVENT_STATUS_CHANGED (status_data s2 lic new_status) s2) (\<lambda>(d, s3).
         finish E sched d s3))"

definition revoke_license :: "env \<Rightarrow> license \<Rightarrow> string \<Rightarrow> schedule \<Rightarrow> session \<Rightarrow> session res" where
  "revoke_license E lic = set_status E lic Revoked"

definition disable_license :: "env \<Rightarrow> license \<Rightarrow> string \<Rightarrow> schedule \<Rightarrow> session \<Rightarrow> session res" where
  "disable_license E lic = set_status E lic Disabled"

definition enable_license :: "env \<Rightarrow> license \<Rightarrow> string \<Rightarrow> schedule \<Rightarrow> session \<Rightarrow> session res" where
  "enable_license E lic = set_status E lic Active"

section \<open>Webhook configuration\<close>

definition mint :: "env \<Rightarrow> bool \<Rightarrow> license \<Rightarrow> session \<Rightarrow> license \<times> session" where
  "mint E cond lic s = (if cond
     then (let (k, s') = generate_secret E s in (lic\<lparr>l_webhook_secret := Some k\<rparr>, s'))
     else (lic, s))"

definition apply_webhook_config ::
  "env \<Rightarrow> license \<Rightarrow> string option \<Rightarrow> bool \<Rightarrow> bool \<Rightarrow> url_source \<Rightarrow> bool option \<Rightarrow> session
    \<Rightarrow> (license \<times> session) res" where
  "apply_webhook_config E lic url rot mint_on_url_change source allow_http s =
    (if truthy url then
       let effective = (case allow_http of Some a \<Rightarrow> a | None \<Rightarrow> l_allow_http_webhook lic) in
       if \<not> is_safe_url_shape (the url) effective then Inl (Unsafe ''unsafe webhook url'')
       else
         let (lic1, s1) = mint E (rot \<or> \<not> truthy (l_webhook_secret lic)
               \<or> (mint_on_url_change \<and> l_webhook_url lic \<noteq> url)) lic s;
             lic2 = lic1\<lparr>l_webhook_url := url, l_webhook_url_source := source\<rparr>
         in Inr (case allow_http of Some a \<Rightarrow> lic2\<lparr>l_allow_http_webhook := a\<rparr> | None \<Rightarrow> lic2, s1)
     else Inr (lic\<lparr>l_webhook_url := None, l_webhook_secret := None, l_webhook_url_source := Self,
                   l_allow_http_webhook := False\<rparr>, s))"

definition update_dict :: "(string \<times> json) list \<Rightarrow> (string \<times> json) list \<Rightarrow> (string \<times> json) list" where
  "update_dict d xs = foldl (\<lambda>d p. dict_put (fst p) (snd p) d) d xs"

definition configure_webhook ::
  "env \<Rightarrow> license \<Rightarrow> string option \<Rightarrow> bool \<Rightarrow> bool \<Rightarrow> url_source \<Rightarrow> bool option \<Rightarrow> string
    \<Rightarrow> (string \<times> json) list \<Rightarrow> session \<Rightarrow> session res" where
  "configure_webhook E lic url rot mint_on_url_change source allow_http note payload_extra s =
     rbind (apply_webhook_config E lic url rot mint_on_url_change source allow_http s) (\<lambda>(lic', s1).
     commit E (audit (Some (l_id lic)) (Some (l_product_id lic)) ''webhook:updated''
       (JDict (update_dict [(''set'', JBool (truthy url))] payload_extra)) (Some note)
       (put_license lic' s1)))"

definition convert_webhook_to_self :: "env \<Rightarrow> license \<Rightarrow> string \<Rightarrow> session \<Rightarrow> session res" where
  "convert_webhook_to_self E lic note s =
    (if \<not> truthy (l_webhook_url lic) then Inl (ValidationFailed ''no webhook url to convert'')
     else if l_webhook_url_source lic \<noteq> Admin then Inl (ValidationFailed ''already self-registered'')
     else
       let (lic', s1) = mint E True (lic\<lparr>l_webhook_url_source := Self\<rparr>) s
       in commit E (audit (Some (l_id lic)) (Some (l_product_id lic)) ''webhook:converted_to_self''
            (JDict [(''url'', jopt (l_webhook_url lic)),
                    (''old_secret_invalidated'', JBool (truthy (l_webhook_secret lic)))]) (Some note)
            (put_license lic' s1)))"

section \<open>Editing\<close>

text \<open>
  A timezone-aware instant never equals the stored naive one; the column keeps its wall
  clock.
\<close>

definition parse_valid_until :: "string \<Rightarrow> (datetime \<times> bool) res" where
  "parse_valid_until raw =
     (case (if CHR ''T'' \<in> set raw then fromisoformat raw
            else map_option (\<lambda>t. (t, False)) (strptime_date raw)) of
        None \<Rightarrow> Inl (ValidationFailed ''invalid valid_until'')
      | Some v \<Rightarrow> Inr v)"

definition parse_features :: "string \<Rightarrow> json res" where
  "parse_features raw =
     (if strip raw = [] then Inr (JDict [])
      else case loads raw of
          Inl e \<Rightarrow> Inl (ValidationFailed ''invalid features json'')
        | Inr v \<Rightarrow> if is_dict v then Inr v else Inl (ValidationFailed ''invalid features json''))"

definition changed_fields ::
  "license \<Rightarrow> string \<Rightarrow> int \<Rightarrow> datetime \<times> bool \<Rightarrow> json \<Rightarrow> string list" where
  "changed_fields lic plan max_users vu features =
     (if l_plan lic \<noteq> plan then [''plan''] else [])
     @ (if l_max_users lic \<noteq> max_users then [''max_users''] else [])
     @ (if snd vu \<or> l_valid_until lic \<noteq> fst vu then [''valid_until''] else [])
     @ (if \<not> json_eq (if jtruthy (l_features lic) then l_features lic else JDict []) features
        then [''features''] else [])"

text \<open>The webhook part of an edit.\<close>

definition edit_webhook ::
  "env \<Rightarrow> license \<Rightarrow> string option \<Rightarrow> bool option \<Rightarrow> bool \<Rightarrow> session \<Rightarrow> (license \<times> session) res" where
  "edit_webhook E lic new_url allow_http rotate_secret s =
     (let url_changed = (new_url \<noteq> l_webhook_url lic) in
      if url_changed \<or> rotate_secret then
        apply_webhook_config E lic new_url rotate_secret True
          (if url_changed then Admin else l_webhook_url_source lic) allow_http s
      else
        let (lic1, s1) = mint E (truthy new_url \<and> \<not> truthy (l_webhook_secret lic)) lic s in
        case allow_http of
          Some a \<Rightarrow> if l_allow_http_webhook lic \<noteq> a then
              (if truthy new_url \<and> \<not> is_safe_url_shape (the new_url) a
               then Inl (Unsafe ''unsafe webhook url'')
               else Inr (lic1\<lparr>l_allow_http_webhook := a\<rparr>, s1))
            else Inr (lic1, s1)
        | None \<Rightarrow> Inr (lic1, s1))"

definition update_data :: "'a tables_scheme \<Rightarrow> license \<Rightarrow> string list \<Rightarrow> json" where
  "update_data t lic changed = JDict (license_refs t lic @
     [(''status'', JStr (status_text (l_status lic))), (''changed_fields'', JList (map JStr changed))])"

text \<open>The rest of an edit, once the row has its new values: the audit event and the notification.\<close>

definition edit_record ::
  "env \<Rightarrow> license \<Rightarrow> license \<Rightarrow> string option \<Rightarrow> string list \<Rightarrow> string \<Rightarrow> schedule \<Rightarrow> session
    \<Rightarrow> ((string list \<times> bool) \<times> session) res" where
  "edit_record E lic lic2 new_url changed note sched s1 =
     (let secret_changed = (l_webhook_secret lic2 \<noteq> l_webhook_secret lic);
          s2 = audit (Some (l_id lic)) (Some (l_product_id lic)) ''license:edited''
            (JDict [(''webhook'', JBool (truthy new_url)), (''secret_changed'', JBool secret_changed)])
            (Some note) (put_license lic2 s1)
      in rbind (if changed \<noteq> [] then notify E lic2 EVENT_UPDATED (update_data s2 lic2 changed) s2
                else Inr (None, s2)) (\<lambda>(d, s3).
         rbind (finish E sched d s3) (\<lambda>s4. Inr ((changed, secret_changed), s4))))"

definition edit_license ::
  "env \<Rightarrow> license \<Rightarrow> string \<Rightarrow> int \<Rightarrow> string \<Rightarrow> string \<Rightarrow> string \<Rightarrow> bool option \<Rightarrow> bool \<Rightarrow> string
    \<Rightarrow> schedule \<Rightarrow> session \<Rightarrow> ((string list \<times> bool) \<times> session) res" where
  "edit_license E lic plan max_users valid_until_raw features_json webhook_url allow_http
      rotate_secret note sched s =
     rbind (parse_features features_json) (\<lambda>features.
     rbind (parse_valid_until valid_until_raw) (\<lambda>vu.
     let lic1 = lic\<lparr>l_plan := plan, l_max_users := max_users, l_valid_until := fst vu,
                    l_features := features\<rparr>;
         new_url = or_none (strip webhook_url)
     in rbind (edit_webhook E lic1 new_url allow_http rotate_secret s) (\<lambda>(lic2, s1).
        edit_record E lic lic2 new_url (changed_fields lic plan max_users vu features) note sched s1)))"

section \<open>Test delivery\<close>

definition test_delivery :: "uid \<Rightarrow> datetime \<Rightarrow> license \<Rightarrow> json \<Rightarrow> outcome \<Rightarrow> delivery" where
  "test_delivery i t lic data r = (let (ok, status, err) = r in
     (new_delivery i t (the (l_webhook_url lic)) (the (l_webhook_secret lic)) ''license.test'' data
        (Some (l_id lic)) (Some (l_product_id lic)))
     \<lparr>d_attempts := 1, d_status := (if ok then Delivered else Abandoned),
      d_last_attempt_at := Some t, d_delivered_at := (if ok then Some t else None),
      d_last_error := (if ok then None else Some (clip 500 err ''(no detail)'')),
      d_response_status := status,
      d_response_excerpt := (if status \<noteq> None then or_none (clip 500 err '''') else None)\<rparr>)"

definition test_data :: "license \<Rightarrow> product \<Rightarrow> customer \<Rightarrow> json" where
  "test_data lic p c = JDict [(''license_id'', JStr (l_id lic)), (''key'', JStr (l_key lic)),
     (''product_slug'', JStr (p_slug p)), (''customer_email'', JStr (c_email c)), (''test'', JBool True)]"

definition test_webhook :: "env \<Rightarrow> license \<Rightarrow> session \<Rightarrow> (outcome \<times> session) res" where
  "test_webhook E lic s =
    (if \<not> has_webhook lic then Inl (ValidationFailed ''no webhook configured'')
     else
       rbind (attr (product_of s lic)) (\<lambda>p. rbind (attr (customer_of s lic)) (\<lambda>c.
       rbind (deliver E (the (l_webhook_url lic)) (the (l_webhook_secret lic)) ''license.test''
                (test_data lic p c) None None (l_allow_http_webhook lic) s) (\<lambda>(r, s1).
       let (i, s2) = fresh_id E s1;
           d = test_delivery i (now s2) lic (test_data lic p c) r
       in rbind (commit E (s2\<lparr>deliveries := deliveries s2 @ [d]\<rparr>)) (\<lambda>s3. Inr (r, s3))))))"

section \<open>Deletion\<close>

record snapshot =
  sn_license_id :: uid
  sn_key :: string
  sn_product_slug :: string
  sn_customer_email :: string
  sn_webhook_url :: "string option"
  sn_webhook_secret :: "string option"

definition deleted_data :: "snapshot \<Rightarrow> json" where
  "deleted_data n = JDict [(''license_id'', JStr (sn_license_id n)), (''license_key'', JStr (sn_key n)),
     (''key'', JStr (sn_key n)), (''product_slug'', JStr (sn_product_slug n)),
     (''customer_email'', JStr (sn_customer_email n))]"

definition forget_license :: "uid \<Rightarrow> session \<Rightarrow> session" where
  "forget_license i s = s\<lparr>
     events := update_where (\<lambda>e. e_license_id e = Some i) (\<lambda>e. e\<lparr>e_license_id := None\<rparr>) (events s),
     installs := delete_where (\<lambda>x. i_license_id x = i) (installs s),
     licenses := delete_where (\<lambda>x. l_id x = i) (licenses s)\<rparr>"

definition take_snapshot :: "'a tables_scheme \<Rightarrow> license \<Rightarrow> snapshot res" where
  "take_snapshot t lic = rbind (attr (product_of t lic)) (\<lambda>p. rbind (attr (customer_of t lic)) (\<lambda>c.
     Inr \<lparr>sn_license_id = l_id lic, sn_key = l_key lic, sn_product_slug = p_slug p,
          sn_customer_email = c_email c, sn_webhook_url = l_webhook_url lic,
          sn_webhook_secret = l_webhook_secret lic\<rparr>))"

definition audit_deleted :: "license \<Rightarrow> snapshot \<Rightarrow> string \<Rightarrow> session \<Rightarrow> session" where
  "audit_deleted lic snap note s = audit None (Some (l_product_id lic)) ''license:deleted''
     (JDict [(''license_id'', JStr (sn_license_id snap)), (''key'', JStr (sn_key snap)),
        (''product_slug'', JStr (sn_product_slug snap)), (''customer_email'', JStr (sn_customer_email snap))])
     (Some note) s"

definition notify_deleted :: "env \<Rightarrow> license \<Rightarrow> snapshot \<Rightarrow> session \<Rightarrow> (uid option \<times> session) res" where
  "notify_deleted E lic snap s =
    (if truthy (sn_webhook_url snap) \<and> truthy (sn_webhook_secret snap) then
       rbind (enqueue E (the (sn_webhook_url snap)) (the (sn_webhook_secret snap)) EVENT_DELETED
               (deleted_data snap) None (Some (l_product_id lic)) s) (\<lambda>(d, s'). Inr (Some (d_id d), s'))
     else Inr (None, s))"

definition delete_license_in_tx ::
  "env \<Rightarrow> license \<Rightarrow> string \<Rightarrow> session \<Rightarrow> ((snapshot \<times> uid option) \<times> session) res" where
  "delete_license_in_tx E lic note s =
     rbind (take_snapshot s lic) (\<lambda>snap.
     rbind (notify_deleted E lic snap (audit_deleted lic snap note s)) (\<lambda>(delivery_id, s2).
     Inr ((snap, delivery_id), forget_license (l_id lic) s2)))"

definition delete_license :: "env \<Rightarrow> license \<Rightarrow> schedule \<Rightarrow> string \<Rightarrow> session \<Rightarrow> session res" where
  "delete_license E lic sched note s =
     rbind (delete_license_in_tx E lic note s) (\<lambda>((snap, delivery_id), s1).
     finish E sched delivery_id s1)"

text \<open>Stage a list of deletions in one transaction.\<close>

fun delete_all_in_tx ::
  "env \<Rightarrow> license list \<Rightarrow> string \<Rightarrow> session \<Rightarrow> ((snapshot \<times> uid option) list \<times> session) res" where
  "delete_all_in_tx E [] note s = Inr ([], s)"
| "delete_all_in_tx E (lic # lics) note s =
     rbind (delete_license_in_tx E lic note s) (\<lambda>(x, s1).
     rbind (delete_all_in_tx E lics note s1) (\<lambda>(xs, s2). Inr (x # xs, s2)))"

definition run_deliveries :: "env \<Rightarrow> schedule \<Rightarrow> uid option list \<Rightarrow> session \<Rightarrow> session" where
  "run_deliveries E sched ds s = foldl (\<lambda>s d. run_delivery E sched d s) s ds"

definition delete_licenses_bulk ::
  "env \<Rightarrow> license list \<Rightarrow> schedule \<Rightarrow> string \<Rightarrow> session \<Rightarrow> (snapshot list \<times> session) res" where
  "delete_licenses_bulk E lics sched note s =
     rbind (delete_all_in_tx E lics note s) (\<lambda>(pairs, s1).
     rbind (commit E s1) (\<lambda>s2.
     Inr (map fst pairs, run_deliveries E sched (map snd pairs) s2)))"

section \<open>What happens after the commit\<close>

lemma run_delivery_run: "queue_run E s (run_delivery E sched d s)"
  by (auto simp: run_delivery_def run_attempt_def intro: queue_run_refl queue_run_tasks
      queue_run_fresh_session split: option.splits schedule.splits)

lemma good_run_delivery: "good E s \<Longrightarrow> good E (run_delivery E sched d s)"
  by (auto simp: run_delivery_def run_attempt_def good_fresh_session table_simps
      split: option.splits schedule.splits)

lemma run_deliveries_good: "good E s \<Longrightarrow> good E (run_deliveries E sched ds s)"
  by (induction ds arbitrary: s) (simp_all add: run_deliveries_def good_run_delivery)

lemma run_deliveries_run: "queue_run E s (run_deliveries E sched ds s)"
  by (induction ds arbitrary: s)
    (auto simp: run_deliveries_def intro: queue_run_refl queue_run_trans run_delivery_run)

lemma run_deliveries_background:
  "\<forall>d \<in> set ds. \<forall>i. d = Some i \<longrightarrow> i \<noteq> [] \<Longrightarrow>
   run_deliveries E Background ds s = s\<lparr>tasks := tasks s @ concat (map opt_list ds)\<rparr>"
  by (induction ds arbitrary: s)
    (auto simp: run_deliveries_def run_delivery_def run_attempt_def split: option.splits)

lemma finish_Inr: "finish E sched d s = Inr s' \<longleftrightarrow>
    constraints_ok (flush_events E s) \<and> s' = run_delivery E sched d (flush_events E s)"
  by (auto simp: finish_def commit_Inr res_simps)

lemma finish_good: "finish E sched d s = Inr s' \<Longrightarrow> rows_ok E s \<Longrightarrow> good E s'"
  using good_run_delivery[of E "flush_events E s" sched d] by (auto simp: finish_Inr good_def table_simps)

lemma finish_licenses:
  assumes "finish E sched d s = Inr s'"
  shows "licenses s' = licenses s" and "products s' = products s" and "customers s' = customers s"
    and "installs s' = installs s" and "presets s' = presets s"
  using assms run_delivery_run[of E "flush_events E s" sched d]
  by (simp_all add: finish_Inr queue_run_def same_data_def table_simps)

lemma notify_cases:
  assumes "notify E lic ty data s = Inr (d, s')"
  obtains (silent) "\<not> has_webhook lic" "d = None" "s' = s"
  | (queued) r where "has_webhook lic" "d = Some (uuid4 E (n_uuid s))"
      "r = new_delivery (uuid4 E (n_uuid s)) (now s) (the (l_webhook_url lic))
         (the (l_webhook_secret lic)) ty data (Some (l_id lic)) (Some (l_product_id lic))"
      "s' = flush_events E (s\<lparr>n_uuid := Suc (n_uuid s), deliveries := deliveries s @ [r]\<rparr>)"
  using assms
  by (auto simp: notify_def enqueue_Inr res_simps new_delivery_def split: if_splits)

lemma notify_rows: "notify E lic ty data s = Inr (d, s') \<Longrightarrow> rows_ok E s' = rows_ok E s"
  by (auto simp: notify_def res_simps dest: rows_ok_enqueue split: if_splits)

lemma notify_licenses: "notify E lic ty data s = Inr (d, s') \<Longrightarrow> licenses s' = licenses s \<and> n_rand s' = n_rand s"
  by (elim notify_cases) (auto simp: table_simps)

section \<open>Status\<close>

lemma set_status_good:
  assumes "set_status E lic st note sched s = Inr s'" and "good E s" and "lic \<in> set (licenses s)"
  shows "good E s'"
proof -
  have "rows_ok E (put_license (lic\<lparr>l_status := st\<rparr>) s)"
    using assms rows_ok_license[of E s lic]
    by (intro rows_ok_put_license[where l = lic])
      (auto simp: good_def same_identity_def license_wf_def webhook_wf_def)
  then show ?thesis using assms(1)
    by (auto simp: set_status_def Let_def res_simps table_simps dest!: notify_rows intro: finish_good)
qed

section \<open>Webhook configuration\<close>

lemma mint_cases: "mint E c lic s = (lic', s') \<longleftrightarrow>
    (lic' = (if c then lic\<lparr>l_webhook_secret := Some (''whsec_'' @ token_urlsafe E (n_rand s))\<rparr> else lic)
     \<and> s' = (if c then s\<lparr>n_rand := Suc (n_rand s)\<rparr> else s))"
  by (auto simp: mint_def)

definition fresh_rand :: "session \<Rightarrow> session \<Rightarrow> bool" where
  "fresh_rand s s' \<longleftrightarrow> s' = s\<lparr>n_rand := n_rand s'\<rparr>"

lemma fresh_rand_update [simp]: "fresh_rand s (s\<lparr>n_rand := k\<rparr>)" "fresh_rand s s"
  by (simp_all add: fresh_rand_def)

definition same_terms :: "license \<Rightarrow> license \<Rightarrow> bool" where
  "same_terms l l' \<longleftrightarrow> l_plan l' = l_plan l \<and> l_status l' = l_status l \<and> l_max_users l' = l_max_users l
     \<and> l_features l' = l_features l \<and> l_valid_until l' = l_valid_until l"

lemma mint_frame: "mint E c lic s = (lic', s') \<Longrightarrow>
    same_identity lic lic' \<and> same_terms lic lic' \<and> fresh_rand s s' \<and> l_webhook_url lic' = l_webhook_url lic
    \<and> l_allow_http_webhook lic' = l_allow_http_webhook lic
    \<and> l_webhook_url_source lic' = l_webhook_url_source lic
    \<and> (if c then truthy (l_webhook_secret lic') else l_webhook_secret lic' = l_webhook_secret lic)"
  by (auto simp: mint_def same_identity_def same_terms_def)

lemma apply_webhook_config_wf:
  assumes "apply_webhook_config E lic url rot m src allow s = Inr (lic', s')"
  shows "webhook_wf lic' \<and> same_identity lic lic' \<and> same_terms lic lic' \<and> fresh_rand s s'"
proof (cases "truthy url")
  case True
  obtain lic1 s1 where m: "mint E (rot \<or> \<not> truthy (l_webhook_secret lic)
      \<or> (m \<and> l_webhook_url lic \<noteq> url)) lic s = (lic1, s1)"
    by (cases "mint E (rot \<or> \<not> truthy (l_webhook_secret lic) \<or> (m \<and> l_webhook_url lic \<noteq> url)) lic s")
  from mint_frame[OF m] have "truthy (l_webhook_secret lic1)" by (auto split: if_splits)
  with True assms m mint_frame[OF m] show ?thesis
    by (cases allow) (auto simp: apply_webhook_config_def webhook_wf_def same_identity_def
        same_terms_def Let_def split: if_splits)
next
  case False
  with assms show ?thesis
    by (auto simp: apply_webhook_config_def webhook_wf_def same_identity_def same_terms_def)
qed

lemma edit_webhook_wf:
  assumes "edit_webhook E lic url allow rot s = Inr (lic', s')" and "webhook_wf lic"
  shows "webhook_wf lic' \<and> same_identity lic lic' \<and> same_terms lic lic' \<and> fresh_rand s s'"
proof (cases "url \<noteq> l_webhook_url lic \<or> rot")
  case True
  with assms show ?thesis by (auto simp: edit_webhook_def Let_def dest: apply_webhook_config_wf)
next
  case False
  obtain lic1 s1 where m: "mint E (truthy url \<and> \<not> truthy (l_webhook_secret lic)) lic s = (lic1, s1)"
    by (cases "mint E (truthy url \<and> \<not> truthy (l_webhook_secret lic)) lic s")
  from mint_frame[OF m] assms(2) have "webhook_wf lic1" by (auto simp: webhook_wf_def split: if_splits)
  with False assms m mint_frame[OF m] show ?thesis
    by (cases allow) (auto simp: edit_webhook_def webhook_wf_def same_identity_def same_terms_def
        split: if_splits)
qed

lemma configure_webhook_good:
  assumes "configure_webhook E lic url rot m src allow note pe s = Inr s'" and "good E s"
    and "lic \<in> set (licenses s)"
  shows "good E s'"
proof -
  obtain lic' s1 where a: "apply_webhook_config E lic url rot m src allow s = Inr (lic', s1)"
    and c: "commit E (audit (Some (l_id lic)) (Some (l_product_id lic)) ''webhook:updated''
       (JDict (update_dict [(''set'', JBool (truthy url))] pe)) (Some note) (put_license lic' s1)) = Inr s'"
    using assms(1) by (auto simp: configure_webhook_def res_simps)
  from apply_webhook_config_wf[OF a] obtain k where k: "s1 = s\<lparr>n_rand := k\<rparr>"
    and "webhook_wf lic'" "same_identity lic lic'" unfolding fresh_rand_def by blast
  then have "rows_ok E (put_license lic' s1)"
    using assms(2,3) by (intro rows_ok_put_license[where l = lic]) (simp_all add: good_def table_simps)
  with c show ?thesis by (auto intro!: good_commit simp: table_simps)
qed

lemma convert_webhook_good:
  assumes "convert_webhook_to_self E lic note s = Inr s'" and "good E s" and "lic \<in> set (licenses s)"
  shows "good E s'"
proof -
  let ?lic = "lic\<lparr>l_webhook_url_source := Self,
    l_webhook_secret := Some (''whsec_'' @ token_urlsafe E (n_rand s))\<rparr>"
  have w: "webhook_wf lic" using assms(2,3) by (auto simp: good_def license_wf_def dest: rows_ok_license)
  have "rows_ok E (put_license ?lic (s\<lparr>n_rand := Suc (n_rand s)\<rparr>))"
    using assms(2,3) w by (intro rows_ok_put_license[where l = lic])
      (simp_all add: good_def table_simps same_identity_def webhook_wf_def)
  with assms(1) show ?thesis
    by (auto simp: convert_webhook_to_self_def mint_def table_simps split: if_splits intro: good_commit)
qed

section \<open>Editing\<close>

definition edited_terms :: "license \<Rightarrow> string \<Rightarrow> int \<Rightarrow> datetime \<Rightarrow> json \<Rightarrow> license" where
  "edited_terms lic plan mu vu fe = lic\<lparr>l_plan := plan, l_max_users := mu, l_valid_until := vu, l_features := fe\<rparr>"

lemma edit_license_cases:
  assumes "edit_license E lic plan mu vur fj wu allow rot note sched s = Inr (r, s')"
  obtains fe vu lic2 s1 where "parse_features fj = Inr fe" "parse_valid_until vur = Inr vu"
    "edit_webhook E (edited_terms lic plan mu (fst vu) fe) (or_none (strip wu)) allow rot s = Inr (lic2, s1)"
    "edit_record E lic lic2 (or_none (strip wu)) (changed_fields lic plan mu vu fe) note sched s1 = Inr (r, s')"
  using assms unfolding edit_license_def edited_terms_def by (force simp: rbind_Inr_iff Let_def)

lemma edit_record_cases:
  assumes "edit_record E lic lic2 u ch note sched s = Inr (r, s')"
  obtains s2 d s3 where "r = (ch, l_webhook_secret lic2 \<noteq> l_webhook_secret lic)"
    "s2 = audit (Some (l_id lic)) (Some (l_product_id lic)) ''license:edited''
       (JDict [(''webhook'', JBool (truthy u)),
         (''secret_changed'', JBool (l_webhook_secret lic2 \<noteq> l_webhook_secret lic))])
       (Some note) (put_license lic2 s)"
    "(if ch \<noteq> [] then notify E lic2 EVENT_UPDATED (update_data s2 lic2 ch) s2 else Inr (None, s2)) = Inr (d, s3)"
    "finish E sched d s3 = Inr s'"
  using assms unfolding edit_record_def Let_def by (force simp: rbind_Inr_iff)

lemma edit_license_good:
  assumes e: "edit_license E lic plan mu vur fj wu allow rot note sched s = Inr (r, s')"
    and g: "good E s" and l: "lic \<in> set (licenses s)"
  shows "good E s'"
proof -
  obtain fe vu lic2 s1 where
    w: "edit_webhook E (edited_terms lic plan mu (fst vu) fe) (or_none (strip wu)) allow rot s = Inr (lic2, s1)"
    and e: "edit_record E lic lic2 (or_none (strip wu)) (changed_fields lic plan mu vu fe) note sched s1 = Inr (r, s')"
    using e by (rule edit_license_cases)
  have "webhook_wf (edited_terms lic plan mu (fst vu) fe)"
    using g l by (auto simp: good_def license_wf_def webhook_wf_def edited_terms_def dest: rows_ok_license)
  from edit_webhook_wf[OF w this] have w2: "webhook_wf lic2" "s1 = s\<lparr>n_rand := n_rand s1\<rparr>"
    and "same_identity (edited_terms lic plan mu (fst vu) fe) lic2" by (auto simp: fresh_rand_def)
  then have "same_identity lic lic2" by (simp add: same_identity_def edited_terms_def)
  moreover have "rows_ok E s1" "lic \<in> set (licenses s1)"
    using g l by (subst w2(2), simp add: good_def table_simps)+
  ultimately have p: "rows_ok E (put_license lic2 s1)" using w2(1) by (intro rows_ok_put_license)
  from e show ?thesis
  proof (rule edit_record_cases)
    fix s2 d s3
    assume "s2 = audit (Some (l_id lic)) (Some (l_product_id lic)) ''license:edited''
       (JDict [(''webhook'', JBool (truthy (or_none (strip wu)))),
         (''secret_changed'', JBool (l_webhook_secret lic2 \<noteq> l_webhook_secret lic))])
       (Some note) (put_license lic2 s1)"
      and "(if changed_fields lic plan mu vu fe \<noteq> []
        then notify E lic2 EVENT_UPDATED (update_data s2 lic2 (changed_fields lic plan mu vu fe)) s2
        else Inr (None, s2)) = Inr (d, s3)"
      and f: "finish E sched d s3 = Inr s'"
    with p have "rows_ok E s3" by (auto simp: table_simps dest: notify_rows split: if_splits)
    with f show ?thesis by (rule finish_good)
  qed
qed

section \<open>Test deliveries\<close>

lemma deliver_frame:
  assumes "deliver E url secret ty data eid ts allow s = Inr (r, s')"
  shows "\<exists>k m reqs. s' = s\<lparr>n_dns := k, n_uuid := m, outbox := outbox s @ reqs\<rparr> \<and> length reqs \<le> 1"
  using assms
proof (cases rule: deliver_cases)
  case (refused k)
  then show ?thesis by (intro exI[of _ k] exI[of _ "n_uuid s"] exI[of _ "[]"]) simp
next
  case (sent req k m i)
  then show ?thesis by (intro exI[of _ k] exI[of _ m] exI[of _ "[req]"]) simp
qed

lemma test_delivery_fields:
  "delivery_inv (test_delivery i t lic data r)"
  "d_status (test_delivery i t lic data r) = (if fst r then Delivered else Abandoned)"
  "d_event_type (test_delivery i t lic data r) = ''license.test''"
  "d_attempts (test_delivery i t lic data r) = 1"
  "d_license_id (test_delivery i t lic data r) = Some (l_id lic)"
  by (cases r, simp add: test_delivery_def new_delivery_def delivery_inv_def max_attempts_def
      backoff_schedule_def)+

lemma test_webhook_Inr:
  assumes "test_webhook E lic s = Inr (r, s')"
  obtains i data k m reqs where "has_webhook lic"
    "s' = flush_events E (s\<lparr>n_dns := k, n_uuid := m, outbox := outbox s @ reqs,
       deliveries := deliveries s @ [test_delivery i (now s) lic data r]\<rparr>)" "constraints_ok s'" "length reqs \<le> 1"
proof -
  obtain data s1 where w: "has_webhook lic"
    and d: "deliver E (the (l_webhook_url lic)) (the (l_webhook_secret lic)) ''license.test'' data
       None None (l_allow_http_webhook lic) s = Inr (r, s1)"
    and c: "commit E (s1\<lparr>n_uuid := Suc (n_uuid s1), deliveries := deliveries s1 @
       [test_delivery (uuid4 E (n_uuid s1)) (now s1) lic data r]\<rparr>) = Inr s'"
    using assms unfolding test_webhook_def fresh_id_def
    by (auto simp: rbind_Inr_iff split: if_splits)
  from deliver_frame[OF d] obtain k m reqs where s1:
    "s1 = s\<lparr>n_dns := k, n_uuid := m, outbox := outbox s @ reqs\<rparr>" and r: "length reqs \<le> 1" by blast
  have "s1\<lparr>n_uuid := Suc (n_uuid s1), deliveries := deliveries s1 @
       [test_delivery (uuid4 E (n_uuid s1)) (now s1) lic data r]\<rparr> =
     s\<lparr>n_dns := k, n_uuid := Suc m, outbox := outbox s @ reqs,
       deliveries := deliveries s @ [test_delivery (uuid4 E m) (now s) lic data r]\<rparr>" by (simp add: s1)
  from c[unfolded this commit_Inr] show ?thesis using that[OF w _ _ r] by blast
qed

lemma test_webhook_good:
  assumes "test_webhook E lic s = Inr (r, s')" and "good E s"
  shows "good E s'"
  using assms(1)
  by (rule test_webhook_Inr)
    (use assms(2) in \<open>auto simp: good_def table_simps rows_ok_def placed_def test_delivery_fields\<close>)

section \<open>Deleting\<close>

lemma forget_license_fields [table_simps]:
  "products (forget_license i s) = products s" "customers (forget_license i s) = customers s"
  "presets (forget_license i s) = presets s" "deliveries (forget_license i s) = deliveries s"
  "now (forget_license i s) = now s" "new_events (forget_license i s) = new_events s"
  "n_uuid (forget_license i s) = n_uuid s" "tasks (forget_license i s) = tasks s"
  "outbox (forget_license i s) = outbox s"
  "licenses (forget_license i s) = delete_where (\<lambda>x. l_id x = i) (licenses s)"
  "installs (forget_license i s) = delete_where (\<lambda>x. i_license_id x = i) (installs s)"
  by (simp_all add: forget_license_def)

lemma rows_ok_forget_license: "rows_ok E s \<Longrightarrow> rows_ok E (forget_license i s)"
  by (auto simp: rows_ok_def placed_def table_simps)

lemma take_snapshot_Inr: "take_snapshot t lic = Inr snap \<Longrightarrow> sn_license_id snap = l_id lic
    \<and> sn_key snap = l_key lic \<and> sn_webhook_url snap = l_webhook_url lic
    \<and> sn_webhook_secret snap = l_webhook_secret lic"
  by (auto simp: take_snapshot_def rbind_Inr_iff)

lemma notify_deleted_cases:
  assumes "notify_deleted E lic snap s = Inr (d, s')"
  obtains (silent) "\<not> (truthy (sn_webhook_url snap) \<and> truthy (sn_webhook_secret snap))" "d = None" "s' = s"
  | (queued) r where "truthy (sn_webhook_url snap)" "truthy (sn_webhook_secret snap)"
      "d = Some (uuid4 E (n_uuid s))"
      "r = new_delivery (uuid4 E (n_uuid s)) (now s) (the (sn_webhook_url snap))
         (the (sn_webhook_secret snap)) EVENT_DELETED (deleted_data snap) None (Some (l_product_id lic))"
      "s' = flush_events E (s\<lparr>n_uuid := Suc (n_uuid s), deliveries := deliveries s @ [r]\<rparr>)"
proof (cases "truthy (sn_webhook_url snap) \<and> truthy (sn_webhook_secret snap)")
  case True
  with assms obtain r where "enqueue E (the (sn_webhook_url snap)) (the (sn_webhook_secret snap))
      EVENT_DELETED (deleted_data snap) None (Some (l_product_id lic)) s = Inr (r, s')"
    and d: "d = Some (d_id r)" by (auto simp: notify_deleted_def rbind_Inr_iff)
  then have r: "r = new_delivery (uuid4 E (n_uuid s)) (now s) (the (sn_webhook_url snap))
      (the (sn_webhook_secret snap)) EVENT_DELETED (deleted_data snap) None (Some (l_product_id lic))"
    and s': "s' = flush_events E (s\<lparr>n_uuid := Suc (n_uuid s), deliveries := deliveries s @ [r]\<rparr>)"
    unfolding enqueue_Inr by blast+
  from r d have "d = Some (uuid4 E (n_uuid s))" by (simp add: new_delivery_def)
  with True r s' show ?thesis by (intro queued) blast+
next
  case False
  with assms show ?thesis by (intro silent) (auto simp: notify_deleted_def)
qed

lemma notify_deleted_rows: "notify_deleted E lic snap s = Inr (d, s') \<Longrightarrow> rows_ok E s' = rows_ok E s"
  by (auto simp: notify_deleted_def rbind_Inr_iff dest: rows_ok_enqueue split: if_splits)

lemma delete_in_tx_cases:
  assumes "delete_license_in_tx E lic note s = Inr ((snap, d), s')"
  obtains s2 where "take_snapshot s lic = Inr snap"
    "notify_deleted E lic snap (audit_deleted lic snap note s) = Inr (d, s2)"
    "s' = forget_license (l_id lic) s2"
  using assms unfolding delete_license_in_tx_def by (force simp: rbind_Inr_iff)

lemma delete_in_tx_rows:
  assumes "delete_license_in_tx E lic note s = Inr (x, s')" and "rows_ok E s"
  shows "rows_ok E s'"
proof -
  obtain snap d where x: "x = (snap, d)" by (cases x)
  from assms(1)[unfolded x] obtain s2 where
    n: "notify_deleted E lic snap (audit_deleted lic snap note s) = Inr (d, s2)"
    and s': "s' = forget_license (l_id lic) s2" by (rule delete_in_tx_cases)
  have "rows_ok E s2"
    using notify_deleted_rows[OF n] assms(2) by (simp add: audit_deleted_def table_simps)
  then show ?thesis unfolding s' by (rule rows_ok_forget_license)
qed

lemma delete_all_rows: "delete_all_in_tx E lics note s = Inr (xs, s') \<Longrightarrow> rows_ok E s \<Longrightarrow> rows_ok E s'"
  by (induction lics arbitrary: s xs) (auto simp: rbind_Inr_iff dest: delete_in_tx_rows)

lemma delete_license_good: "delete_license E lic sched note s = Inr s' \<Longrightarrow> good E s \<Longrightarrow> good E s'"
  by (auto simp: delete_license_def rbind_Inr_iff good_def[of E s] dest!: delete_in_tx_rows intro: finish_good)

lemma delete_bulk_good: "delete_licenses_bulk E lics sched note s = Inr (r, s') \<Longrightarrow> good E s \<Longrightarrow> good E s'"
  by (auto simp: delete_licenses_bulk_def rbind_Inr_iff good_def[of E s] dest!: delete_all_rows
      intro!: run_deliveries_good good_commit)

section \<open>Issuing\<close>

lemma find_or_add_customer_cases:
  assumes "find_or_add_customer E sid email nm s = Inr (cust, s')"
  obtains (found) "cust \<in> set (customers s)" "s' = s"
    "case sid of Some i \<Rightarrow> c_stripe_customer_id cust = Some i | None \<Rightarrow> c_email cust = email"
  | (added) s1 where "cust = \<lparr>c_id = uuid4 E (n_uuid s), c_stripe_customer_id = sid, c_email = email,
        c_name = nm, c_created_at = now s\<rparr>"
      "s1 = s\<lparr>n_uuid := Suc (n_uuid s), customers := customers s @ [cust]\<rparr>"
      "s' = flush_events E s1" "constraints_ok s'"
proof -
  obtain f where f: "(case sid of Some i \<Rightarrow> one_or_none (\<lambda>c. c_stripe_customer_id c = Some i) (customers s)
       | None \<Rightarrow> one_or_none (\<lambda>c. c_email c = email) (customers s)) = Inr f"
    using assms unfolding find_or_add_customer_def by (auto simp: rbind_Inr_iff)
  show ?thesis
  proof (cases f)
    case (Some c)
    with assms f have "cust = c" "s' = s" by (auto simp: find_or_add_customer_def)
    with f Some show ?thesis
      by (intro found) (auto dest: one_or_none_SomeD split: option.splits)
  next
    case None
    with assms f show ?thesis
      by (intro added[OF _ refl])
        (auto simp: find_or_add_customer_def fresh_id_def rbind_Inr_iff flush_Inr Let_def)
  qed
qed

lemma new_license_row:
  assumes "new_license E p cust plan mu vd fe url allow s = Inr (lic, s')"
  defines "k \<equiv> (if url \<noteq> None then Suc (n_rand s) else n_rand s)"
  defines "key \<equiv> p_key_prefix p @ ''_'' @ token_urlsafe E k"
  shows "\<exists>h. hash_key E key = Inr h \<and> s' = s\<lparr>n_rand := Suc k, n_uuid := Suc (n_uuid s)\<rparr>
    \<and> lic = \<lparr>l_id = uuid4 E (n_uuid s), l_product_id = p_id p, l_customer_id = c_id cust, l_key = key,
         l_plan = plan, l_max_users = mu, l_features = fe, l_valid_until = now s + vd * day_us,
         l_status = Active, l_created_at = now s, l_webhook_url = url,
         l_webhook_secret = (if url \<noteq> None then Some (''whsec_'' @ token_urlsafe E (n_rand s)) else None),
         l_webhook_url_source = (if url \<noteq> None then Admin else Self),
         l_allow_http_webhook = allow, l_key_hash = h, l_key_display = make_display key\<rparr>"
proof (cases url)
  case None
  with assms(1) show ?thesis
    by (auto simp: new_license_def draw_def fresh_id_def k_def key_def rbind_Inr_iff add_delta_Inr Let_def)
next
  case (Some u)
  with assms(1) show ?thesis
    by (auto simp: new_license_def draw_def fresh_id_def k_def key_def rbind_Inr_iff add_delta_Inr Let_def)
qed

lemma new_license_Inr:
  assumes "new_license E p cust plan mu vd fe url allow s = Inr (lic, s')"
  shows "l_product_id lic = p_id p \<and> l_customer_id lic = c_id cust \<and> l_status lic = Active
    \<and> l_plan lic = plan \<and> l_max_users lic = mu \<and> l_features lic = fe
    \<and> l_valid_until lic = now s + vd * day_us \<and> l_webhook_url lic = url
    \<and> l_webhook_url_source lic = (if url \<noteq> None then Admin else Self)
    \<and> (truthy (l_webhook_secret lic) \<longleftrightarrow> url \<noteq> None) \<and> l_allow_http_webhook lic = allow"
    and "\<exists>k \<ge> n_rand s. l_key lic = p_key_prefix p @ ''_'' @ token_urlsafe E k"
    and "hash_key E (l_key lic) = Inr (l_key_hash lic) \<and> l_key_display lic = make_display (l_key lic)"
    and "\<exists>j k. s' = s\<lparr>n_rand := k, n_uuid := j\<rparr>"
proof -
  define k where "k = (if url \<noteq> None then Suc (n_rand s) else n_rand s)"
  obtain h where h: "hash_key E (p_key_prefix p @ ''_'' @ token_urlsafe E k) = Inr h"
      "s' = s\<lparr>n_rand := Suc k, n_uuid := Suc (n_uuid s)\<rparr>"
    and l: "lic = \<lparr>l_id = uuid4 E (n_uuid s), l_product_id = p_id p, l_customer_id = c_id cust,
         l_key = p_key_prefix p @ ''_'' @ token_urlsafe E k,
         l_plan = plan, l_max_users = mu, l_features = fe, l_valid_until = now s + vd * day_us,
         l_status = Active, l_created_at = now s, l_webhook_url = url,
         l_webhook_secret = (if url \<noteq> None then Some (''whsec_'' @ token_urlsafe E (n_rand s)) else None),
         l_webhook_url_source = (if url \<noteq> None then Admin else Self),
         l_allow_http_webhook = allow, l_key_hash = h,
         l_key_display = make_display (p_key_prefix p @ ''_'' @ token_urlsafe E k)\<rparr>"
    using new_license_row[OF assms] unfolding k_def by blast
  show "\<exists>k \<ge> n_rand s. l_key lic = p_key_prefix p @ ''_'' @ token_urlsafe E k"
    by (rule exI[of _ k]) (simp add: l k_def)
  show "\<exists>j k. s' = s\<lparr>n_rand := k, n_uuid := j\<rparr>" using h(2) by blast
  show "hash_key E (l_key lic) = Inr (l_key_hash lic) \<and> l_key_display lic = make_display (l_key lic)"
    using h(1) by (simp add: l)
qed (use new_license_row[OF assms] in \<open>auto split: if_splits\<close>)

lemma issue_license_cases:
  assumes "issue_license E p email nm plan mu vd fe wu allow sid note send s = Inr ((lic, cust), s')"
  obtains s1 s4 s6 where "find_or_add_customer E sid email (clean nm) s = Inr (cust, s1)"
    "clean wu \<noteq> None \<longrightarrow> is_safe_url_shape (the (clean wu)) allow"
    "new_license E p cust plan mu vd fe (clean wu) allow s1 = Inr (lic, s4)"
    "commit E (audit None (Some (p_id p)) ''issued''
       (JDict [(''plan'', JStr plan), (''webhook'', JBool (clean wu \<noteq> None))]) (Some note)
       (s4\<lparr>licenses := licenses s4 @ [lic]\<rparr>)) = Inr s6"
    "s' = (if send then snd (send_license_email E (c_email cust) (l_key lic) (p_name p) s6) else s6)"
  using assms unfolding issue_license_def by (force simp: rbind_Inr_iff Let_def split: if_splits)

end
