(* ===== verification/Lifecycle.thy ===== *)
theory Lifecycle
  imports Licenses
begin

text \<open>
  What the licence operations guarantee: what an issued licence looks like, that a status
  change and its notification are written together, that an edit which leaves the webhook
  alone does not touch it, and what a deletion leaves behind.
\<close>

section \<open>Issuing\<close>

lemma find_or_add_customer_frame:
  assumes "find_or_add_customer E sid email nm s = Inr (cust, s')"
  shows "cust \<in> set (customers s') \<and> licenses s' = licenses s \<and> products s' = products s
    \<and> deliveries s' = deliveries s \<and> now s' = now s \<and> installs s' = installs s \<and> presets s' = presets s
    \<and> (customers s' = customers s \<or> customers s' = customers s @ [cust])"
  using assms by (cases rule: find_or_add_customer_cases) (auto simp: table_simps)

lemma find_or_add_customer_rows:
  assumes "find_or_add_customer E sid email nm s = Inr (cust, s')" and "rows_ok E s"
  shows "rows_ok E s'"
  using assms by (cases rule: find_or_add_customer_cases) (auto simp: table_simps rows_ok_def placed_def)

lemma issue_license_state:
  assumes "issue_license E p email nm plan mu vd fe wu allow sid note send s = Inr ((lic, cust), s')"
  obtains s1 s4 s6 where "find_or_add_customer E sid email (clean nm) s = Inr (cust, s1)"
    "clean wu \<noteq> None \<longrightarrow> is_safe_url_shape (the (clean wu)) allow"
    "new_license E p cust plan mu vd fe (clean wu) allow s1 = Inr (lic, s4)"
    "commit E (audit None (Some (p_id p)) ''issued''
       (JDict [(''plan'', JStr plan), (''webhook'', JBool (clean wu \<noteq> None))]) (Some note)
       (s4\<lparr>licenses := licenses s4 @ [lic]\<rparr>)) = Inr s6"
    "s' = s6\<lparr>outbox := outbox s'\<rparr>"
proof (rule issue_license_cases[OF assms])
  fix s1 s4 s6
  assume a: "find_or_add_customer E sid email (clean nm) s = Inr (cust, s1)"
    "clean wu \<noteq> None \<longrightarrow> is_safe_url_shape (the (clean wu)) allow"
    "new_license E p cust plan mu vd fe (clean wu) allow s1 = Inr (lic, s4)"
    "commit E (audit None (Some (p_id p)) ''issued''
       (JDict [(''plan'', JStr plan), (''webhook'', JBool (clean wu \<noteq> None))]) (Some note)
       (s4\<lparr>licenses := licenses s4 @ [lic]\<rparr>)) = Inr s6"
    and s': "s' = (if send then snd (send_license_email E (c_email cust) (l_key lic) (p_name p) s6) else s6)"
  have "s' = s6\<lparr>outbox := outbox s'\<rparr>"
  proof (cases send)
    case True
    then show ?thesis using s' send_license_email_frame by simp
  next
    case False
    then show ?thesis using s' by simp
  qed
  with a show thesis by (rule that)
qed

lemma issue_license_good:
  assumes i: "issue_license E p email nm plan mu vd fe wu allow sid note send s = Inr ((lic, cust), s')"
    and g: "good E s" and p: "p \<in> set (products s)"
  shows "good E s'"
proof (rule issue_license_state[OF i])
  fix s1 s4 s6
  assume c: "find_or_add_customer E sid email (clean nm) s = Inr (cust, s1)"
    and safe: "clean wu \<noteq> None \<longrightarrow> is_safe_url_shape (the (clean wu)) allow"
    and n: "new_license E p cust plan mu vd fe (clean wu) allow s1 = Inr (lic, s4)"
    and k: "commit E (audit None (Some (p_id p)) ''issued''
       (JDict [(''plan'', JStr plan), (''webhook'', JBool (clean wu \<noteq> None))]) (Some note)
       (s4\<lparr>licenses := licenses s4 @ [lic]\<rparr>)) = Inr s6"
    and s': "s' = s6\<lparr>outbox := outbox s'\<rparr>"
  note f = find_or_add_customer_frame[OF c]
  obtain j r where s4: "s4 = s1\<lparr>n_rand := r, n_uuid := j\<rparr>" using new_license_Inr(4)[OF n] by blast
  have r1: "rows_ok E s1" using find_or_add_customer_rows[OF c] g by (simp add: good_def)
  then have "rows_ok E s4" by (simp add: s4 rows_ok_def placed_def)
  moreover have "license_wf E lic"
    using new_license_Inr(1,3)[OF n] safe by (cases "clean wu") (auto simp: license_wf_def webhook_wf_def)
  moreover have "placed s4 lic"
    using new_license_Inr(1)[OF n] f p by (auto simp: placed_def s4)
  ultimately have "rows_ok E (s4\<lparr>licenses := licenses s4 @ [lic]\<rparr>)" by (rule rows_ok_add_license)
  then have "good E s6" using k by (intro good_commit[OF k]) (simp add: table_simps)
  then show ?thesis by (subst s') (simp add: table_simps)
qed

text \<open>
  C20: issuing a licence for a product adds exactly one licence, active, for the given terms,
  under a fresh key with the product's prefix whose hash and display form are the stored
  ones, with a signing secret if and only if a webhook URL was given; the customer is the
  one with that address (or that payment account), who is created when absent and otherwise
  left as it was, name included.
\<close>

theorem issue_license_correct:
  assumes "issue_license E p email nm plan mu vd fe wu allow sid note send s = Inr ((lic, cust), s')"
  shows "licenses s' = licenses s @ [lic] \<and> cust \<in> set (customers s')
    \<and> (customers s' = customers s \<or> (customers s' = customers s @ [cust] \<and> c_name cust = clean nm))
    \<and> l_product_id lic = p_id p \<and> l_customer_id lic = c_id cust \<and> l_status lic = Active
    \<and> l_plan lic = plan \<and> l_max_users lic = mu \<and> l_features lic = fe
    \<and> l_valid_until lic = now s + vd * day_us
    \<and> (\<exists>k \<ge> n_rand s. l_key lic = p_key_prefix p @ ''_'' @ token_urlsafe E k)
    \<and> hash_key E (l_key lic) = Inr (l_key_hash lic)
    \<and> (truthy (l_webhook_secret lic) \<longleftrightarrow> l_webhook_url lic \<noteq> None)
    \<and> (sid = None \<longrightarrow> c_email cust = email)"
proof (rule issue_license_state[OF assms])
  fix s1 s4 s6
  assume c: "find_or_add_customer E sid email (clean nm) s = Inr (cust, s1)"
    and n: "new_license E p cust plan mu vd fe (clean wu) allow s1 = Inr (lic, s4)"
    and k: "commit E (audit None (Some (p_id p)) ''issued''
       (JDict [(''plan'', JStr plan), (''webhook'', JBool (clean wu \<noteq> None))]) (Some note)
       (s4\<lparr>licenses := licenses s4 @ [lic]\<rparr>)) = Inr s6"
    and s': "s' = s6\<lparr>outbox := outbox s'\<rparr>"
  note f = find_or_add_customer_frame[OF c]
  obtain j r where s4: "s4 = s1\<lparr>n_rand := r, n_uuid := j\<rparr>" using new_license_Inr(4)[OF n] by blast
  have "licenses s6 = licenses s1 @ [lic]" "customers s6 = customers s1"
    using k by (auto simp: commit_Inr table_simps s4)
  then have l: "licenses s' = licenses s @ [lic]" "customers s' = customers s1"
    using f by (subst s', simp)+
  have r: "n_rand s1 = n_rand s" using c by (cases rule: find_or_add_customer_cases) (auto simp: table_simps)
  have nm: "customers s1 = customers s @ [cust] \<longrightarrow> c_name cust = clean nm \<or> customers s1 = customers s"
    and em: "sid = None \<longrightarrow> c_email cust = email"
    using c by (cases rule: find_or_add_customer_cases; force)+
  show ?thesis using f l r nm em new_license_Inr[OF n] by metis
qed
section \<open>Status changes\<close>

lemma put_license_licenses:
  "licenses (put_license l s) = update_where (\<lambda>x. l_id x = l_id l) (\<lambda>_. l) (licenses s)"
  by (rule license_store.rows_put)

definition event_log :: "session \<Rightarrow> new_event list" where
  "event_log s = map event_core (events s) @ new_events s"

lemma event_log_frame [table_simps]:
  "event_log (flush_events E s) = event_log s" "event_log (put_license lic s) = event_log s"
  "event_log (s\<lparr>n_uuid := k\<rparr>) = event_log s" "event_log (s\<lparr>deliveries := ds\<rparr>) = event_log s"
  "event_log (s\<lparr>tasks := ts\<rparr>) = event_log s" "event_log (s\<lparr>n_rand := k\<rparr>) = event_log s"
  "event_log (s\<lparr>outbox := ob\<rparr>) = event_log s"
  "event_log (audit l p ty pl nt s) = event_log s @
     [\<lparr>e_license_id = l, e_product_id = p, e_type = ty, e_payload = pl, e_note = nt\<rparr>]"
  by (simp_all add: event_log_def flush_events_log table_simps)

lemma event_log_committed: "new_events s = [] \<Longrightarrow> map event_core (events s) = event_log s"
  by (simp add: event_log_def)

lemma license_refs_frame [table_simps]:
  "license_refs (audit l p ty pl nt s) lic = license_refs s lic"
  "license_refs (put_license lic' s) lic = license_refs s lic"
  by (simp_all add: license_refs_def product_of_def customer_of_def table_simps)

lemma notify_effect:
  assumes "notify E lic ty data s = Inr (d, s')"
  shows "event_log s' = event_log s \<and> licenses s' = licenses s \<and> tasks s' = tasks s \<and>
    (if has_webhook lic
     then \<exists>r. deliveries s' = deliveries s @ [r] \<and> d = Some (d_id r) \<and> queued r
       \<and> d_url r = the (l_webhook_url lic) \<and> d_secret r = the (l_webhook_secret lic)
       \<and> d_event_type r = ty \<and> d_payload_json r = dumps_compact data \<and> d_license_id r = Some (l_id lic)
     else deliveries s' = deliveries s \<and> d = None)"
  using assms
proof (cases rule: notify_cases)
  case (queued r)
  then show ?thesis by (simp add: table_simps new_delivery_def queued_def)
qed simp

lemma finish_background:
  assumes "finish E Background d s = Inr s'" and "\<And>i. d = Some i \<Longrightarrow> i \<noteq> []"
  shows "s' = (flush_events E s)\<lparr>tasks := tasks s @ opt_list d\<rparr>"
  using assms by (cases d) (auto simp: finish_Inr run_delivery_def run_attempt_def table_simps)

text \<open>
  C21: a status change with a scheduler writes, in one transaction, the new status of that
  licence and of no other, one audit event, and exactly one queued delivery that carries the
  previous and the new status when the licence has a webhook (none otherwise); the first
  attempt is left to a background task for that very delivery.
\<close>

theorem set_status_atomic:
  assumes "set_status E lic st note Background s = Inr s'" and "\<And>n. uuid4 E n \<noteq> []"
    and "new_events s = []"
  shows "licenses s' = update_where (\<lambda>x. l_id x = l_id lic) (\<lambda>_. lic\<lparr>l_status := st\<rparr>) (licenses s)
    \<and> map event_core (events s') = map event_core (events s) @
        [\<lparr>e_license_id = Some (l_id lic), e_product_id = Some (l_product_id lic),
          e_type = ''status:'' @ status_text st, e_payload = JDict [], e_note = Some note\<rparr>]
    \<and> (if has_webhook lic
       then \<exists>r. deliveries s' = deliveries s @ [r] \<and> tasks s' = tasks s @ [d_id r] \<and> queued r
         \<and> d_url r = the (l_webhook_url lic) \<and> d_secret r = the (l_webhook_secret lic)
         \<and> d_license_id r = Some (l_id lic) \<and> d_payload_json r = dumps_compact (JDict (license_refs s lic @
              [(''previous_status'', JStr (status_text (l_status lic))),
               (''current_status'', JStr (status_text st))]))
       else deliveries s' = deliveries s \<and> tasks s' = tasks s)"
proof -
  let ?s2 = "audit (Some (l_id lic)) (Some (l_product_id lic)) (''status:'' @ status_text st)
       (JDict []) (Some note) (put_license (lic\<lparr>l_status := st\<rparr>) s)"
  obtain d s3 where n: "notify E lic EVENT_STATUS_CHANGED (status_data ?s2 lic st) ?s2 = Inr (d, s3)"
    and f: "finish E Background d s3 = Inr s'"
    using assms(1) by (auto simp: set_status_def Let_def rbind_Inr_iff)
  have "d = Some i \<Longrightarrow> i \<noteq> []" for i using n assms(2) by (cases rule: notify_cases) auto
  from finish_background[OF f this] have s': "s' = (flush_events E s3)\<lparr>tasks := tasks s3 @ opt_list d\<rparr>" .
  have "map event_core (events s') = event_log s'" by (rule event_log_committed) (simp add: s' table_simps)
  also have "\<dots> = event_log s @ [\<lparr>e_license_id = Some (l_id lic), e_product_id = Some (l_product_id lic),
          e_type = ''status:'' @ status_text st, e_payload = JDict [], e_note = Some note\<rparr>]"
    using notify_effect[OF n] by (simp add: s' table_simps)
  finally have "map event_core (events s') = map event_core (events s) @
        [\<lparr>e_license_id = Some (l_id lic), e_product_id = Some (l_product_id lic),
          e_type = ''status:'' @ status_text st, e_payload = JDict [], e_note = Some note\<rparr>]"
    using assms(3) by (simp add: event_log_def)
  moreover have "licenses s' = update_where (\<lambda>x. l_id x = l_id lic) (\<lambda>_. lic\<lparr>l_status := st\<rparr>) (licenses s)"
    using notify_effect[OF n] by (simp add: s' table_simps put_license_licenses)
  ultimately show ?thesis using notify_effect[OF n]
    by (auto simp: s' table_simps status_data_def split: if_splits)
qed

section \<open>Edits\<close>


section \<open>Deletions\<close>

text \<open>What of an event a deletion must not touch.\<close>

definition imprint :: "event \<Rightarrow> uid \<times> string option \<times> string option \<times> string \<times> json \<times> string option" where
  "imprint e = (e_id e, e_subject_kind e, e_subject_id e, e_type e, e_payload e, e_note e)"

definition trail :: "event \<Rightarrow> uid option \<times> uid \<times> string option \<times> string option \<times> string \<times> json \<times> string option" where
  "trail e = (e_product_id e, imprint e)"

definition log_licenses :: "session \<Rightarrow> uid set" where
  "log_licenses s = {i. \<exists>ev \<in> set (event_log s). e_license_id ev = Some i}"

definition unbound :: "session \<Rightarrow> bool" where
  "unbound s \<longleftrightarrow> (\<forall>ev \<in> set (new_events s). e_license_id ev = None)"

definition other_tables :: "session \<Rightarrow> session \<Rightarrow> bool" where
  "other_tables s s' \<longleftrightarrow> products s' = products s \<and> customers s' = customers s \<and> presets s' = presets s
     \<and> tasks s' = tasks s \<and> now s' = now s \<and> outbox s' = outbox s"

definition deletion_notice :: "env \<Rightarrow> delivery \<Rightarrow> bool" where
  "deletion_notice E d \<longleftrightarrow> (\<exists>n. d_id d = uuid4 E n) \<and> queued d \<and> d_event_type d = EVENT_DELETED \<and> d_license_id d = None"

text \<open>
  \<open>removed E I s ds s'\<close>: the licences with identifiers in \<open>I\<close> are gone with their installs,
  the deliveries \<open>ds\<close> are queued, no event that is left refers to them, and the audit trail
  has only grown.
\<close>

definition removed :: "env \<Rightarrow> uid set \<Rightarrow> session \<Rightarrow> delivery list \<Rightarrow> session \<Rightarrow> bool" where
  "removed E I s ds s' \<longleftrightarrow> licenses s' = filter (\<lambda>l. l_id l \<notin> I) (licenses s)
     \<and> installs s' = filter (\<lambda>x. i_license_id x \<notin> I) (installs s)
     \<and> deliveries s' = deliveries s @ ds \<and> list_all (deletion_notice E) ds \<and> other_tables s s'
     \<and> (\<exists>evs. map trail (events s') = map trail (events s) @ evs)
     \<and> log_licenses s' \<subseteq> log_licenses s - I \<and> unbound s'"

lemma removed_refl: "unbound s \<Longrightarrow> removed E {} s [] s"
  by (simp add: removed_def other_tables_def)

lemma removed_trans:
  assumes "removed E I s ds t" and "removed E J t es u"
  shows "removed E (I \<union> J) s (ds @ es) u"
proof -
  have e: "\<exists>evs. map trail (events u) = map trail (events s) @ evs"
    using assms unfolding removed_def by (metis append.assoc)
  have "log_licenses u \<subseteq> log_licenses s - (I \<union> J)" using assms unfolding removed_def by blast
  with assms e show ?thesis
    by (simp add: removed_def other_tables_def conj_commute)
qed

lemma event_core_update: "event_core (e\<lparr>e_license_id := v\<rparr>) = (event_core e)\<lparr>e_license_id := v\<rparr>"
  by (simp add: event_core_def new_event.defs)

lemma e_license_core [simp]: "e_license_id (event_core e) = e_license_id e"
  by (simp add: event_core_def new_event.defs)

lemma log_licenses_Un: "log_licenses s = {i. \<exists>e \<in> set (events s). e_license_id e = Some i}
    \<union> {i. \<exists>e \<in> set (new_events s). e_license_id e = Some i}"
  by (auto simp: log_licenses_def event_log_def bex_Un)

lemma removed_forget:
  assumes "unbound s"
  shows "removed E {i} s [] (forget_license i s)"
proof -
  have "map trail (events (forget_license i s)) = map trail (events s)"
    by (simp add: forget_license_def update_where_def trail_def imprint_def)
  moreover have "log_licenses (forget_license i s) \<subseteq> log_licenses s - {i}"
    using assms by (auto simp: log_licenses_Un unbound_def forget_license_def set_update_where)
  ultimately show ?thesis
    using assms by (simp add: removed_def other_tables_def table_simps delete_where_def unbound_def)
qed

lemma removed_flush:
  assumes "unbound s" and "list_all (deletion_notice E) ds"
  shows "removed E {} s ds (flush_events E (s\<lparr>n_uuid := k, deliveries := deliveries s @ ds\<rparr>))"
proof -
  have l: "log_licenses (flush_events E (s\<lparr>n_uuid := k, deliveries := deliveries s @ ds\<rparr>)) = log_licenses s"
    by (simp add: log_licenses_def table_simps)
  have t: "\<exists>evs. map trail (events (flush_events E (s\<lparr>n_uuid := k, deliveries := deliveries s @ ds\<rparr>)))
      = map trail (events s) @ evs" by (auto simp: flush_events_eq)
  show ?thesis using assms
    by (simp add: removed_def other_tables_def table_simps unbound_def l t)
qed

lemma removed_audit: "unbound s \<Longrightarrow> removed E {} s [] (audit None p ty pl nt s)"
  by (simp add: removed_def other_tables_def table_simps unbound_def log_licenses_def)

text \<open>
  The notice for a licence: queued for its own webhook address and signed with its own secret,
  under a fresh identifier, and telling which licence was deleted.
\<close>

definition notice_for :: "env \<Rightarrow> session \<Rightarrow> license \<Rightarrow> delivery \<Rightarrow> bool" where
  "notice_for E s lic d \<longleftrightarrow> (\<exists>n p c. product_of s lic = Some p \<and> customer_of s lic = Some c
     \<and> d = new_delivery (uuid4 E n) (now s) (the (l_webhook_url lic)) (the (l_webhook_secret lic)) EVENT_DELETED
         (JDict [(''license_id'', JStr (l_id lic)), (''license_key'', JStr (l_key lic)), (''key'', JStr (l_key lic)),
            (''product_slug'', JStr (p_slug p)), (''customer_email'', JStr (c_email c))]) None (Some (l_product_id lic)))"

lemma notice_for_other: "other_tables s t \<Longrightarrow> notice_for E t lic d = notice_for E s lic d"
  by (simp add: notice_for_def other_tables_def product_of_def customer_of_def)

lemma deleted_data_snapshot:
  assumes "take_snapshot s lic = Inr snap"
  shows "\<exists>p c. product_of s lic = Some p \<and> customer_of s lic = Some c \<and> deleted_data snap
    = JDict [(''license_id'', JStr (l_id lic)), (''license_key'', JStr (l_key lic)), (''key'', JStr (l_key lic)),
        (''product_slug'', JStr (p_slug p)), (''customer_email'', JStr (c_email c))]"
  using assms by (auto simp: take_snapshot_def deleted_data_def attr_def rbind_Inr_iff split: option.splits)

lemma delete_in_tx_removed:
  assumes "delete_license_in_tx E lic note s = Inr ((snap, d), s')" and "unbound s"
  obtains ds where "removed E {l_id lic} s ds s'" "opt_list d = map d_id ds"
    "list_all2 (notice_for E s) (filter has_webhook [lic]) ds" "sn_license_id snap = l_id lic"
proof (rule delete_in_tx_cases[OF assms(1)])
  fix s2
  assume t: "take_snapshot s lic = Inr snap"
    and n: "notify_deleted E lic snap (audit_deleted lic snap note s) = Inr (d, s2)"
    and s': "s' = forget_license (l_id lic) s2"
  note sn = take_snapshot_Inr[OF t]
  let ?s1 = "audit_deleted lic snap note s"
  have r1: "removed E {} s [] ?s1" unfolding audit_deleted_def by (rule removed_audit[OF assms(2)])
  then have u1: "unbound ?s1" by (simp add: removed_def)
  obtain ds where r2: "removed E {} ?s1 ds s2" and d: "opt_list d = map d_id ds"
    and len: "list_all2 (notice_for E s) (filter has_webhook [lic]) ds"
    using n
  proof (cases rule: notify_deleted_cases)
    case silent
    with u1 sn show ?thesis by (intro that[of "[]"]) (auto simp: removed_refl has_webhook_def)
  next
    case (queued r)
    have "list_all (deletion_notice E) [r]"
      using queued by (auto simp: deletion_notice_def new_delivery_def queued_def)
    moreover have "notice_for E s lic r"
      using deleted_data_snapshot[OF t] queued sn unfolding notice_for_def by (auto simp: audit_deleted_def table_simps)
    ultimately show ?thesis
      using removed_flush[OF u1, of E "[r]" "Suc (n_uuid ?s1)"] queued sn
      by (intro that[of "[r]"]) (simp_all add: has_webhook_def new_delivery_def)
  qed
  have "removed E {l_id lic} s2 [] s'"
    unfolding s' using r2 by (intro removed_forget) (simp add: removed_def)
  from removed_trans[OF removed_trans[OF r1 r2] this] show thesis
    using d len sn by (intro that[of ds]) simp_all
qed

lemma delete_all_removed:
  assumes "delete_all_in_tx E lics note s = Inr (xs, s')" and "unbound s"
  shows "\<exists>ds. removed E (l_id ` set lics) s ds s' \<and> concat (map (opt_list \<circ> snd) xs) = map d_id ds
    \<and> list_all2 (notice_for E s) (filter has_webhook lics) ds \<and> map (sn_license_id \<circ> fst) xs = map l_id lics"
  using assms
proof (induction lics arbitrary: s xs)
  case Nil
  then show ?case by (auto simp: removed_refl)
next
  case (Cons lic lics)
  then obtain snap d s1 ys where d: "delete_license_in_tx E lic note s = Inr ((snap, d), s1)"
    and a: "delete_all_in_tx E lics note s1 = Inr (ys, s')" and xs: "xs = (snap, d) # ys"
    by (auto simp: rbind_Inr_iff)
  obtain ds where r: "removed E {l_id lic} s ds s1" "opt_list d = map d_id ds"
    "list_all2 (notice_for E s) (filter has_webhook [lic]) ds" "sn_license_id snap = l_id lic"
    using delete_in_tx_removed[OF d Cons.prems(2)] by blast
  then have "unbound s1" by (simp add: removed_def)
  from Cons.IH[OF a this] obtain es where e: "removed E (l_id ` set lics) s1 es s'"
    "concat (map (opt_list \<circ> snd) ys) = map d_id es" "list_all2 (notice_for E s1) (filter has_webhook lics) es"
    "map (sn_license_id \<circ> fst) ys = map l_id lics" by blast
  have "concat (map (opt_list \<circ> snd) xs) = map d_id (ds @ es)"
    using r(2) e(2) by (simp add: xs o_def)
  moreover have "other_tables s s1" using r(1) by (simp add: removed_def)
  then have "notice_for E s1 = notice_for E s" by (intro ext notice_for_other)
  then have "list_all2 (notice_for E s) (filter has_webhook (lic # lics)) (ds @ es)"
    using list_all2_appendI[OF r(3)] e(3) filter_append[of has_webhook "[lic]" lics] by simp
  ultimately show ?case using removed_trans[OF r(1) e(1)] r(4) e(4)
    by (intro exI[of _ "ds @ es"]) (simp add: xs o_def del: filter.simps)
qed

lemma delivery_ids_nonempty:
  assumes "removed E I s ds s'" and "concat (map (opt_list \<circ> snd) xs) = map d_id ds"
    and "\<And>n. uuid4 E n \<noteq> []"
  shows "\<forall>x \<in> set (map snd xs). \<forall>i. x = Some i \<longrightarrow> i \<noteq> []"
proof (intro ballI allI impI)
  fix x i assume "x \<in> set (map snd xs)" and "x = Some i"
  then have "i \<in> set (concat (map (opt_list \<circ> snd) xs))" by force
  then have "i \<in> d_id ` set ds" by (simp add: assms(2))
  then obtain d where "d \<in> set ds" "i = d_id d" by blast
  with assms(1,3) show "i \<noteq> []" by (auto simp: removed_def deletion_notice_def list_all_iff)
qed

text \<open>
  C19: deleting a list of licences with a scheduler either fails or, in one commit, removes
  exactly those licences and their installs, keeps the audit trail (nothing of an event
  changes but its reference to a removed licence, which is cleared), touches no product,
  customer or preset, and queues exactly one notice for each removed licence that has a webhook
  (none for the others), in order: pending, for that licence's own address and secret, with
  its identifier, key, product and customer in the payload. Their first attempts become the background tasks in that order.
\<close>

theorem bulk_delete_complete:
  assumes "delete_licenses_bulk E lics Background note s = Inr (snaps, s')" and "new_events s = []"
    and "\<And>n. uuid4 E n \<noteq> []"
  shows "\<exists>ds. licenses s' = filter (\<lambda>l. l_id l \<notin> l_id ` set lics) (licenses s)
    \<and> installs s' = filter (\<lambda>x. i_license_id x \<notin> l_id ` set lics) (installs s)
    \<and> deliveries s' = deliveries s @ ds \<and> list_all2 (notice_for E s) (filter has_webhook lics) ds \<and> tasks s' = tasks s @ map d_id ds
    \<and> products s' = products s \<and> customers s' = customers s \<and> presets s' = presets s
    \<and> map sn_license_id snaps = map l_id lics
    \<and> (\<exists>evs. map trail (events s') = map trail (events s) @ evs)
    \<and> (\<forall>e \<in> set (events s'). \<forall>i. e_license_id e = Some i \<longrightarrow> i \<notin> l_id ` set lics)"
proof -
  obtain xs s1 s2 where a: "delete_all_in_tx E lics note s = Inr (xs, s1)" and c: "commit E s1 = Inr s2"
    and s': "s' = run_deliveries E Background (map snd xs) s2" and sn: "snaps = map fst xs"
    using assms(1) by (auto simp: delete_licenses_bulk_def rbind_Inr_iff)
  have "unbound s" using assms(2) by (simp add: unbound_def)
  from delete_all_removed[OF a this] obtain ds where r: "removed E (l_id ` set lics) s ds s1"
    and d: "concat (map (opt_list \<circ> snd) xs) = map d_id ds"
    and n: "list_all2 (notice_for E s) (filter has_webhook lics) ds" "map (sn_license_id \<circ> fst) xs = map l_id lics" by blast
  have c2: "s2 = flush_events E s1" using c by (simp add: commit_Inr)
  have "\<forall>d \<in> set (map snd xs). \<forall>i. d = Some i \<longrightarrow> i \<noteq> []"
    by (rule delivery_ids_nonempty[OF r d assms(3)])
  from run_deliveries_background[OF this, of E s2]
  have s'2: "s' = s2\<lparr>tasks := tasks s2 @ map d_id ds\<rparr>" using d by (simp add: s' o_def)
  have "log_licenses s' = log_licenses s1" by (simp add: s'2 c2 log_licenses_def table_simps)
  then have lg: "log_licenses s' \<subseteq> log_licenses s - l_id ` set lics" using r by (simp add: removed_def)
  have nolic: "\<forall>e \<in> set (events s'). \<forall>i. e_license_id e = Some i \<longrightarrow> i \<notin> l_id ` set lics"
    using lg by (auto simp: log_licenses_Un)
  obtain evs where "map trail (events s1) = map trail (events s) @ evs" using r by (auto simp: removed_def)
  then have tr: "\<exists>evs. map trail (events s') = map trail (events s) @ evs"
    by (simp add: s'2 c2 flush_events_eq)
  show ?thesis
    by (rule exI[of _ ds])
      (use r n nolic tr in \<open>simp add: removed_def other_tables_def s'2 c2 table_simps sn\<close>)
qed

text \<open>Deleting one licence is deleting the list of it.\<close>

theorem delete_license_bulk:
  "delete_license E lic sched note s = Inr s' \<longleftrightarrow>
     (\<exists>snap. delete_licenses_bulk E [lic] sched note s = Inr ([snap], s'))"
  by (auto simp: delete_license_def delete_licenses_bulk_def rbind_Inr_iff finish_def run_deliveries_def)

section \<open>Examples\<close>

definition shop_env :: env where
  "shop_env = sample_env (default_settings\<lparr>license_key_pepper := ''pepper'', key_encryption_key := ''k1''\<rparr>)"

definition sample_customer :: customer where
  "sample_customer = \<lparr>c_id = ''c1'', c_stripe_customer_id = Some ''cus_1'', c_email = ''a@example.com'',
     c_name = Some ''A'', c_created_at = 0\<rparr>"

definition sample_license :: license where
  "sample_license = \<lparr>l_id = ''l1'', l_product_id = ''p1'', l_customer_id = ''c1'', l_key = ''demo_key1'',
     l_plan = ''standard'', l_max_users = 10, l_features = JDict [], l_valid_until = 63838368000000000,
     l_status = Active, l_created_at = 0, l_webhook_url = Some ''https://93.184.216.34/hook'',
     l_webhook_secret = Some ''whsec_1'', l_webhook_url_source = Self, l_allow_http_webhook = False,
     l_key_hash = ''b2:pepper:demo_key1'', l_key_display = make_display ''demo_key1''\<rparr>"

definition shop :: session where
  "shop = empty_session\<lparr>products := [sample_product], customers := [sample_customer],
     licenses := [sample_license]\<rparr>"

lemma shop_uuid: "uuid4 shop_env n \<noteq> []"
  by (simp add: shop_env_def sample_env_def)

theorem issue_license_correct_witness:
  "\<exists>lic cust s'. issue_license shop_env sample_product ''b@example.com'' (Some '' B '') ''pro'' 5 30 (JDict [])
     (Some ''https://93.184.216.34/h'') False None ''n'' True shop = Inr ((lic, cust), s')
     \<and> licenses s' = licenses shop @ [lic] \<and> c_email cust = ''b@example.com''"
proof -
  have "\<exists>r. issue_license shop_env sample_product ''b@example.com'' (Some '' B '') ''pro'' 5 30 (JDict [])
     (Some ''https://93.184.216.34/h'') False None ''n'' True shop = Inr r"
    by (rule is_okE) code_simp
  then obtain lic cust s' where i: "issue_license shop_env sample_product ''b@example.com'' (Some '' B '')
     ''pro'' 5 30 (JDict []) (Some ''https://93.184.216.34/h'') False None ''n'' True shop = Inr ((lic, cust), s')"
    by force
  from issue_license_correct[OF i] i show ?thesis by blast
qed

theorem set_status_atomic_witness:
  "\<exists>s' r. set_status shop_env sample_license Revoked ''n'' Background shop = Inr s'
     \<and> deliveries s' = [r] \<and> tasks s' = [d_id r]"
proof -
  have "\<exists>r. set_status shop_env sample_license Revoked ''n'' Background shop = Inr r"
    by (rule is_okE) code_simp
  then obtain s' where s: "set_status shop_env sample_license Revoked ''n'' Background shop = Inr s'" ..
  have "has_webhook sample_license" "new_events shop = []" "deliveries shop = []" "tasks shop = []"
    by code_simp+
  with set_status_atomic[OF s shop_uuid] s show ?thesis by auto
qed


theorem bulk_delete_complete_witness:
  "\<exists>snaps s'. delete_licenses_bulk shop_env [sample_license] Background ''n'' shop = Inr (snaps, s')
     \<and> licenses s' = [] \<and> length (tasks s') = 1"
proof -
  have "\<exists>r. delete_licenses_bulk shop_env [sample_license] Background ''n'' shop = Inr r"
    by (rule is_okE) code_simp
  then obtain snaps s' where d: "delete_licenses_bulk shop_env [sample_license] Background ''n'' shop = Inr (snaps, s')"
    by force
  have "has_webhook sample_license" "new_events shop = []" "tasks shop = []" by code_simp+
  moreover have "licenses shop = [sample_license]" by (simp add: shop_def)
  ultimately show ?thesis using bulk_delete_complete[OF d _ shop_uuid] d by (auto dest: list_all2_lengthD)
qed

end
