(* ===== verification/Check.thy ===== *)
theory Check
  imports Lifecycle
begin

text \<open>
  The licence check (\<^verbatim>\<open>app/services/check.py\<close>) and its endpoint (\<^verbatim>\<open>POST /v1/check\<close> of
  \<^verbatim>\<open>app/routers/api.py\<close>): admission, self-registration of a webhook URL, the install's
  heartbeat and the signed token. The lemmas show who is admitted, what a token says, that
  a URL set by an administrator cannot be overridden and its secret is never sent, and that
  repeating a check does not change the licence again.
\<close>

section \<open>The service\<close>

definition admit_row :: "datetime \<Rightarrow> license option \<Rightarrow> license res" where
  "admit_row t found = (case found of
       None \<Rightarrow> Inl (CheckRejected ''invalid_key'' 401)
     | Some lic \<Rightarrow>
         if l_status lic = Revoked then Inl (CheckRejected ''revoked'' 401)
         else if l_status lic = Disabled then Inl (CheckRejected ''disabled'' 401)
         else if l_valid_until lic < t then Inl (CheckRejected ''expired'' 401)
         else Inr lic)"

definition admit :: "env \<Rightarrow> string \<Rightarrow> session \<Rightarrow> license res" where
  "admit E key s =
     rbind (hash_key E key) (\<lambda>h.
     rbind (one_or_none (\<lambda>l. l_key_hash l = h) (licenses s)) (admit_row (now s)))"

definition check_audit :: "license \<Rightarrow> string \<Rightarrow> json \<Rightarrow> session \<Rightarrow> session" where
  "check_audit lic ty payload s =
     audit (Some (l_id lic)) (Some (l_product_id lic)) ty payload (Some ''service/check'') s"

definition self_register :: "env \<Rightarrow> license \<Rightarrow> string \<Rightarrow> session \<Rightarrow> license \<times> session" where
  "self_register E lic candidate s =
    (if l_webhook_url lic \<noteq> Some candidate then
       if l_webhook_url_source lic = Admin then
         (lic, check_audit lic ''webhook:override_refused''
            (JDict [(''attempted_url'', JStr candidate), (''kept_url'', jopt (l_webhook_url lic))]) s)
       else
         mint E (\<not> truthy (l_webhook_secret lic))
           (lic\<lparr>l_webhook_url := Some candidate, l_webhook_url_source := Self\<rparr>)
           (check_audit lic ''webhook:self-registered''
             (JDict [(''previous_url'', jopt (l_webhook_url lic)), (''new_url'', JStr candidate),
                     (''via'', JStr ''v1_check'')]) s)
     else if l_webhook_url_source lic = Self \<and> \<not> truthy (l_webhook_secret lic) then
       (let (lic', s') = mint E True lic s
        in (lic', check_audit lic ''webhook:secret_backfilled'' (JDict [(''via'', JStr ''v1_check_autoheal'')]) s'))
     else (lic, s))"

definition register_url :: "env \<Rightarrow> license \<Rightarrow> string option \<Rightarrow> session \<Rightarrow> (license \<times> session) res" where
  "register_url E lic public_url s = (case clean public_url of
      None \<Rightarrow> Inr (lic, s)
    | Some u \<Rightarrow>
        let candidate = rstrip_char (CHR ''/'') u in
        if length candidate > 500 \<or> \<not> is_safe_url_shape candidate (l_allow_http_webhook lic)
        then Inl (CheckRejected ''invalid_public_url'' 400)
        else Inr (self_register E lic candidate s))"

definition record_install ::
  "env \<Rightarrow> uid \<Rightarrow> string \<Rightarrow> string \<Rightarrow> string option \<Rightarrow> session \<Rightarrow> session res" where
  "record_install E license_id install_id version client_ip_hash s =
     rbind (one_or_none (\<lambda>i. i_license_id i = license_id \<and> i_install_id i = install_id) (installs s))
       (\<lambda>found. case found of
          None \<Rightarrow> (let (i, s1) = fresh_id E s in
            Inr (s1\<lparr>installs := installs s1 @ [\<lparr>i_id = i, i_license_id = license_id,
              i_install_id = install_id, i_version = version, i_last_seen_at = now s,
              i_ip_addr_hash = client_ip_hash\<rparr>]\<rparr>))
        | Some x \<Rightarrow> Inr (put_install (x\<lparr>i_version := version, i_last_seen_at := now s,
              i_ip_addr_hash := client_ip_hash\<rparr>) s))"

definition features_or_empty :: "license \<Rightarrow> json" where
  "features_or_empty lic = (if jtruthy (l_features lic) then l_features lic else JDict [])"

definition check_license ::
  "env \<Rightarrow> string \<Rightarrow> string \<Rightarrow> string \<Rightarrow> string option \<Rightarrow> string option \<Rightarrow> session
    \<Rightarrow> ((string \<times> license) \<times> session) res" where
  "check_license E key install_id version public_url client_ip_hash s =
     rbind (admit E key s) (\<lambda>lic0.
     rbind (register_url E lic0 public_url s) (\<lambda>(lic, s1).
     rbind (record_install E (l_id lic) install_id version client_ip_hash (put_license lic s1)) (\<lambda>s2.
     rbind (attr (product_of s2 lic)) (\<lambda>p.
     rbind (sign_license_jwt E (now s2) p (l_id lic) install_id (l_plan lic) (l_max_users lic)
              (features_or_empty lic) (l_valid_until lic)) (\<lambda>(tok, cap).
     rbind (commit E (audit (Some (l_id lic)) (Some (l_product_id lic)) ''heartbeat''
              (JDict [(''version'', JStr version), (''install_id'', JStr install_id)]) None s2)) (\<lambda>s3.
     Inr ((tok, lic), s3)))))))"

section \<open>The endpoint\<close>

record check_out =
  co_jwt :: string
  co_valid_until :: datetime
  co_features :: json
  co_max_users :: int
  co_license_id :: uid
  co_product :: string
  co_webhook_secret :: "string option"

definition client_ip_hash :: "env \<Rightarrow> string option \<Rightarrow> string option" where
  "client_ip_hash E client = map_option (sha256 E) client"

text \<open>A rejection becomes the response with its status; the detail is the reason's JSON.\<close>

definition reject :: "'a res \<Rightarrow> 'a res" where
  "reject r = (case r of
      Inl (CheckRejected reason st) \<Rightarrow> Inl (HTTPException st (dumps_compact (JDict [(''reason'', JStr reason)])))
    | _ \<Rightarrow> r)"

definition api_check ::
  "env \<Rightarrow> string \<Rightarrow> string \<Rightarrow> string \<Rightarrow> string option \<Rightarrow> string option \<Rightarrow> session \<Rightarrow> (check_out \<times> session) res" where
  "api_check E key install_id version public_url client s =
     rbind (reject (check_license E key install_id version public_url (client_ip_hash E client) s))
       (\<lambda>((tok, lic), s'). rbind (attr (product_of s' lic)) (\<lambda>p.
          Inr (\<lparr>co_jwt = tok, co_valid_until = l_valid_until lic, co_features = features_or_empty lic,
            co_max_users = l_max_users lic, co_license_id = l_id lic, co_product = p_slug p,
            co_webhook_secret = (if l_webhook_url_source lic = Self then l_webhook_secret lic else None)\<rparr>, s')))"

section \<open>Lemmas\<close>

lemma admit_row_Inr: "admit_row t f = Inr lic \<longleftrightarrow>
    f = Some lic \<and> l_status lic \<in> {Active, Delinquent} \<and> t \<le> l_valid_until lic"
  by (cases "l_status lic"; cases f) (auto simp: admit_row_def split: if_splits)

lemma admitD:
  assumes "admit E key s = Inr lic"
  shows "lic \<in> set (licenses s)" "hash_key E key = Inr (l_key_hash lic)"
    "l_status lic \<in> {Active, Delinquent}" "now s \<le> l_valid_until lic"
proof -
  obtain h f where h: "hash_key E key = Inr h"
    and f: "one_or_none (\<lambda>l. l_key_hash l = h) (licenses s) = Inr f" and r: "admit_row (now s) f = Inr lic"
    using assms unfolding admit_def rbind_Inr_iff by blast
  from r have r: "f = Some lic" "l_status lic \<in> {Active, Delinquent}" "now s \<le> l_valid_until lic"
    unfolding admit_row_Inr by blast+
  from one_or_none_SomeD(1,2)[OF f[unfolded r(1)]] h
  show "lic \<in> set (licenses s)" "hash_key E key = Inr (l_key_hash lic)" by simp_all
  show "l_status lic \<in> {Active, Delinquent}" "now s \<le> l_valid_until lic" by (fact r)+
qed

text \<open>What a self-registration may change.\<close>

definition drew :: "session \<Rightarrow> session \<Rightarrow> bool" where
  "drew s s' \<longleftrightarrow> (\<exists>k evs. s' = s\<lparr>n_rand := k, new_events := new_events s @ evs\<rparr>)"

definition check_event :: "license \<Rightarrow> string \<Rightarrow> json \<Rightarrow> new_event" where
  "check_event lic ty pl = \<lparr>e_license_id = Some (l_id lic), e_product_id = Some (l_product_id lic),
     e_type = ty, e_payload = pl, e_note = Some ''service/check''\<rparr>"

lemma check_audit_eq: "check_audit lic ty pl s = s\<lparr>new_events := new_events s @ [check_event lic ty pl]\<rparr>"
  by (simp add: check_audit_def audit_def add_event_def check_event_def)

lemma self_register_cases:
  assumes "self_register E lic u s = (lic', s')"
  obtains (kept) "lic' = lic" "l_webhook_url_source lic = Admin \<or> (l_webhook_url lic = Some u \<and> truthy (l_webhook_secret lic))" "drew s s'"
  | (set) "l_webhook_url_source lic = Self" "truthy (l_webhook_secret lic')" "drew s s'"
      "lic' = lic\<lparr>l_webhook_url := Some u, l_webhook_secret := l_webhook_secret lic'\<rparr>"
      "truthy (l_webhook_secret lic) \<longrightarrow> l_webhook_secret lic' = l_webhook_secret lic"
proof -
  have d1: "drew s ((check_audit lic ty pl s)\<lparr>n_rand := k\<rparr>)" for ty pl k
    unfolding drew_def by (rule exI[of _ k], rule exI[of _ "[check_event lic ty pl]"]) (simp add: check_audit_eq)
  have d2: "drew s (check_audit lic ty pl s)" for ty pl
    using d1[where ty = ty and pl = pl and k = "n_rand s"] by (simp add: check_audit_eq)
  have d3: "drew s (check_audit lic ty pl (s\<lparr>n_rand := k\<rparr>))" for ty pl k
    unfolding drew_def by (rule exI[of _ k], rule exI[of _ "[check_event lic ty pl]"]) (simp add: check_audit_eq)
  have d0: "drew s s" unfolding drew_def by (rule exI[of _ "n_rand s"], rule exI[of _ "[]"]) simp
  show ?thesis
  proof (cases "l_webhook_url_source lic = Admin \<or> (l_webhook_url lic = Some u \<and> truthy (l_webhook_secret lic))")
    case True
    with assms d0 d2 show ?thesis
      by (intro kept) (auto simp: self_register_def split: if_splits)
  next
    case False
    then have src: "l_webhook_url_source lic = Self" by (cases "l_webhook_url_source lic") auto
    show ?thesis
    proof (rule set[OF src])
      show "truthy (l_webhook_secret lic')" "drew s s'"
        "lic' = lic\<lparr>l_webhook_url := Some u, l_webhook_secret := l_webhook_secret lic'\<rparr>"
        "truthy (l_webhook_secret lic) \<longrightarrow> l_webhook_secret lic' = l_webhook_secret lic"
        using assms False src d1 d2 d3
        by (auto simp: self_register_def mint_def Let_def split: if_splits)
    qed
  qed
qed

lemma register_url_cases:
  assumes "register_url E lic url s = Inr (lic', s')"
  obtains (none) "clean url = None" "lic' = lic" "s' = s"
  | (url) c where "clean url \<noteq> None" "c = rstrip_char (CHR ''/'') (the (clean url))"
      "is_safe_url_shape c (l_allow_http_webhook lic)" "self_register E lic c s = (lic', s')"
  using assms by (auto simp: register_url_def Let_def split: option.splits if_splits)

lemma safe_shape_nonempty: "is_safe_url_shape u a \<Longrightarrow> u \<noteq> []"
proof
  assume s: "is_safe_url_shape u a" and "u = []"
  moreover have "\<not> is_safe_url_shape [] True" "\<not> is_safe_url_shape [] False" by code_simp+
  ultimately show False by (cases a) simp_all
qed

lemma drew_refl: "drew s s"
  unfolding drew_def by (rule exI[of _ "n_rand s"], rule exI[of _ "[]"]) simp

lemma register_url_wf:
  assumes "register_url E lic url s = Inr (lic', s')" and "webhook_wf lic"
  shows "webhook_wf lic' \<and> same_identity lic lic' \<and> same_terms lic lic' \<and> drew s s'
    \<and> l_allow_http_webhook lic' = l_allow_http_webhook lic
    \<and> l_webhook_url_source lic' = l_webhook_url_source lic
    \<and> (l_webhook_url_source lic = Admin \<longrightarrow> lic' = lic)"
  using assms(1)
proof (cases rule: register_url_cases)
  case none
  with assms(2) show ?thesis by (simp add: same_terms_def drew_refl)
next
  case (url c)
  from url(4) show ?thesis
  proof (cases rule: self_register_cases)
    case kept
    with assms(2) show ?thesis by (simp add: same_terms_def)
  next
    case set
    define k where "k = l_webhook_secret lic'"
    have "lic' = lic\<lparr>l_webhook_url := Some c, l_webhook_secret := k\<rparr>" "truthy k"
      using set by (simp_all add: k_def)
    with set(1,3) url(3) safe_shape_nonempty[OF url(3)] show ?thesis
      by (simp add: webhook_wf_def same_identity_def same_terms_def)
  qed
qed

lemma record_install_cases:
  assumes "record_install E lid iid v ip s = Inr s'"
  obtains (new) x where "\<forall>i \<in> set (installs s). \<not> (i_license_id i = lid \<and> i_install_id i = iid)"
      "x = \<lparr>i_id = uuid4 E (n_uuid s), i_license_id = lid, i_install_id = iid, i_version = v,
         i_last_seen_at = now s, i_ip_addr_hash = ip\<rparr>"
      "s' = s\<lparr>n_uuid := Suc (n_uuid s), installs := installs s @ [x]\<rparr>"
  | (seen) y x where "y \<in> set (installs s)" "i_license_id y = lid" "i_install_id y = iid"
      "x = y\<lparr>i_version := v, i_last_seen_at := now s, i_ip_addr_hash := ip\<rparr>" "s' = put_install x s"
proof -
  obtain f where f: "one_or_none (\<lambda>i. i_license_id i = lid \<and> i_install_id i = iid) (installs s) = Inr f"
    using assms by (auto simp: record_install_def rbind_Inr_iff)
  show ?thesis
  proof (cases f)
    case None
    with assms f show ?thesis
      by (intro new[OF _ refl]) (simp_all add: record_install_def fresh_id_def one_or_none_None)
  next
    case (Some y)
    with f have "y \<in> set (installs s)" "i_license_id y = lid \<and> i_install_id y = iid"
      by (auto dest: one_or_none_SomeD(1,2))
    with assms f Some show ?thesis
      by (intro seen[OF _ _ _ refl]) (auto simp: record_install_def)
  qed
qed

lemma record_install_frame:
  assumes "record_install E lid iid v ip s = Inr s'"
  shows "licenses s' = licenses s \<and> products s' = products s \<and> customers s' = customers s
    \<and> presets s' = presets s \<and> deliveries s' = deliveries s \<and> now s' = now s \<and> new_events s' = new_events s
    \<and> events s' = events s \<and> tasks s' = tasks s \<and> outbox s' = outbox s \<and> n_rand s' = n_rand s
    \<and> (\<exists>x \<in> set (installs s'). i_license_id x = lid \<and> i_install_id x = iid \<and> i_version x = v
        \<and> i_last_seen_at x = now s \<and> i_ip_addr_hash x = ip)"
  using assms
proof (cases rule: record_install_cases)
  case (new x)
  then show ?thesis by simp
next
  case (seen y x)
  have "x \<in> set (installs s')" unfolding seen(5)
    by (rule install_store.put_found[OF seen(1)]) (simp add: seen(4))
  then have "\<exists>x \<in> set (installs s'). i_license_id x = lid \<and> i_install_id x = iid \<and> i_version x = v
        \<and> i_last_seen_at x = now s \<and> i_ip_addr_hash x = ip"
    by (rule bexI[rotated]) (simp add: seen)
  then show ?thesis unfolding seen(5) by (simp add: table_simps)
qed

lemma record_install_rows:
  assumes "record_install E lid iid v ip s = Inr s'" and "rows_ok E s" and "lid \<in> l_id ` set (licenses s)"
  shows "rows_ok E s'"
proof -
  have "\<forall>x \<in> set (installs s'). i_license_id x \<in> l_id ` set (licenses s)"
    using assms(1)
  proof (cases rule: record_install_cases)
    case (new x)
    with assms show ?thesis by (auto simp: rows_ok_def)
  next
    case (seen y x)
    show ?thesis unfolding seen(5)
      by (intro ballI, erule install_store.put_all[rotated 2]) (use assms seen in \<open>auto simp: rows_ok_def\<close>)
  qed
  with assms(2) record_install_frame[OF assms(1)] show ?thesis by (simp add: rows_ok_def placed_def)
qed

text \<open>The stages of a successful check.\<close>

lemma check_license_cases:
  assumes "check_license E key iid v url ip s = Inr ((tok, lic), s')"
  obtains l s1 s2 p cap where "admit E key s = Inr l" "register_url E l url s = Inr (lic, s1)"
    "record_install E (l_id lic) iid v ip (put_license lic s1) = Inr s2" "product_of s2 lic = Some p"
    "sign_license_jwt E (now s2) p (l_id lic) iid (l_plan lic) (l_max_users lic) (features_or_empty lic)
       (l_valid_until lic) = Inr (tok, cap)"
    "commit E (audit (Some (l_id lic)) (Some (l_product_id lic)) ''heartbeat''
       (JDict [(''version'', JStr v), (''install_id'', JStr iid)]) None s2) = Inr s'"
  using assms unfolding check_license_def attr_def
  by (force simp: rbind_Inr_iff split: option.splits)

lemma drew_frame:
  assumes "drew s s'"
  shows "licenses s' = licenses s" "products s' = products s" "customers s' = customers s"
    "installs s' = installs s" "presets s' = presets s" "deliveries s' = deliveries s"
    "events s' = events s" "now s' = now s" "tasks s' = tasks s" "outbox s' = outbox s"
  using assms by (auto simp: drew_def)

lemma check_license_good:
  assumes "check_license E key iid v url ip s = Inr ((tok, lic), s')" and "good E s"
  shows "good E s'"
  using assms(1)
proof (rule check_license_cases)
  fix l s1 s2 p cap
  assume a: "admit E key s = Inr l" and r: "register_url E l url s = Inr (lic, s1)"
    and i: "record_install E (l_id lic) iid v ip (put_license lic s1) = Inr s2"
    and c: "commit E (audit (Some (l_id lic)) (Some (l_product_id lic)) ''heartbeat''
       (JDict [(''version'', JStr v), (''install_id'', JStr iid)]) None s2) = Inr s'"
  note l = admitD[OF a]
  have "webhook_wf l" using l(1) assms(2) by (auto simp: good_def license_wf_def dest: rows_ok_license)
  from register_url_wf[OF r this] have w: "webhook_wf lic" "same_identity l lic" "drew s s1" by auto
  have s1: "rows_ok E s1" "l \<in> set (licenses s1)"
    using assms(2) l(1) drew_frame[OF w(3)] by (simp_all add: good_def rows_ok_def placed_def)
  have "rows_ok E (put_license lic s1)" by (rule rows_ok_put_license[OF s1 w(2,1)])
  moreover have "l_id lic \<in> l_id ` set (licenses (put_license lic s1))"
    using license_store.put_found[OF s1(2), of lic] w(2) by (intro imageI) (simp add: same_identity_def)
  ultimately have "rows_ok E s2" by (rule record_install_rows[OF i])
  then show ?thesis by (intro good_commit[OF c]) (simp add: table_simps)
qed

section \<open>Properties\<close>

lemma product_of_frame: "products s' = products s \<Longrightarrow> product_of s' l = product_of s l"
  by (simp add: product_of_def)

lemma product_of_identity: "same_identity l l' \<Longrightarrow> product_of s l' = product_of s l"
  by (simp add: product_of_def same_identity_def)

text \<open>
  C3: a check that returns a token was made with the key of a licence that is active or
  delinquent and not expired, and the token is signed with that licence's product key, names
  the product as audience, the licence and the install, and expires no later than the
  licence.
\<close>

theorem check_token_sound:
  assumes "check_license E key iid v url ip s = Inr ((tok, lic), s')" and "good E s"
  shows "\<exists>l p pem pl x. l \<in> set (licenses s) \<and> hash_key E key = Inr (l_key_hash l)
    \<and> l_status l \<in> {Active, Delinquent} \<and> now s \<le> l_valid_until l
    \<and> product_of s l = Some p \<and> decrypt_pem E (p_private_key_pem p) = Inr pem \<and> jwt_encode E pl pem = Inr tok
    \<and> jget pl ''aud'' = Some (JStr (p_slug p)) \<and> jget pl ''license_id'' = Some (JStr (l_id l))
    \<and> jget pl ''exp'' = Some (JInt x) \<and> x \<le> timestamp (l_valid_until l)"
  using assms(1)
proof (rule check_license_cases)
  fix l s1 s2 p cap
  assume a: "admit E key s = Inr l" and r: "register_url E l url s = Inr (lic, s1)"
    and i: "record_install E (l_id lic) iid v ip (put_license lic s1) = Inr s2"
    and p: "product_of s2 lic = Some p"
    and j: "sign_license_jwt E (now s2) p (l_id lic) iid (l_plan lic) (l_max_users lic) (features_or_empty lic)
       (l_valid_until lic) = Inr (tok, cap)"
  note l = admitD[OF a]
  have "webhook_wf l" using l(1) assms(2) by (auto simp: good_def license_wf_def dest: rows_ok_license)
  from register_url_wf[OF r this] have w: "same_identity l lic" "same_terms l lic" "drew s s1" by auto
  have "products s2 = products s"
    using record_install_frame[OF i] drew_frame(2)[OF w(3)] by (simp add: table_simps)
  then have pr: "product_of s l = Some p"
    using p product_of_identity[OF w(1)] product_of_frame by metis
  from j obtain pem where c: "cap = min (now s2 + jwt_ttl_days (cfg E) * day_us) (l_valid_until lic)"
    and d: "decrypt_pem E (p_private_key_pem p) = Inr pem"
    and e: "jwt_encode E (jwt_payload p (l_id lic) iid (l_plan lic) (l_max_users lic) (features_or_empty lic)
       (l_valid_until lic) (now s2) cap) pem = Inr tok" by (rule sign_license_jwt_Inr)
  have "timestamp cap \<le> timestamp (l_valid_until l)"
    using w(2) by (intro timestamp_mono) (simp add: c same_terms_def)
  with l pr d e w(1) show ?thesis
    by (intro exI[of _ l] exI[of _ p] exI[of _ pem] exI[of _ "jwt_payload p (l_id lic) iid (l_plan lic)
       (l_max_users lic) (features_or_empty lic) (l_valid_until lic) (now s2) cap"] exI[of _ "timestamp cap"])
      (simp add: jwt_payload_def same_identity_def)
qed

lemma check_changes_only_webhook_lemma:
  assumes "check_license E key iid v url ip s = Inr ((tok, lic), s')" and "good E s"
  shows "\<exists>l \<in> set (licenses s). hash_key E key = Inr (l_key_hash l)
    \<and> licenses s' = update_where (\<lambda>x. l_id x = l_id l) (\<lambda>_. lic) (licenses s)
    \<and> same_identity l lic \<and> same_terms l lic
    \<and> l_allow_http_webhook lic = l_allow_http_webhook l \<and> l_webhook_url_source lic = l_webhook_url_source l
    \<and> (l_webhook_url_source l = Admin \<longrightarrow> lic = l)
    \<and> products s' = products s \<and> customers s' = customers s \<and> deliveries s' = deliveries s
    \<and> (\<exists>x \<in> set (installs s'). i_license_id x = l_id l \<and> i_install_id x = iid \<and> i_version x = v
         \<and> i_last_seen_at x = now s \<and> i_ip_addr_hash x = ip)"
  using assms(1)
proof (rule check_license_cases)
  fix l s1 s2 p cap
  assume a: "admit E key s = Inr l" and r: "register_url E l url s = Inr (lic, s1)"
    and i: "record_install E (l_id lic) iid v ip (put_license lic s1) = Inr s2"
    and c: "commit E (audit (Some (l_id lic)) (Some (l_product_id lic)) ''heartbeat''
       (JDict [(''version'', JStr v), (''install_id'', JStr iid)]) None s2) = Inr s'"
  note l = admitD[OF a]
  have "webhook_wf l" using l(1) assms(2) by (auto simp: good_def license_wf_def dest: rows_ok_license)
  note w = register_url_wf[OF r this]
  then have d: "drew s s1" and id: "same_identity l lic" by simp_all
  have cm: "licenses s' = licenses s2 \<and> products s' = products s2 \<and> customers s' = customers s2
    \<and> deliveries s' = deliveries s2 \<and> installs s' = installs s2"
    using c by (auto simp: commit_Inr table_simps)
  have ll: "licenses s' = update_where (\<lambda>x. l_id x = l_id l) (\<lambda>_. lic) (licenses s)"
    using cm record_install_frame[OF i] drew_frame[OF d] id
    by (simp add: put_license_licenses same_identity_def)
  show ?thesis
    by (rule bexI[OF _ l(1)])
      (use l(2) ll w id cm record_install_frame[OF i] drew_frame[OF d] in
        \<open>auto simp: table_simps same_identity_def\<close>)
qed

text \<open>
  C13: a successful check changes nothing but the webhook URL and secret of the checked
  licence, and not even those when the URL was set by an administrator; it leaves that
  licence's plan, status, validity, key and owner, every other licence, the products, the
  customers and the queue as they were, and records this install with its version and the
  time of the check.
\<close>

theorem check_changes_only_webhook:
  assumes "check_license E key iid v url ip s = Inr ((tok, lic), s')" and "good E s"
  shows "\<exists>l \<in> set (licenses s). hash_key E key = Inr (l_key_hash l)
    \<and> licenses s' = update_where (\<lambda>x. l_id x = l_id l) (\<lambda>_. lic) (licenses s)
    \<and> same_identity l lic \<and> same_terms l lic
    \<and> l_allow_http_webhook lic = l_allow_http_webhook l \<and> l_webhook_url_source lic = l_webhook_url_source l
    \<and> (l_webhook_url_source l = Admin \<longrightarrow> lic = l)
    \<and> products s' = products s \<and> customers s' = customers s \<and> deliveries s' = deliveries s
    \<and> (\<exists>x \<in> set (installs s'). i_license_id x = l_id l \<and> i_install_id x = iid \<and> i_version x = v
         \<and> i_last_seen_at x = now s \<and> i_ip_addr_hash x = ip)"
  by (rule check_changes_only_webhook_lemma[OF assms])

text \<open>
  C24: the four rejections: with the key's hash \<open>h\<close> stored at most once, an unknown key, a
  revoked, a disabled and an expired licence are each rejected with their own reason and
  status 401, whatever else the request says.
\<close>

theorem check_rejections:
  assumes "hash_key E key = Inr h" and "distinct (map l_key_hash (licenses s))"
  shows "((\<forall>l \<in> set (licenses s). l_key_hash l \<noteq> h) \<longrightarrow>
      check_license E key iid v url ip s = Inl (CheckRejected ''invalid_key'' 401))
    \<and> (\<forall>l \<in> set (licenses s). l_key_hash l = h \<longrightarrow>
        (l_status l = Revoked \<longrightarrow> check_license E key iid v url ip s = Inl (CheckRejected ''revoked'' 401))
      \<and> (l_status l = Disabled \<longrightarrow> check_license E key iid v url ip s = Inl (CheckRejected ''disabled'' 401))
      \<and> (l_status l \<in> {Active, Delinquent} \<and> l_valid_until l < now s \<longrightarrow>
          check_license E key iid v url ip s = Inl (CheckRejected ''expired'' 401)))"
proof (intro conjI ballI impI)
  assume "\<forall>l \<in> set (licenses s). l_key_hash l \<noteq> h"
  then have "one_or_none (\<lambda>l. l_key_hash l = h) (licenses s) = Inr None" by (simp add: one_or_none_None)
  with assms(1) show "check_license E key iid v url ip s = Inl (CheckRejected ''invalid_key'' 401)"
    by (simp add: check_license_def admit_def admit_row_def)
next
  fix l assume "l \<in> set (licenses s)" "l_key_hash l = h"
  then have f: "one_or_none (\<lambda>l. l_key_hash l = h) (licenses s) = Inr (Some l)"
    using one_or_none_key[OF assms(2), of l] by simp
  show "check_license E key iid v url ip s = Inl (CheckRejected ''revoked'' 401)" if "l_status l = Revoked"
    using that f assms(1) by (simp add: check_license_def admit_def admit_row_def)
  show "check_license E key iid v url ip s = Inl (CheckRejected ''disabled'' 401)" if "l_status l = Disabled"
    using that f assms(1) by (simp add: check_license_def admit_def admit_row_def)
  show "check_license E key iid v url ip s = Inl (CheckRejected ''expired'' 401)"
    if "l_status l \<in> {Active, Delinquent} \<and> l_valid_until l < now s"
    using that f assms(1) by (auto simp: check_license_def admit_def admit_row_def)
qed

lemma self_register_stable:
  "l_webhook_url_source lic = Admin \<or> (l_webhook_url lic = Some c \<and> truthy (l_webhook_secret lic)) \<Longrightarrow>
   fst (self_register E lic c t) = lic"
  by (auto simp: self_register_def)

lemma register_url_again:
  assumes "register_url E l url s = Inr (lic, s1)" and "register_url E lic url t = Inr (lic', t1)"
  shows "lic' = lic"
  using assms(1)
proof (cases rule: register_url_cases)
  case none
  with assms(2) show ?thesis by (simp add: register_url_def)
next
  case (url c)
  have "l_webhook_url_source lic = Admin \<or> (l_webhook_url lic = Some c \<and> truthy (l_webhook_secret lic))"
    using url(4)
  proof (cases rule: self_register_cases)
    case set
    from arg_cong[OF set(4), of l_webhook_url] set(2) show ?thesis by simp
  qed simp
  then have "fst (self_register E lic c t) = lic" by (rule self_register_stable)
  with assms(2) url(1,2) show ?thesis
    by (auto simp: register_url_def Let_def split: option.splits if_splits)
qed

lemma update_where_same:
  "distinct (map k t) \<Longrightarrow> x \<in> set t \<Longrightarrow> update_where (\<lambda>y. k y = k x) (\<lambda>_. x) t = t"
  unfolding update_where_def by (rule map_idI) (auto simp: distinct_map inj_on_def)

text \<open>
  C23: a heartbeat that repeats the registration of the same URL, at any later time and from
  any install, changes no licence: the secret handed out by the first check is not rotated
  by the next one.
\<close>

theorem check_idempotent:
  assumes "check_license E key iid v url ip s = Inr ((tok, lic), s1)" and "good E s"
    and "check_license E key iid' v' url ip' (s1\<lparr>now := t\<rparr>) = Inr ((tok', lic'), s2)"
  shows "lic' = lic \<and> licenses s2 = licenses s1"
proof -
  have g: "good E (s1\<lparr>now := t\<rparr>)"
    using check_license_good[OF assms(1,2)] by (simp add: good_def table_simps constraints_ok_def)
  obtain l where l: "l \<in> set (licenses s)" "hash_key E key = Inr (l_key_hash l)" "same_identity l lic"
    "licenses s1 = update_where (\<lambda>x. l_id x = l_id l) (\<lambda>_. lic) (licenses s)"
    using check_changes_only_webhook_lemma[OF assms(1,2)] by blast
  have "l_id lic = l_id l" using l(3) by (simp add: same_identity_def)
  then have m: "lic \<in> set (licenses s1)" using l(1) by (auto simp: l(4) set_update_where image_iff)
  obtain l' where l': "l' \<in> set (licenses s1)" "hash_key E key = Inr (l_key_hash l')" "same_identity l' lic'"
    "licenses s2 = update_where (\<lambda>x. l_id x = l_id l') (\<lambda>_. lic') (licenses s1)"
    using check_changes_only_webhook_lemma[OF assms(3) g] by auto
  have "l_key_hash l' = l_key_hash lic" using l(2,3) l'(2) by (simp add: same_identity_def)
  then have e: "l' = lic" using g m l'(1) by (auto simp: good_def constraints_ok_def distinct_map inj_on_def)
  obtain la sa where a: "admit E key s = Inr la" "register_url E la url s = Inr (lic, sa)"
    using assms(1) by (rule check_license_cases)
  obtain lb sb where b: "admit E key (s1\<lparr>now := t\<rparr>) = Inr lb" "register_url E lb url (s1\<lparr>now := t\<rparr>) = Inr (lic', sb)"
    using assms(3) by (rule check_license_cases)
  have "lb = lic"
    using admitD(1,2)[OF b(1)] l'(2) g m e by (auto simp: good_def constraints_ok_def distinct_map inj_on_def)
  with register_url_again[OF a(2)] b(2) have "lic' = lic" by simp
  moreover have "distinct (map l_id (licenses s1))" using g by (simp add: good_def constraints_ok_def)
  ultimately show ?thesis using l'(4) e update_where_same[OF _ m] by simp
qed

text \<open>
  C14: the response of the endpoint carries a webhook secret only for a licence whose URL is
  self-registered, and then it is that licence's stored secret; for a licence whose URL was
  set by an administrator it carries none.
\<close>

theorem check_secret_echo:
  assumes "api_check E key iid v url client s = Inr (out, s')" and "good E s"
  shows "\<exists>l \<in> set (licenses s). \<exists>lic \<in> set (licenses s'). hash_key E key = Inr (l_key_hash l)
    \<and> same_identity l lic \<and> co_license_id out = l_id l
    \<and> (l_webhook_url_source l = Admin \<longrightarrow> co_webhook_secret out = None)
    \<and> (\<forall>k. co_webhook_secret out = Some k \<longrightarrow> l_webhook_url_source l = Self \<and> l_webhook_secret lic = Some k)"
proof -
  have rj: "reject r = Inr x \<Longrightarrow> r = Inr x" for r and x :: "(string \<times> license) \<times> session"
    by (auto simp: reject_def split: sum.splits exc.splits)
  obtain tok lic where c: "check_license E key iid v url (client_ip_hash E client) s = Inr ((tok, lic), s')"
    and o: "co_license_id out = l_id lic"
      "co_webhook_secret out = (if l_webhook_url_source lic = Self then l_webhook_secret lic else None)"
    using assms(1) by (auto simp: api_check_def rbind_Inr_iff dest: rj)
  obtain l where l: "l \<in> set (licenses s)" "hash_key E key = Inr (l_key_hash l)" "same_identity l lic"
    "l_webhook_url_source lic = l_webhook_url_source l"
    "licenses s' = update_where (\<lambda>x. l_id x = l_id l) (\<lambda>_. lic) (licenses s)"
    using check_changes_only_webhook_lemma[OF c assms(2)] by blast
  have "lic \<in> set (licenses s')" using l(1) by (auto simp: l(5) set_update_where image_iff)
  with l o show ?thesis
    by (intro bexI[OF _ l(1)] bexI[of _ lic]) (auto simp: same_identity_def)
qed

section \<open>Examples\<close>

lemma shop_good: "good shop_env shop"
proof -
  have "license_wf shop_env sample_license" unfolding license_wf_def webhook_wf_def
    by (intro conjI impI) code_simp+
  moreover have "placed shop sample_license" by code_simp
  moreover have "constraints_ok shop" "new_events shop = []" by code_simp+
  ultimately show ?thesis
    by (simp add: good_def rows_ok_def placed_def shop_def empty_session_def)
qed

lemma shop_check: "\<exists>tok lic s'. check_license shop_env ''demo_key1'' ''i1'' ''1.0''
    (Some ''https://93.184.216.34/new/'') None shop = Inr ((tok, lic), s')
    \<and> is_ok (check_license shop_env ''demo_key1'' ''i2'' ''1.0'' (Some ''https://93.184.216.34/new/'') None
         (s'\<lparr>now := now shop\<rparr>))"
proof -
  have "case check_license shop_env ''demo_key1'' ''i1'' ''1.0''
      (Some ''https://93.184.216.34/new/'') None shop of Inl e \<Rightarrow> False
    | Inr r \<Rightarrow> is_ok (check_license shop_env ''demo_key1'' ''i2'' ''1.0''
         (Some ''https://93.184.216.34/new/'') None ((snd r)\<lparr>now := now shop\<rparr>))" by code_simp
  then show ?thesis by (auto dest!: right_exists)
qed

theorem check_token_sound_witness:
  "\<exists>tok pem pl l. jwt_encode shop_env pl pem = Inr tok \<and> l \<in> set (licenses shop)
    \<and> jget pl ''license_id'' = Some (JStr (l_id l))"
proof -
  obtain tok lic s' where c: "check_license shop_env ''demo_key1'' ''i1'' ''1.0''
    (Some ''https://93.184.216.34/new/'') None shop = Inr ((tok, lic), s')" using shop_check by blast
  from check_token_sound[OF c shop_good] show ?thesis by blast
qed

theorem check_changes_only_webhook_witness:
  "\<exists>tok lic s'. check_license shop_env ''demo_key1'' ''i1'' ''1.0''
    (Some ''https://93.184.216.34/new/'') None shop = Inr ((tok, lic), s') \<and> customers s' = customers shop"
proof -
  obtain tok lic s' where c: "check_license shop_env ''demo_key1'' ''i1'' ''1.0''
    (Some ''https://93.184.216.34/new/'') None shop = Inr ((tok, lic), s')" using shop_check by blast
  from check_changes_only_webhook[OF c shop_good] c show ?thesis by blast
qed

theorem check_idempotent_witness:
  "\<exists>tok lic s1 tok' s2. check_license shop_env ''demo_key1'' ''i1'' ''1.0''
    (Some ''https://93.184.216.34/new/'') None shop = Inr ((tok, lic), s1)
    \<and> check_license shop_env ''demo_key1'' ''i2'' ''1.0''
        (Some ''https://93.184.216.34/new/'') None (s1\<lparr>now := now shop\<rparr>) = Inr ((tok', lic), s2)"
proof -
  obtain tok lic s1 tok' lic' s2 where c: "check_license shop_env ''demo_key1'' ''i1'' ''1.0''
    (Some ''https://93.184.216.34/new/'') None shop = Inr ((tok, lic), s1)"
    and d: "check_license shop_env ''demo_key1'' ''i2'' ''1.0''
        (Some ''https://93.184.216.34/new/'') None (s1\<lparr>now := now shop\<rparr>) = Inr ((tok', lic'), s2)"
    using shop_check by (metis is_okE prod.collapse)
  from check_idempotent[OF c shop_good d] c d show ?thesis by blast
qed

theorem check_rejections_witness:
  "check_license shop_env ''demo_other'' ''i1'' ''1.0'' None None shop = Inl (CheckRejected ''invalid_key'' 401)"
proof -
  have h: "hash_key shop_env ''demo_other'' = Inr ''b2:pepper:demo_other''" by code_simp
  have d: "distinct (map l_key_hash (licenses shop))" by code_simp
  have "\<forall>l \<in> set (licenses shop). l_key_hash l \<noteq> ''b2:pepper:demo_other''"
    by (simp add: shop_def sample_license_def)
  with check_rejections[OF h d] show ?thesis by blast
qed

theorem check_secret_echo_witness:
  "\<exists>out s'. api_check shop_env ''demo_key1'' ''i1'' ''1.0'' None (Some ''127.0.0.1'') shop = Inr (out, s')
    \<and> co_license_id out = ''l1''"
proof -
  have "\<exists>r. api_check shop_env ''demo_key1'' ''i1'' ''1.0'' None (Some ''127.0.0.1'') shop = Inr r"
    by (rule is_okE) code_simp
  then obtain out s' where c: "api_check shop_env ''demo_key1'' ''i1'' ''1.0'' None (Some ''127.0.0.1'') shop
      = Inr (out, s')" by force
  from check_secret_echo[OF c shop_good] c show ?thesis
    by (auto simp: shop_def sample_license_def)
qed

end
