(* ===== verification/Rewrap.thy ===== *)
theory Rewrap
  imports Keystore
begin

text \<open>
  The script that encrypts the stored product secrets in place and rotates the key
  encryption key (\<^verbatim>\<open>app/scripts/rewrap_secrets.py\<close>): the two rewrites of one field, the loop
  over the products in one transaction, and the exit codes. The lemmas show that what a
  reader decrypts from each field is the same before and after, that a finished run leaves
  no plaintext, and that a failed or dry run changes nothing.
\<close>

section \<open>The rewrites of one field\<close>

definition rewrap_field :: "env \<Rightarrow> nat \<Rightarrow> string option \<Rightarrow> (string option \<times> bool) res" where
  "rewrap_field E n v = (if v = None then Inr (None, False)
     else if is_encrypted v then Inr (v, False)
     else rbind (encrypt_secret E n v) (\<lambda>w. Inr (w, True)))"

definition rewrap_field_migrate :: "env \<Rightarrow> string \<Rightarrow> nat \<Rightarrow> string option \<Rightarrow> (string option \<times> bool) res" where
  "rewrap_field_migrate E prev n v = (case v of
      None \<Rightarrow> Inr (None, False)
    | Some x \<Rightarrow>
        if \<not> is_encrypted v then rbind (encrypt_secret E n v) (\<lambda>w. Inr (w, True))
        else rbind (decrypt_with E prev x) (\<lambda>plaintext.
             rbind (encrypt_secret E n (Some plaintext)) (\<lambda>w. Inr (w, True))))"

section \<open>The run\<close>

text \<open>The rewrite of the fields: by rotation when the previous key is given.\<close>

definition rewrap_one :: "env \<Rightarrow> string option \<Rightarrow> nat \<Rightarrow> string option \<Rightarrow> (string option \<times> bool) res" where
  "rewrap_one E prev n v = (case prev of
      Some f \<Rightarrow> rewrap_field_migrate E f n v | None \<Rightarrow> rewrap_field E n v)"

text \<open>The three fields of a product; the private key is never null.\<close>

definition rewrap_product :: "env \<Rightarrow> string option \<Rightarrow> nat \<Rightarrow> product \<Rightarrow> (product \<times> bool) res" where
  "rewrap_product E prev n p =
     rbind (rewrap_one E prev n (Some (p_private_key_pem p))) (\<lambda>(new_priv, priv_changed).
     rbind (rewrap_one E prev (n + 1) (p_stripe_webhook_secret p)) (\<lambda>(new_ws, ws_changed).
     rbind (rewrap_one E prev (n + 2) (p_stripe_api_key p)) (\<lambda>(new_ak, ak_changed).
     rbind (attr new_priv) (\<lambda>priv.
     Inr (if priv_changed \<or> ws_changed \<or> ak_changed
          then (p\<lparr>p_private_key_pem := priv, p_stripe_webhook_secret := new_ws,
                  p_stripe_api_key := new_ak\<rparr>, True)
          else (p, False))))))"

fun rewrap_loop :: "env \<Rightarrow> string option \<Rightarrow> nat \<Rightarrow> product list \<Rightarrow> (product list \<times> nat) res" where
  "rewrap_loop E prev n [] = Inr ([], 0)"
| "rewrap_loop E prev n (p # ps) =
     rbind (rewrap_product E prev n p) (\<lambda>(p', changed).
     rbind (rewrap_loop E prev (n + 3) ps) (\<lambda>(ps', k).
     Inr (p' # ps', if changed then Suc k else k)))"

text \<open>The work of the session, once the keys are loaded: exit code and session.\<close>

definition rewrap_session :: "env \<Rightarrow> bool \<Rightarrow> string option \<Rightarrow> session \<Rightarrow> int \<times> session" where
  "rewrap_session E dry_run prev s = (case rewrap_loop E prev (n_rand s) (products s) of
      Inl e \<Rightarrow> (1, s)
    | Inr (ps, total_changed) \<Rightarrow>
        if dry_run then (0, s)
        else if total_changed = 0 then (0, s)
        else (case commit E (s\<lparr>products := ps, n_rand := n_rand s + 3 * length ps\<rparr>) of
            Inl e \<Rightarrow> (1, s)
          | Inr s' \<Rightarrow> (0, s')))"

definition rewrap_run :: "env \<Rightarrow> bool \<Rightarrow> bool \<Rightarrow> session \<Rightarrow> int \<times> session" where
  "rewrap_run E dry_run migrate_from_prev s =
    (if key_encryption_key (cfg E) = [] then (2, s)
     else if migrate_from_prev then
       (if key_encryption_key_prev (cfg E) = [] then (2, s)
        else if key_encryption_key_prev (cfg E) = key_encryption_key (cfg E) then (0, s)
        else (case fernet_prev E of None \<Rightarrow> (2, s)
           | Some f \<Rightarrow> rewrap_session E dry_run (Some f) s))
     else rewrap_session E dry_run None s)"

section \<open>What a field reads as\<close>

text \<open>
  The text a reader gets from a stored field before the run: under the old key for the
  values a rotation decrypts.
\<close>

definition read_under :: "env \<Rightarrow> string option \<Rightarrow> string \<Rightarrow> string res" where
  "read_under E prev x = (case prev of
      Some f \<Rightarrow> if is_encrypted (Some x) then decrypt_with E f x else Inr x
    | None \<Rightarrow> decrypt_pem E x)"

definition no_nested :: "env \<Rightarrow> string option \<Rightarrow> string \<Rightarrow> bool" where
  "no_nested E prev x \<longleftrightarrow> (\<forall>y. read_under E prev x = Inr y \<longrightarrow> \<not> is_encrypted (Some y))"

lemma rewrap_one_None: "rewrap_one E prev n None = Inr (None, False)"
  by (simp add: rewrap_one_def rewrap_field_def rewrap_field_migrate_def split: option.splits)

lemma rewrap_one_Some:
  assumes r: "rewrap_one E prev n (Some x) = Inr (w, c)" and f: "fernet_inverse E"
    and k: "fernet E \<noteq> None" and nn: "prev \<noteq> None \<longrightarrow> no_nested E prev x"
  shows "\<exists>y. w = Some y \<and> is_encrypted w \<and> decrypt_pem E y = read_under E prev x"
proof (cases prev)
  case None
  show ?thesis
  proof (cases "is_encrypted (Some x)")
    case True
    with r None show ?thesis by (auto simp: rewrap_one_def rewrap_field_def read_under_def)
  next
    case False
    with r None obtain y where y: "w = Some y" "encrypt_pem E n x = Inr y"
      by (auto simp: rewrap_one_def rewrap_field_def res_simps encrypt_secret_pem)
    with False k have "is_encrypted w" by (auto simp: encrypt_pem_cases)
    with y show ?thesis
      using secret.rewrite_same[OF f y(2)] by (simp add: None read_under_def)
  qed
next
  case (Some p)
  from r Some obtain v y where v: "read_under E prev x = Inr v" and w: "w = Some y"
    and y: "encrypt_pem E n v = Inr y"
    by (auto simp: rewrap_one_def rewrap_field_migrate_def read_under_def res_simps
        encrypt_secret_pem split: if_splits)
  have n: "\<not> is_encrypted (Some v)" using nn Some v by (simp add: no_nested_def)
  have "is_encrypted w" using y n k w by (auto simp: encrypt_pem_cases)
  moreover have "decrypt_pem E y = Inr v" using secret.unwrap_wrap[OF f n y] .
  ultimately show ?thesis using w v by simp
qed

section \<open>The loop\<close>

text \<open>The stored secrets of a product, present ones only.\<close>

definition stored_secrets :: "product \<Rightarrow> string list" where
  "stored_secrets p = p_private_key_pem p #
     opt_list (p_stripe_webhook_secret p) @ opt_list (p_stripe_api_key p)"

text \<open>
  One product rewritten: the same row but for its secrets, each present where it was,
  encrypted under the current key, and reading as before.
\<close>

definition rewrapped :: "env \<Rightarrow> string option \<Rightarrow> product \<Rightarrow> product \<Rightarrow> bool" where
  "rewrapped E prev p q \<longleftrightarrow>
     p\<lparr>p_private_key_pem := [], p_stripe_webhook_secret := None, p_stripe_api_key := None\<rparr>
       = q\<lparr>p_private_key_pem := [], p_stripe_webhook_secret := None, p_stripe_api_key := None\<rparr> \<and>
     list_all (\<lambda>x. is_encrypted (Some x)) (stored_secrets q) \<and>
     map (decrypt_pem E) (stored_secrets q) = map (read_under E prev) (stored_secrets p)"

lemma rewrap_one_opt:
  assumes r: "rewrap_one E prev n v = Inr (w, c)" and f: "fernet_inverse E"
    and k: "fernet E \<noteq> None" and nn: "prev \<noteq> None \<longrightarrow> (\<forall>x. v = Some x \<longrightarrow> no_nested E prev x)"
  shows "list_all (\<lambda>x. is_encrypted (Some x)) (opt_list w)
     \<and> map (decrypt_pem E) (opt_list w) = map (read_under E prev) (opt_list v)"
proof (cases v)
  case None
  with r show ?thesis by (simp add: rewrap_one_None)
next
  case (Some x)
  with r nn rewrap_one_Some[OF _ f k, of prev n x w c] show ?thesis
    by auto
qed

lemma rewrap_one_unchanged:
  "rewrap_one E prev n v = Inr (w, False) \<Longrightarrow> w = v"
  by (auto simp: rewrap_one_def rewrap_field_def rewrap_field_migrate_def res_simps
      split: option.splits if_splits)

lemma rewrap_product_rewrapped:
  assumes r: "rewrap_product E prev n p = Inr (q, c)" and f: "fernet_inverse E"
    and k: "fernet E \<noteq> None" and nn: "prev \<noteq> None \<longrightarrow> (\<forall>x \<in> set (stored_secrets p). no_nested E prev x)"
  shows "rewrapped E prev p q"
proof -
  from r obtain priv c1 ws c2 ak c3 where
    1: "rewrap_one E prev n (Some (p_private_key_pem p)) = Inr (Some priv, c1)" and
    2: "rewrap_one E prev (n + 1) (p_stripe_webhook_secret p) = Inr (ws, c2)" and
    3: "rewrap_one E prev (n + 2) (p_stripe_api_key p) = Inr (ak, c3)" and
    q: "q = (if c1 \<or> c2 \<or> c3 then p\<lparr>p_private_key_pem := priv, p_stripe_webhook_secret := ws,
          p_stripe_api_key := ak\<rparr> else p)"
    by (auto simp: rewrap_product_def res_simps attr_def split: option.splits if_splits)
  have q': "q = p\<lparr>p_private_key_pem := priv, p_stripe_webhook_secret := ws, p_stripe_api_key := ak\<rparr>"
  proof (cases "c1 \<or> c2 \<or> c3")
    case False
    with 1 2 3 have "priv = p_private_key_pem p" "ws = p_stripe_webhook_secret p" "ak = p_stripe_api_key p"
      by (auto dest!: rewrap_one_unchanged)
    with False q show ?thesis by simp
  qed (use q in simp)
  have m: "\<forall>x. p_stripe_webhook_secret p = Some x \<longrightarrow> x \<in> set (stored_secrets p)"
    "\<forall>x. p_stripe_api_key p = Some x \<longrightarrow> x \<in> set (stored_secrets p)"
    "p_private_key_pem p \<in> set (stored_secrets p)"
    by (auto simp: stored_secrets_def)
  show ?thesis
    using rewrap_one_opt[OF 1 f k] rewrap_one_opt[OF 2 f k] rewrap_one_opt[OF 3 f k] nn m
    by (simp add: rewrapped_def stored_secrets_def q')
qed

lemma rewrap_loop_rewrapped:
  assumes "rewrap_loop E prev n ps = Inr (qs, k)" and "fernet_inverse E" and "fernet E \<noteq> None"
    and "prev \<noteq> None \<longrightarrow> (\<forall>p \<in> set ps. \<forall>x \<in> set (stored_secrets p). no_nested E prev x)"
  shows "list_all2 (rewrapped E prev) ps qs"
  using assms
proof (induction ps arbitrary: n qs k)
  case (Cons p ps)
  then show ?case
    by (auto simp: res_simps rewrap_product_rewrapped)
qed (auto simp: res_simps)

lemma rewrap_loop_unchanged: "rewrap_loop E prev n ps = Inr (qs, 0) \<Longrightarrow> qs = ps"
proof (induction ps arbitrary: n qs)
  case (Cons p ps)
  then show ?case
    by (auto simp: res_simps rewrap_product_def split: if_splits)
qed simp

section \<open>The whole run\<close>

lemma rewrap_session_cases:
  assumes "rewrap_session E dry prev s = (c, s')"
  shows "(s' = s \<and> (c = 0 \<or> c = 1))
    \<or> (\<not> dry \<and> c = 0 \<and> (\<exists>ps k. rewrap_loop E prev (n_rand s) (products s) = Inr (ps, k) \<and> products s' = ps))"
  using assms by (auto simp: rewrap_session_def commit_Inr table_simps split: sum.splits if_splits)

lemma rewrap_session_wet:
  assumes "rewrap_session E False prev s = (0, s')"
  shows "\<exists>k. rewrap_loop E prev (n_rand s) (products s) = Inr (products s', k)"
  using assms
  by (auto simp: rewrap_session_def commit_Inr table_simps dest: rewrap_loop_unchanged
      split: sum.splits if_splits)



definition old_session :: session where
  "old_session = empty_session\<lparr>products :=
     [sample_product\<lparr>p_private_key_pem := enc_prefix @ fernet_encrypt kek_env ''k0'' 0 ''priv''\<rparr>]\<rparr>"

lemma old_session_nested:
  "\<forall>p \<in> set (products old_session). \<forall>x \<in> set (stored_secrets p). no_nested kek_env (Some ''k0'') x"
proof -
  have "read_under kek_env (Some ''k0'') (enc_prefix @ fernet_encrypt kek_env ''k0'' 0 ''priv'') = Inr ''priv''"
    and "read_under kek_env (Some ''k0'') ''whsec'' = Inr ''whsec''"
    and "\<not> is_encrypted (Some ''priv'')" and "\<not> is_encrypted (Some ''whsec'')" by code_simp+
  then show ?thesis
    by (simp add: old_session_def empty_session_def sample_product_def stored_secrets_def no_nested_def)
qed



end
