(* ===== verification/Migrations.thy ===== *)
theory Migrations
  imports Check Rewrap
begin

text \<open>
  The schema migrations that rewrite data, in their online mode (\<^verbatim>\<open>alembic/versions\<close>:
  \<^verbatim>\<open>9a9f5b6937d8\<close> the subjects of events, \<^verbatim>\<open>8a336b18bca1\<close> the encryption of payment secrets,
  \<^verbatim>\<open>5c836611873a\<close> the provenance of webhook URLs, \<^verbatim>\<open>82b53e74e9ac\<close> the http flag and
  \<^verbatim>\<open>1413d5d1702b\<close> the hashes of licence keys, in the order in which they run). A migration
  runs in one transaction. A column that a migration adds has its default in every row before the
  rewrite, whatever the row of the model held there. The licence rows of the last one have no hash
  yet; their other columns play no part in it.
\<close>

section \<open>Subjects of events\<close>

definition upgrade_subjects :: "event list \<Rightarrow> event list" where
  "upgrade_subjects t =
    (let t0 = map (\<lambda>e. e\<lparr>e_subject_kind := None, e_subject_id := None\<rparr>) t;
         t1 = update_where (\<lambda>e. e_license_id e \<noteq> None \<and> e_subject_id e = None)
           (\<lambda>e. e\<lparr>e_subject_kind := Some ''license'', e_subject_id := e_license_id e\<rparr>) t0
     in update_where (\<lambda>e. e_product_id e \<noteq> None \<and> e_subject_id e = None)
          (\<lambda>e. e\<lparr>e_subject_kind := Some ''product'', e_subject_id := e_product_id e\<rparr>) t1)"

section \<open>Provenance and http flag of webhook URLs\<close>

definition upgrade_url_source :: "license list \<Rightarrow> license list" where
  "upgrade_url_source t = update_where (\<lambda>l. l_webhook_url l \<noteq> None) (\<lambda>l. l\<lparr>l_webhook_url_source := Admin\<rparr>)
     (map (\<lambda>l. l\<lparr>l_webhook_url_source := Self\<rparr>) t)"

text \<open>\<^verbatim>\<open>LIKE 'http://%'\<close>, which ignores the case of ASCII letters on this engine.\<close>

definition like_http :: "string option \<Rightarrow> bool" where
  "like_http url = (case url of None \<Rightarrow> False | Some u \<Rightarrow> starts_with ''http://'' (lower u))"

definition upgrade_allow_http :: "license list \<Rightarrow> license list" where
  "upgrade_allow_http t = update_where (\<lambda>l. like_http (l_webhook_url l)) (\<lambda>l. l\<lparr>l_allow_http_webhook := True\<rparr>)
     (map (\<lambda>l. l\<lparr>l_allow_http_webhook := False\<rparr>) t)"

section \<open>Hashes of licence keys\<close>

record legacy_key =
  g_id :: uid
  g_key :: string
  g_key_hash :: "string option"
  g_key_display :: "(glyph list) option"

definition pepper_required :: exc where
  "pepper_required = RuntimeError (''license-key hash migration: rows present but LICENSE_KEY_PEPPER is unset. ''
     @ ''Set the pepper before running this migration; the value MUST then be stable for the lifetime of the deployment.'')"

fun backfill :: "env \<Rightarrow> legacy_key list \<Rightarrow> legacy_key list \<Rightarrow> legacy_key list res" where
  "backfill E [] table = Inr table"
| "backfill E (g # rows) table =
     rbind (hash_key E (g_key g)) (\<lambda>h.
     backfill E rows (update_where (\<lambda>x. g_id x = g_id g)
       (\<lambda>x. x\<lparr>g_key_hash := Some h, g_key_display := Some (make_display (g_key g))\<rparr>) table))"

text \<open>The last phase: neither column is null, and the hashes are unique.\<close>

definition tightened :: "legacy_key list \<Rightarrow> bool" where
  "tightened table \<longleftrightarrow> list_all (\<lambda>x. g_key_hash x \<noteq> None \<and> g_key_display x \<noteq> None) table
     \<and> distinct (map g_key_hash table)"

definition upgrade_key_hash :: "env \<Rightarrow> legacy_key list \<Rightarrow> legacy_key list res" where
  "upgrade_key_hash E table =
    (let rows = filter (\<lambda>x. g_key_hash x = None) table in
     if rows \<noteq> [] \<and> license_key_pepper (cfg E) = [] then Inl pepper_required
     else rbind (backfill E rows table) (\<lambda>t. if tightened t then Inr t else Inl IntegrityError))"

section \<open>Encryption of the payment secrets\<close>

definition rewrap_plain :: "env \<Rightarrow> nat \<Rightarrow> string option \<Rightarrow> (string option) res" where
  "rewrap_plain E n v = (if v \<noteq> None \<and> \<not> is_encrypted v then encrypt_secret E n v else Inr v)"

fun upgrade_stripe_secrets :: "env \<Rightarrow> product list \<Rightarrow> session \<Rightarrow> session res" where
  "upgrade_stripe_secrets E [] s = Inr s"
| "upgrade_stripe_secrets E (p # ps) s =
     rbind (rewrap_plain E (n_rand s) (p_stripe_webhook_secret p)) (\<lambda>ws.
     rbind (rewrap_plain E (Suc (n_rand s)) (p_stripe_api_key p)) (\<lambda>ak.
     upgrade_stripe_secrets E ps ((if ws \<noteq> p_stripe_webhook_secret p \<or> ak \<noteq> p_stripe_api_key p
         then put_product (p\<lparr>p_stripe_webhook_secret := ws, p_stripe_api_key := ak\<rparr>) s else s)
       \<lparr>n_rand := n_rand s + 2\<rparr>)))"

definition upgrade_encrypt :: "env \<Rightarrow> session \<Rightarrow> session res" where
  "upgrade_encrypt E s = upgrade_stripe_secrets E (products s) s"

section \<open>What the migrations keep\<close>

text \<open>
  An event of before the migration gets the subject it would have got had it been inserted
  after it; only an event without a licence and a product stays without one, whatever its payload says.
\<close>

lemma subjects_migrated:
  assumes "\<forall>e \<in> set t. e_license_id e \<noteq> Some [] \<and> e_product_id e \<noteq> Some []"
  shows "upgrade_subjects t = map (\<lambda>e.
     if e_license_id e = None \<and> e_product_id e = None then e\<lparr>e_subject_kind := None, e_subject_id := None\<rparr>
     else e\<lparr>e_subject_kind := fst (autofill_subject e), e_subject_id := snd (autofill_subject e)\<rparr>) t"
proof -
  have f: "autofill_subject e = (if e_license_id e \<noteq> None then (Some ''license'', e_license_id e) else (Some ''product'', e_product_id e))"
    if "e \<in> set t" "e_license_id e \<noteq> None \<or> e_product_id e \<noteq> None" for e
  proof -
    have "truthy (e_license_id e) = (e_license_id e \<noteq> None)" "truthy (e_product_id e) = (e_product_id e \<noteq> None)"
      using assms that(1) by (auto simp: truthy_iff)
    then show ?thesis using that(2) by (cases "e_license_id e"; cases "e_product_id e") (simp_all add: autofill_subject_def)
  qed
  then show ?thesis by (simp add: upgrade_subjects_def update_where_def Let_def)
qed

text \<open>A URL whose scheme is http, and that has a host, begins with \<open>http://\<close>.\<close>

lemma partition_split: "partition c u = (h, True, r) \<Longrightarrow> u = h @ c # r"
  by (induction u arbitrary: h) (auto simp: partition_def split: if_splits)

lemma http_prefix:
  assumes "urlsplit u = Inr p" and "clean_url u = u" and "u_scheme p = ''http''" and "hostname p \<noteq> None"
  shows "starts_with ''http://'' (lower u)"
proof -
  obtain h sep r where q: "partition (CHR '':'') u = (h, sep, r)" using prod_cases3 by blast
  have s: "sep" "lower h = ''http''" "u_netloc p = fst (split_netloc r)"
    using assms(1-3) q by (auto simp: urlsplit_def split_scheme_def Let_def split: if_splits prod.splits)
  have "u_netloc p \<noteq> []"
    using assms(4) by (auto simp: hostname_def hostinfo_def host_and_port_def partition_def rpartition_def Let_def)
  then have "starts_with ''//'' r" using s(3) by (auto simp: split_netloc_def split: if_splits)
  then obtain r' where "r = ''//'' @ r'" by (auto simp: starts_with_iff)
  moreover have "u = h @ CHR '':'' # r" using q s(1) by (simp add: partition_split)
  moreover have "map lower_char h = ''http''" using s(2) by (simp add: lower_def)
  ultimately have "lower u = ''http://'' @ lower r'" by (simp add: lower_def lower_char_def is_upper_def code_def)
  then show ?thesis by (simp only: starts_with_append)
qed

lemma safe_without_http:
  assumes "is_safe_url_shape u True" and "clean_url u = u" and "\<not> starts_with ''http://'' (lower u)"
  shows "is_safe_url_shape u False"
proof -
  obtain p where p: "urlsplit u = Inr p" and h: "hostname p \<noteq> None"
    using assms(1) by (auto simp: is_safe_url_shape_def split: sum.splits if_splits option.splits)
  have "u_scheme p \<noteq> ''http''" using http_prefix[OF p assms(2) _ h] assms(3) by blast
  with assms(1) p show ?thesis by (auto simp: is_safe_url_shape_def split: if_splits)
qed

text \<open>
  The two migrations of the licences establish the invariant of webhooks: when every URL so
  far has a secret and passes the guard with http allowed, each passes it under the flag that
  its row gets, and the rows with a URL are exactly the ones the licence check may not change.
\<close>

theorem webhook_columns_migrated:
  assumes "\<forall>l \<in> set t. \<forall>u. l_webhook_url l = Some u \<longrightarrow> clean_url u = u \<and> is_safe_url_shape u True"
    and "\<forall>l \<in> set t. l_webhook_url l \<noteq> None \<longrightarrow> truthy (l_webhook_secret l)"
  shows "list_all2 (\<lambda>l m. webhook_wf m \<and> (l_webhook_url_source m = Admin \<longleftrightarrow> l_webhook_url l \<noteq> None)
      \<and> m = l\<lparr>l_webhook_url_source := l_webhook_url_source m, l_allow_http_webhook := l_allow_http_webhook m\<rparr>)
    t (upgrade_allow_http (upgrade_url_source t))"
  unfolding list_all2_conv_all_nth
proof (intro conjI allI impI)
  show "length t = length (upgrade_allow_http (upgrade_url_source t))"
    by (simp add: upgrade_allow_http_def upgrade_url_source_def update_where_def)
  fix n assume n: "n < length t"
  define l where "l = t ! n"
  have l: "l \<in> set t" using n by (simp add: l_def)
  have m: "upgrade_allow_http (upgrade_url_source t) ! n = l\<lparr>l_webhook_url_source := (if l_webhook_url l \<noteq> None then Admin else Self),
      l_allow_http_webhook := like_http (l_webhook_url l)\<rparr>"
    using n by (simp add: upgrade_allow_http_def upgrade_url_source_def update_where_def l_def)
  have "is_safe_url_shape u (like_http (Some u))" if "l_webhook_url l = Some u" for u
    using assms(1) l that safe_without_http[of u] by (cases "like_http (Some u)") (auto simp: like_http_def)
  then have "webhook_wf (upgrade_allow_http (upgrade_url_source t) ! n)"
    using assms(2) l by (auto simp: m webhook_wf_def truthy_iff)
  then show "webhook_wf (upgrade_allow_http (upgrade_url_source t) ! n)"
    and "(l_webhook_url_source (upgrade_allow_http (upgrade_url_source t) ! n) = Admin) = (l_webhook_url (t ! n) \<noteq> None)"
    and "upgrade_allow_http (upgrade_url_source t) ! n = (t ! n)\<lparr>l_webhook_url_source := l_webhook_url_source (upgrade_allow_http (upgrade_url_source t) ! n),
      l_allow_http_webhook := l_allow_http_webhook (upgrade_allow_http (upgrade_url_source t) ! n)\<rparr>"
    by (simp_all add: m flip: l_def)
qed

lemma list_all2_setD1: "list_all2 R xs ys \<Longrightarrow> x \<in> set xs \<Longrightarrow> \<exists>y \<in> set ys. R x y"
  by (induction rule: list_all2_induct) auto

text \<open>What the loops do to a row, given the rows still to come.\<close>

definition hashed :: "env \<Rightarrow> legacy_key \<Rightarrow> legacy_key \<Rightarrow> bool" where
  "hashed E x y \<longleftrightarrow> (\<exists>h. hash_key E (g_key x) = Inr h
     \<and> y = x\<lparr>g_key_hash := Some h, g_key_display := Some (make_display (g_key x))\<rparr>)"

lemma backfill_rows:
  assumes "backfill E rows table = Inr t" and "distinct (map g_id table)"
    and "\<forall>r \<in> set rows. \<exists>x \<in> set table. g_id x = g_id r \<and> g_key x = g_key r"
  shows "list_all2 (\<lambda>x y. if g_id x \<in> g_id ` set rows then hashed E x y else y = x) table t"
  using assms
proof (induction rows arbitrary: table)
  case Nil
  then show ?case by (simp add: list_all2_same)
next
  case (Cons r rows)
  obtain h where h: "hash_key E (g_key r) = Inr h"
    and b: "backfill E rows (update_where (\<lambda>x. g_id x = g_id r)
       (\<lambda>x. x\<lparr>g_key_hash := Some h, g_key_display := Some (make_display (g_key r))\<rparr>) table) = Inr t" (is "backfill E rows ?t' = _")
    using Cons.prems(1) by (auto simp: rbind_Inr_iff)
  have d: "distinct (map g_id ?t')" using Cons.prems(2) by (simp add: map_update_where)
  have m: "\<forall>r \<in> set rows. \<exists>x \<in> set ?t'. g_id x = g_id r \<and> g_key x = g_key r"
  proof
    fix r' assume "r' \<in> set rows"
    with Cons.prems(3) obtain x where x: "x \<in> set table" "g_id x = g_id r'" "g_key x = g_key r'" by auto
    then have "(if g_id x = g_id r then x\<lparr>g_key_hash := Some h, g_key_display := Some (make_display (g_key r))\<rparr> else x)
        \<in> set ?t'" by (auto simp: set_update_where)
    then show "\<exists>x \<in> set ?t'. g_id x = g_id r' \<and> g_key x = g_key r'" by (rule bexI[rotated]) (simp add: x)
  qed
  from Cons.IH[OF b d m] have l: "list_all2 (\<lambda>x y. if g_id x \<in> g_id ` set rows then hashed E x y else y = x) ?t' t" .
  have k: "g_key x = g_key r" if "x \<in> set table" "g_id x = g_id r" for x
    using that Cons.prems(2,3) by (force simp: distinct_map inj_on_def)
  show ?case
  proof (rule list_all2_all_nthI)
    show "length table = length t" using list_all2_lengthD[OF l] by (simp add: update_where_def)
    fix n assume n: "n < length table"
    let ?x = "table ! n"
    have x': "?t' ! n = (if g_id ?x = g_id r
        then ?x\<lparr>g_key_hash := Some h, g_key_display := Some (make_display (g_key r))\<rparr> else ?x)"
      using n by (simp add: update_where_def)
    have "if g_id (?t' ! n) \<in> g_id ` set rows then hashed E (?t' ! n) (t ! n) else t ! n = ?t' ! n"
      using l n by (auto simp: list_all2_conv_all_nth update_where_def)
    then show "if g_id ?x \<in> g_id ` set (r # rows) then hashed E ?x (t ! n) else t ! n = ?x"
      unfolding x' using h k[of ?x] n by (auto simp: hashed_def split: if_splits)
  qed
qed


lemma rewrap_plain_reads:
  assumes "fernet_inverse E" and "rewrap_plain E n v = Inr w"
  shows "decrypt_secret E w = decrypt_secret E v"
proof (cases "v \<noteq> None \<and> \<not> is_encrypted v")
  case True
  then obtain x where x: "v = Some x" by auto
  with True assms(2) obtain y where y: "w = Some y" "encrypt_pem E n x = Inr y"
    by (auto simp: rewrap_plain_def encrypt_secret_pem)
  with secret.rewrite_same[OF assms(1) y(2)] x show ?thesis by (simp add: decrypt_secret_bind)
qed (use assms(2) in \<open>auto simp: rewrap_plain_def split: if_splits\<close>)

definition reencrypted :: "env \<Rightarrow> product \<Rightarrow> product \<Rightarrow> bool" where
  "reencrypted E p q \<longleftrightarrow> q = p\<lparr>p_stripe_webhook_secret := p_stripe_webhook_secret q, p_stripe_api_key := p_stripe_api_key q\<rparr>
     \<and> decrypt_secret E (p_stripe_webhook_secret q) = decrypt_secret E (p_stripe_webhook_secret p)
     \<and> decrypt_secret E (p_stripe_api_key q) = decrypt_secret E (p_stripe_api_key p)"

lemma reencrypted_refl: "reencrypted E p p" by (simp add: reencrypted_def)

lemma upgrade_stripe_rows:
  assumes "upgrade_stripe_secrets E ps s = Inr s'" and "fernet_inverse E"
    and "distinct (map p_id (products s))" and "distinct (map p_id ps)" and "set ps \<subseteq> set (products s)"
  shows "list_all2 (reencrypted E) (products s) (products s') \<and> s' = s\<lparr>products := products s', n_rand := n_rand s'\<rparr>"
  using assms(1,3-5)
proof (induction ps arbitrary: s)
  case Nil
  then show ?case by (simp add: list_all2_same reencrypted_refl)
next
  case (Cons p ps)
  obtain ws ak where w: "rewrap_plain E (n_rand s) (p_stripe_webhook_secret p) = Inr ws"
      "rewrap_plain E (Suc (n_rand s)) (p_stripe_api_key p) = Inr ak"
    and u: "upgrade_stripe_secrets E ps ((if ws \<noteq> p_stripe_webhook_secret p \<or> ak \<noteq> p_stripe_api_key p
         then put_product (p\<lparr>p_stripe_webhook_secret := ws, p_stripe_api_key := ak\<rparr>) s else s)
       \<lparr>n_rand := n_rand s + 2\<rparr>) = Inr s'" (is "upgrade_stripe_secrets E ps ?s = _")
    using Cons.prems(1) by (auto simp: rbind_Inr_iff)
  let ?q = "p\<lparr>p_stripe_webhook_secret := ws, p_stripe_api_key := ak\<rparr>"
  have ps: "products ?s = update_where (\<lambda>x. p_id x = p_id p) (\<lambda>_. ?q) (products s)"
  proof (cases "ws \<noteq> p_stripe_webhook_secret p \<or> ak \<noteq> p_stripe_api_key p")
    case False
    then have "?q = p" by simp
    moreover have "p = x" if "x \<in> set (products s)" "p_id x = p_id p" for x
      using that Cons.prems(2,4) by (auto simp: distinct_map inj_on_def)
    ultimately show ?thesis using False by (auto simp: update_where_def intro!: map_idI[symmetric])
  qed (simp add: put_product_def)
  have q: "reencrypted E p ?q" using rewrap_plain_reads[OF assms(2)] w by (simp add: reencrypted_def)
  have ids: "map p_id (products ?s) = map p_id (products s)" unfolding ps by (simp add: map_update_where)
  have rest: "set ps \<subseteq> set (products ?s)"
  proof
    fix x assume x: "x \<in> set ps"
    then have "p_id x \<in> p_id ` set ps" by simp
    then have "p_id x \<noteq> p_id p" using Cons.prems(3) by auto
    moreover have "x \<in> set (products s)" using x Cons.prems(4) by auto
    ultimately show "x \<in> set (products ?s)" unfolding ps by (force simp: set_update_where)
  qed
  have ih: "list_all2 (reencrypted E) (products ?s) (products s') \<and> s' = ?s\<lparr>products := products s', n_rand := n_rand s'\<rparr>"
    using Cons.IH[OF u] ids Cons.prems(2,3) rest by simp
  have len: "length (products ?s) = length (products s)" unfolding ps by (simp add: update_where_def)
  have "reencrypted E (products s ! n) (products s' ! n)" if n: "n < length (products s)" for n
  proof -
    have "products ?s ! n = (if p_id (products s ! n) = p_id p then ?q else products s ! n)"
      unfolding ps using n by (simp add: update_where_def)
    moreover have "products s ! n = p" if "p_id (products s ! n) = p_id p"
      using that n Cons.prems(2,4) by (force simp: distinct_map inj_on_def)
    moreover have "reencrypted E (products ?s ! n) (products s' ! n)"
      using ih n len list_all2_nthD by metis
    ultimately show ?thesis using q by (auto simp: reencrypted_def split: if_splits)
  qed
  moreover have "length (products s') = length (products s)"
    using ih len list_all2_lengthD by metis
  ultimately have "list_all2 (reencrypted E) (products s) (products s')" by (simp add: list_all2_conv_all_nth)
  moreover have "s' = s\<lparr>products := products s', n_rand := n_rand s'\<rparr>"
    using ih by (auto simp: put_product_def split: if_splits)
  ultimately show ?case by blast
qed

text \<open>
  The encryption migration changes how the payment secrets of the products are stored
  and nothing else: every secret reads as it read before, whatever the key configuration.
\<close>

theorem encrypt_migration:
  assumes "upgrade_encrypt E s = Inr s'" and "fernet_inverse E" and "distinct (map p_id (products s))"
  shows "list_all2 (\<lambda>p q. q = p\<lparr>p_stripe_webhook_secret := p_stripe_webhook_secret q, p_stripe_api_key := p_stripe_api_key q\<rparr>
      \<and> decrypt_secret E (p_stripe_webhook_secret q) = decrypt_secret E (p_stripe_webhook_secret p)
      \<and> decrypt_secret E (p_stripe_api_key q) = decrypt_secret E (p_stripe_api_key p)) (products s) (products s')
    \<and> s' = s\<lparr>products := products s', n_rand := n_rand s'\<rparr>"
  using upgrade_stripe_rows[of E "products s" s s'] assms
  by (simp add: upgrade_encrypt_def reencrypted_def[abs_def])

section \<open>Examples\<close>

definition legacy_table :: "legacy_key list" where
  "legacy_table = [\<lparr>g_id = ''l1'', g_key = ''demo_key1'', g_key_hash = None, g_key_display = None\<rparr>,
     \<lparr>g_id = ''l2'', g_key = ''demo_key2'', g_key_hash = None, g_key_display = None\<rparr>]"


theorem encrypt_migration_witness:
  "\<exists>s'. upgrade_encrypt shop_env shop = Inr s' \<and> products s' \<noteq> products shop
     \<and> decrypt_secret shop_env (p_stripe_webhook_secret (hd (products s'))) = Inr (Some ''whsec'')"
proof -
  have "is_ok (upgrade_encrypt shop_env shop)" by code_simp
  then obtain s' where s': "upgrade_encrypt shop_env shop = Inr s'" using is_okE by blast
  have "case upgrade_encrypt shop_env shop of Inr s1 \<Rightarrow> products s1 \<noteq> products shop | _ \<Rightarrow> False" by code_simp
  with s' have ne: "products s' \<noteq> products shop" by simp
  have f: "fernet_inverse shop_env" by (simp add: shop_env_def sample_fernet_inverse)
  have "distinct (map p_id (products shop))" by code_simp
  from encrypt_migration[OF s' f this]
  have "decrypt_secret shop_env (p_stripe_webhook_secret (hd (products s')))
      = decrypt_secret shop_env (p_stripe_webhook_secret sample_product)"
    by (auto simp: shop_def list_all2_Cons1)
  moreover have "decrypt_secret shop_env (p_stripe_webhook_secret sample_product) = Inr (Some ''whsec'')" by code_simp
  ultimately show ?thesis using s' ne by auto
qed

end
