(* ===== verification/Http.thy ===== *)
theory Http
  imports Security Signing
begin

text \<open>
  Requests and responses of the web application, and the guards every administrator page
  starts with (\<^verbatim>\<open>app/routers/admin_ui/_deps.py\<close>): the signed session cookie with its age
  limit, the pre-login cookie of the second factor, the CSRF token bound to the session
  cookie, and the whitelisted error codes of redirects. The signer of cookies
  (\<^verbatim>\<open>itsdangerous\<close>) is a parameter. Templates are not modelled: a page is the data its
  template is given.
\<close>

section \<open>Requests and responses\<close>

record request =
  q_cookies :: "(string \<times> string) list"
  q_authorization :: "string option"
  q_client :: "string option"
  q_forwarded :: "string option"

datatype page =
    LoginPage "string option"
  | LoginMfaPage "string option"
  | DashboardPage nat nat nat nat "event list"
  | ProductsPage "product list" "(uid \<times> nat) list"
  | ProductPage product "license list" "string option" "preset list"
  | PresetsPage "preset list" "product list"
  | CustomersPage "customer list" "(uid \<times> string list) list" "(uid \<times> nat) list" "string option"
  | EventsPage "event list"
  | DeliveriesPage "delivery list" "(string \<times> nat) list" "string option" "license list" datetime
  | BackupsPage "(string \<times> nat) list" string bool string bool int int string
  | MfaPage bool

datatype body = Empty | JsonBody json | TextBody string | PageBody page

text \<open>A cookie is set with a value and a maximal age in seconds, or deleted.\<close>

record response =
  rs_status :: int
  rs_location :: "string option"
  rs_body :: body
  rs_cookies :: "(string \<times> (string \<times> int) option) list"
  rs_headers :: "(string \<times> string) list"

definition redirect :: "string \<Rightarrow> response" where
  "redirect url = \<lparr>rs_status = 303, rs_location = Some url, rs_body = Empty, rs_cookies = [], rs_headers = []\<rparr>"

definition respond :: "int \<Rightarrow> body \<Rightarrow> response" where
  "respond st b = \<lparr>rs_status = st, rs_location = None, rs_body = b, rs_cookies = [], rs_headers = []\<rparr>"

definition show_page :: "page \<Rightarrow> response" where
  "show_page p = respond 200 (PageBody p)"

definition json_response :: "json \<Rightarrow> response" where
  "json_response j = respond 200 (JsonBody j)"

definition attachment :: "string \<Rightarrow> string \<Rightarrow> response" where
  "attachment filename txt = \<lparr>rs_status = 200, rs_location = None, rs_body = TextBody txt, rs_cookies = [],
     rs_headers = [(''Content-Disposition'', ''attachment; filename='' @ [quote] @ filename @ [quote])]\<rparr>"

section \<open>Session cookies\<close>

definition SESSION_COOKIE :: string where "SESSION_COOKIE = ''ls_session''"
definition SESSION_MAX_AGE_SECONDS :: int where "SESSION_MAX_AGE_SECONDS = 60 * 60 * 24 * 7"
definition PRE_MFA_COOKIE :: string where "PRE_MFA_COOKIE = ''ls_pre_mfa''"
definition PRE_MFA_MAX_AGE_SECONDS :: int where "PRE_MFA_MAX_AGE_SECONDS = 5 * 60"

definition session_salt :: string where "session_salt = ''admin-session''"
definition pre_mfa_salt :: string where "pre_mfa_salt = ''admin-pre-mfa''"

text \<open>The key of \<open>serializer\<close> and \<open>pre_mfa_serializer\<close>.\<close>

definition serializer_key :: "env \<Rightarrow> string res" where
  "serializer_key E = (let k = session_secret (cfg E) in
     if k = [] then Inl (HTTPException 503 ''SESSION_SECRET not set'') else Inr k)"

text \<open>\<open>isinstance(iat, int)\<close>, which a boolean satisfies.\<close>

definition issued_at :: "json \<Rightarrow> int option" where
  "issued_at j = (case jget j ''iat'' of
      Some (JInt n) \<Rightarrow> Some n | Some (JBool b) \<Rightarrow> Some (if b then 1 else 0) | _ \<Rightarrow> None)"

definition cookie_age :: "env \<Rightarrow> string \<Rightarrow> string \<Rightarrow> datetime \<Rightarrow> request \<Rightarrow> (int option) res" where
  "cookie_age E name salt t req =
     (let raw = map_of (q_cookies req) name in
      if \<not> truthy raw then Inr None
      else rbind (serializer_key E) (\<lambda>k. Inr (case cookie_load E k salt (the raw) of
          None \<Rightarrow> None
        | Some j \<Rightarrow> (case issued_at j of None \<Rightarrow> None | Some iat \<Rightarrow> Some (timestamp t - iat)))))"

definition pre_mfa_valid :: "env \<Rightarrow> datetime \<Rightarrow> request \<Rightarrow> bool res" where
  "pre_mfa_valid E t req = rbind (cookie_age E PRE_MFA_COOKIE pre_mfa_salt t req) (\<lambda>a.
     Inr (case a of None \<Rightarrow> False | Some n \<Rightarrow> n \<le> PRE_MFA_MAX_AGE_SECONDS))"

definition logged_in :: "env \<Rightarrow> datetime \<Rightarrow> request \<Rightarrow> bool res" where
  "logged_in E t req = rbind (cookie_age E SESSION_COOKIE session_salt t req) (\<lambda>a.
     Inr (case a of None \<Rightarrow> False | Some n \<Rightarrow> \<not> n > SESSION_MAX_AGE_SECONDS))"

definition require_login :: "env \<Rightarrow> datetime \<Rightarrow> request \<Rightarrow> unit res" where
  "require_login E t req = rbind (logged_in E t req) (\<lambda>b. if b then Inr () else Inl LoginRequired)"

definition current_csrf_token :: "env \<Rightarrow> request \<Rightarrow> string option" where
  "current_csrf_token E req = (let raw = map_of (q_cookies req) SESSION_COOKIE in
     if \<not> truthy raw \<or> session_secret (cfg E) = [] then None
     else Some (csrf_token E (session_secret (cfg E)) (the raw)))"

definition require_csrf :: "env \<Rightarrow> request \<Rightarrow> string option \<Rightarrow> unit res" where
  "require_csrf E req supplied = (let raw = map_of (q_cookies req) SESSION_COOKIE; k = session_secret (cfg E) in
     if \<not> truthy raw \<or> k = [] \<or> \<not> check_csrf E k (the raw) supplied
     then Inl (HTTPException 403 ''invalid CSRF token'') else Inr ())"

text \<open>The two guards of a form handler.\<close>

definition form_guard :: "env \<Rightarrow> datetime \<Rightarrow> request \<Rightarrow> string \<Rightarrow> unit res" where
  "form_guard E t req csrf = rbind (require_login E t req) (\<lambda>_. require_csrf E req (Some csrf))"

definition require_admin :: "env \<Rightarrow> request \<Rightarrow> unit res" where
  "require_admin E req = (let tok = admin_token (cfg E) in
     if tok = [] then Inl (HTTPException 503 ''admin disabled (ADMIN_TOKEN unset)'')
     else if \<not> check_admin_bearer (q_authorization req) tok then Inl (HTTPException 401 ''invalid admin token'')
     else Inr ())"

section \<open>Error codes\<close>

definition exc_text :: "exc \<Rightarrow> string" where
  "exc_text e = (case e of NotFound m \<Rightarrow> m | Conflict m \<Rightarrow> m | ValidationFailed m \<Rightarrow> m | Unsafe m \<Rightarrow> m
     | RuntimeError m \<Rightarrow> m | ValueError m \<Rightarrow> m | TypeError m \<Rightarrow> m | AttributeError m \<Rightarrow> m | OverflowError m \<Rightarrow> m
     | _ \<Rightarrow> [])"

definition service_err_to_code :: "(string \<times> string) list" where
  "service_err_to_code = [
     (''backup decrypt failed'', ''backup+decrypt+failed''),
     (''backup encrypted but no kek'', ''backup+encrypted+but+no+kek''),
     (''backup schema version mismatch'', ''backup+schema+version+mismatch''),
     (''invalid backup filename'', ''invalid+backup+filename''),
     (''not a recognized backup file'', ''not+a+recognized+backup+file''),
     (''restore confirmation mismatch'', ''restore+confirmation+mismatch''),
     (''unsupported backup format version'', ''unsupported+backup+format+version''),
     (''slug already exists'', ''slug+exists''),
     (''invalid slug (lowercase a-z0-9-, max 63)'', ''invalid+slug''),
     (''invalid key_prefix (lowercase a-z0-9_, max 15)'', ''invalid+key_prefix''),
     (''invalid features json'', ''invalid+features+json''),
     (''invalid preset key'', ''invalid+preset+key''),
     (''invalid preset type'', ''invalid+preset+type''),
     (''invalid preset value'', ''invalid+preset+value''),
     (''preset exists'', ''preset+exists''),
     (''invalid valid_until'', ''invalid+valid_until''),
     (''unsafe webhook url'', ''unsafe+webhook+url''),
     (''no webhook configured'', ''no+webhook+configured''),
     (''email required'', ''email+required''),
     (''email already used by another customer'', ''email+already+used+by+another+customer'')]"

definition err_code :: "exc \<Rightarrow> string" where
  "err_code e = (case map_of service_err_to_code (exc_text e) of Some c \<Rightarrow> c | None \<Rightarrow> ''error'')"

text \<open>The texts of the messages, with dashes written in ASCII.\<close>

definition error_messages :: "(string \<times> string) list" where
  "error_messages = [
     (''backup decrypt failed'', ''Couldn't decrypt that backup -- it was encrypted under a different '' @
        ''LICENSE_KEY_ENCRYPTION_KEY than this server's.''),
     (''backup encrypted but no kek'', ''That backup is encrypted, but this server has no '' @
        ''LICENSE_KEY_ENCRYPTION_KEY configured to decrypt it.''),
     (''backup schema version mismatch'', ''Backup was taken on a different database schema revision -- run the '' @
        ''matching server version (alembic) before restoring it.''),
     (''backup too large'', ''Uploaded file exceeds the restore size limit.''),
     (''invalid backup filename'', ''Unknown backup file.''),
     (''no backups selected'', ''No backups were selected.''),
     (''not a recognized backup file'', ''That file isn't a YgLicenseServer backup archive.''),
     (''restore confirmation mismatch'', ''Confirmation phrase didn't match -- nothing was restored.''),
     (''unsupported backup format version'', ''Backup uses a newer archive format than this server understands.''),
     (''email already used by another customer'', ''That email is already used by another customer.''),
     (''email required'', ''Email is required.''),
     (''invalid features json'', ''Features JSON was not a valid object.''),
     (''invalid preset key'', ''Preset key must be 1-64 characters of letters, digits, _ . or -.''),
     (''invalid preset type'', ''Preset type must be bool, number, string, or json.''),
     (''invalid preset value'', ''Default value doesn't match the selected type.''),
     (''no presets selected'', ''No presets were selected.''),
     (''preset exists'', ''A preset with that key already exists in this scope.''),
     (''invalid key_prefix'', ''Key prefix must be lowercase a-z 0-9 _, max 15 characters.''),
     (''invalid slug'', ''Slug must be lowercase a-z 0-9 -, max 63 characters.''),
     (''invalid valid_until'', ''Could not parse Valid Until date.''),
     (''no licenses selected'', ''No licenses were selected.''),
     (''no products selected'', ''No products were selected.''),
     (''no webhook configured'', ''This license has no webhook URL configured.''),
     (''slug exists'', ''A product with that slug already exists.''),
     (''unsafe webhook url'', ''Webhook URL refused by SSRF guard '' @
        ''(private/loopback/internal host or non-http(s) scheme).'')]"

definition error_message :: "string option \<Rightarrow> string option" where
  "error_message x = (if \<not> truthy x then None
     else (case map_of error_messages (the x) of
         Some m \<Rightarrow> Some m
       | None \<Rightarrow> map_of error_messages (map (\<lambda>c. if c = CHR ''+'' then CHR '' '' else c) (the x))))"

text \<open>Every code that \<open>err_code\<close> produces for a known message has a text.\<close>

lemma known_codes: "\<forall>(m, c) \<in> set service_err_to_code. error_message (Some c) \<noteq> None"
  by code_simp

section \<open>What the guards let through\<close>

lemma require_login_Inr: "require_login E t req = Inr u \<longleftrightarrow> logged_in E t req = Inr True"
  by (auto simp: require_login_def rbind_Inr_iff split: if_splits)

lemma form_guard_Inr: "form_guard E t req csrf = Inr u \<longleftrightarrow> logged_in E t req = Inr True
    \<and> (\<exists>raw. map_of (q_cookies req) SESSION_COOKIE = Some raw \<and> raw \<noteq> []
         \<and> csrf = csrf_token E (session_secret (cfg E)) raw \<and> csrf \<noteq> [] \<and> session_secret (cfg E) \<noteq> [])"
  by (auto simp: form_guard_def rbind_Inr_iff require_login_Inr require_csrf_def check_csrf_iff Let_def
      truthy_iff)

lemma logged_in_True: "logged_in E t req = Inr True \<longleftrightarrow> session_secret (cfg E) \<noteq> []
    \<and> (\<exists>raw j iat. map_of (q_cookies req) SESSION_COOKIE = Some raw \<and> raw \<noteq> []
       \<and> cookie_load E (session_secret (cfg E)) session_salt raw = Some j \<and> issued_at j = Some iat
       \<and> timestamp t - iat \<le> SESSION_MAX_AGE_SECONDS)"
  by (auto simp: logged_in_def cookie_age_def serializer_key_def rbind_Inr_iff truthy_iff Let_def
      split: option.splits if_splits)

end
