(* ===== verification/Products.thy ===== *)
theory Products
  imports Lifecycle Keystore
begin

text \<open>
  The product lifecycle (\<^verbatim>\<open>app/services/products.py\<close>): creation with a generated key pair
  whose private half is encrypted at rest, three-way edits, the cascading delete, and the
  listings. A keyword argument that may be left out is an \<open>upd\<close>.
\<close>

section \<open>Formats\<close>

definition slug_ok :: "string \<Rightarrow> bool" where
  "slug_ok = re_match_dollar (\<lambda>s. s \<noteq> [] \<and> (is_lower (hd s) \<or> is_digit (hd s))
     \<and> re_class (\<lambda>c. is_lower c \<or> is_digit c \<or> c = CHR ''-'') 0 62 (tl s))"

definition prefix_ok :: "string \<Rightarrow> bool" where
  "prefix_ok = re_match_dollar (re_class (\<lambda>c. is_lower c \<or> is_digit c \<or> c = CHR ''_'') 1 15)"

definition bad_slug :: exc where
  "bad_slug = ValidationFailed ''invalid slug (lowercase a-z0-9-, max 63)''"

definition bad_prefix :: exc where
  "bad_prefix = ValidationFailed ''invalid key_prefix (lowercase a-z0-9_, max 15)''"

section \<open>Operations\<close>

definition find_product :: "string \<Rightarrow> session \<Rightarrow> (product option) res" where
  "find_product slug s = one_or_none (\<lambda>p. p_slug p = slug) (products s)"

definition get_product :: "string \<Rightarrow> session \<Rightarrow> product res" where
  "get_product slug s = rbind (find_product slug s) (\<lambda>p. case p of
      None \<Rightarrow> Inl (NotFound ''product not found'') | Some p \<Rightarrow> Inr p)"

text \<open>\<open>encrypt_secret\<close> with the next nonce.\<close>

definition seal :: "env \<Rightarrow> string option \<Rightarrow> session \<Rightarrow> (string option \<times> session) res" where
  "seal E x s = rbind (encrypt_secret E (n_rand s) x) (\<lambda>y. Inr (y, s\<lparr>n_rand := Suc (n_rand s)\<rparr>))"

definition or_default :: "string option \<Rightarrow> string \<Rightarrow> string" where
  "or_default x d = (case x of Some v \<Rightarrow> if v \<noteq> [] then v else d | None \<Rightarrow> d)"

definition opt_text :: "string option \<Rightarrow> string option" where
  "opt_text x = (case x of Some v \<Rightarrow> or_none v | None \<Rightarrow> None)"

text \<open>The event is built before the product is flushed, when it has no identifier yet.\<close>

definition create_product ::
  "env \<Rightarrow> string \<Rightarrow> string \<Rightarrow> string \<Rightarrow> string option \<Rightarrow> string option \<Rightarrow> string option
    \<Rightarrow> string option \<Rightarrow> bool \<Rightarrow> session \<Rightarrow> (product \<times> session) res" where
  "create_product E slug name key_prefix description jwt_issuer webhook_secret api_key validate s =
    (if validate \<and> \<not> slug_ok slug then Inl bad_slug
     else if validate \<and> \<not> prefix_ok key_prefix then Inl bad_prefix
     else rbind (find_product slug s) (\<lambda>found.
       if found \<noteq> None then Inl (Conflict ''slug already exists'')
       else
         let ((priv, pub), s1) = generate_keypair E s
         in rbind (seal E (Some priv) s1) (\<lambda>(priv', s2).
            rbind (seal E webhook_secret s2) (\<lambda>(wh', s3).
            rbind (seal E api_key s3) (\<lambda>(api', s4).
            let (i, s5) = fresh_id E s4;
                p = \<lparr>p_id = i, p_slug = slug, p_name = name, p_description = opt_text description,
                  p_public_key_pem = pub, p_private_key_pem = the priv', p_key_prefix = key_prefix,
                  p_stripe_webhook_secret = wh', p_stripe_api_key = api',
                  p_jwt_issuer = or_default jwt_issuer (slug @ ''-license-server''),
                  p_created_at = now s5\<rparr>
            in rbind (commit E (audit None None ''product:created'' (JDict [(''slug'', JStr slug)]) None
                  (s5\<lparr>products := products s5 @ [p]\<rparr>))) (\<lambda>s6. Inr (p, s6)))))))"

definition forget_product :: "uid \<Rightarrow> session \<Rightarrow> session" where
  "forget_product i s = s\<lparr>
     events := update_where (\<lambda>e. e_product_id e = Some i) (\<lambda>e. e\<lparr>e_product_id := None\<rparr>) (events s),
     presets := delete_where (\<lambda>f. f_product_id f = Some i) (presets s),
     products := delete_where (\<lambda>p. p_id p = i) (products s)\<rparr>"

definition product_licenses :: "product \<Rightarrow> session \<Rightarrow> license list" where
  "product_licenses p s = filter (\<lambda>l. l_product_id l = p_id p) (licenses s)"

definition delete_product :: "env \<Rightarrow> string \<Rightarrow> schedule \<Rightarrow> session \<Rightarrow> (nat \<times> session) res" where
  "delete_product E slug sched s =
     rbind (get_product slug s) (\<lambda>p.
     let lics = product_licenses p s
     in rbind (delete_all_in_tx E lics ''service/product-cascade'' s) (\<lambda>(pairs, s1).
        let s2 = audit None None ''product:deleted'' (JDict [(''product_id'', JStr (p_id p)),
              (''slug'', JStr (p_slug p)), (''name'', JStr (p_name p)),
              (''license_count'', JInt (int (length lics)))]) (Some ''service/delete'') s1
        in rbind (commit E (forget_product (p_id p) s2)) (\<lambda>s3.
           Inr (length lics, run_deliveries E sched (map snd pairs) s3))))"

datatype upd = Unset | Set string

definition set_to :: "upd \<Rightarrow> string \<Rightarrow> string" where
  "set_to u d = (case u of Unset \<Rightarrow> d | Set v \<Rightarrow> v)"

text \<open>The fields an edit would give the product, after the empty string has cleared what it clears.\<close>

definition edited_product :: "product \<Rightarrow> upd \<Rightarrow> upd \<Rightarrow> upd \<Rightarrow> upd \<Rightarrow> upd \<Rightarrow> product" where
  "edited_product p new_slug name key_prefix jwt_issuer description =
     (let target = set_to new_slug (p_slug p) in
      p\<lparr>p_slug := target, p_name := set_to name (p_name p),
        p_key_prefix := set_to key_prefix (p_key_prefix p),
        p_jwt_issuer := (if jwt_issuer = Set [] then target @ ''-license-server''
                         else set_to jwt_issuer (p_jwt_issuer p)),
        p_description := (case description of Unset \<Rightarrow> p_description p | Set v \<Rightarrow> or_none v)\<rparr>)"

definition product_changes :: "product \<Rightarrow> product \<Rightarrow> (string \<times> json) list" where
  "product_changes p q =
     (if p_slug q \<noteq> p_slug p then [(''slug'', JList [JStr (p_slug p), JStr (p_slug q)])] else [])
     @ (if p_name q \<noteq> p_name p then [(''name'', JList [JStr (p_name p), JStr (p_name q)])] else [])
     @ (if p_key_prefix q \<noteq> p_key_prefix p
        then [(''key_prefix'', JList [JStr (p_key_prefix p), JStr (p_key_prefix q)])] else [])
     @ (if p_jwt_issuer q \<noteq> p_jwt_issuer p
        then [(''jwt_issuer'', JList [JStr (p_jwt_issuer p), JStr (p_jwt_issuer q)])] else [])
     @ (if p_description q \<noteq> p_description p
        then [(''description'', JList [jopt (p_description p), jopt (p_description q)])] else [])"

definition check_product_edit :: "product \<Rightarrow> upd \<Rightarrow> upd \<Rightarrow> upd \<Rightarrow> session \<Rightarrow> unit res" where
  "check_product_edit p new_slug name key_prefix s =
    (if new_slug = Set [] then Inl (ValidationFailed ''slug is required'')
     else if name = Set [] then Inl (ValidationFailed ''name is required'')
     else if key_prefix = Set [] then Inl (ValidationFailed ''key_prefix is required'')
     else rbind (case new_slug of
          Set v \<Rightarrow> if v = p_slug p then Inr ()
            else if \<not> slug_ok v then Inl bad_slug
            else rbind (find_product v s) (\<lambda>found.
              if found \<noteq> None then Inl (Conflict ''slug already exists'') else Inr ())
        | Unset \<Rightarrow> Inr ()) (\<lambda>_.
       case key_prefix of
          Set v \<Rightarrow> if v \<noteq> p_key_prefix p \<and> \<not> prefix_ok v then Inl bad_prefix else Inr ()
        | Unset \<Rightarrow> Inr ()))"

definition update_product ::
  "env \<Rightarrow> string \<Rightarrow> upd \<Rightarrow> upd \<Rightarrow> upd \<Rightarrow> upd \<Rightarrow> upd \<Rightarrow> session \<Rightarrow> (product \<times> session) res" where
  "update_product E slug new_slug name key_prefix jwt_issuer description s =
     rbind (get_product slug s) (\<lambda>p.
     rbind (check_product_edit p new_slug name key_prefix s) (\<lambda>_.
     let q = edited_product p new_slug name key_prefix jwt_issuer description;
         changes = product_changes p q
     in if changes = [] then Inr (p, s)
        else rbind (commit E (audit None (Some (p_id p)) ''product:edited''
               (JDict [(''slug'', JStr slug), (''changes'', JDict changes)]) None (put_product q s)))
             (\<lambda>s'. Inr (q, s'))))"

section \<open>Listings\<close>

definition list_products :: "session \<Rightarrow> product list" where
  "list_products s = order_by_desc p_created_at (products s)"

definition license_count :: "session \<Rightarrow> uid \<Rightarrow> nat" where
  "license_count s pid = length (filter (\<lambda>l. l_product_id l = pid) (licenses s))"

definition list_products_with_counts :: "session \<Rightarrow> (product \<times> nat) list" where
  "list_products_with_counts s = map (\<lambda>p. (p, license_count s (p_id p))) (list_products s)"

section \<open>Lemmas\<close>

lemma get_product_Inr: "get_product slug s = Inr p \<Longrightarrow> p \<in> set (products s) \<and> p_slug p = slug"
  by (auto simp: get_product_def find_product_def rbind_Inr_iff dest: one_or_none_SomeD(1,2) split: option.splits)

lemma put_product_fields [table_simps]:
  "licenses (put_product p s) = licenses s" "customers (put_product p s) = customers s"
  "presets (put_product p s) = presets s" "installs (put_product p s) = installs s"
  "deliveries (put_product p s) = deliveries s" "stripe_events (put_product p s) = stripe_events s"
  "mfa_row (put_product p s) = mfa_row s" "events (put_product p s) = events s"
  "new_events (put_product p s) = new_events s" "now (put_product p s) = now s"
  "tasks (put_product p s) = tasks s" "outbox (put_product p s) = outbox s"
  by (simp_all add: put_product_def)

lemma rows_ok_products:
  assumes "rows_ok E s" and "p_id ` set (products s) \<subseteq> p_id ` set (products s')"
    and "licenses s' = licenses s" "customers s' = customers s" "presets s' = presets s"
      "installs s' = installs s" "deliveries s' = deliveries s"
  shows "rows_ok E s'"
  using assms by (auto simp: rows_ok_def placed_def)

lemma update_product_good:
  assumes "update_product E slug ns nm kp ji de s = Inr (p, s')" and "good E s"
  shows "good E s'"
proof -
  obtain p0 where g: "get_product slug s = Inr p0"
    and r: "(if product_changes p0 (edited_product p0 ns nm kp ji de) = [] then Inr (p0, s)
      else rbind (commit E (audit None (Some (p_id p0)) ''product:edited''
               (JDict [(''slug'', JStr slug), (''changes'', JDict (product_changes p0 (edited_product p0 ns nm kp ji de)))])
               None (put_product (edited_product p0 ns nm kp ji de) s)))
             (\<lambda>s'. Inr (edited_product p0 ns nm kp ji de, s'))) = Inr (p, s')"
    using assms(1) by (auto simp: update_product_def rbind_Inr_iff Let_def)
  let ?q = "edited_product p0 ns nm kp ji de"
  have "p_id ` set (products (put_product ?q s)) = p_id ` set (products s)"
    by (metis product_store.keys_put list.set_map)
  then have "rows_ok E (put_product ?q s)"
    using assms(2) by - (rule rows_ok_products[of E s], simp_all add: good_def table_simps)
  then have "commit E (audit None (Some (p_id p0)) ''product:edited'' pl None (put_product ?q s)) = Inr s''
      \<Longrightarrow> good E s''" for pl s''
    by (auto intro!: good_commit simp: table_simps)
  with r assms(2) show ?thesis by (auto simp: rbind_Inr_iff split: if_splits)
qed

lemma seal_Inr: "seal E x s = Inr (y, s') \<longleftrightarrow>
    encrypt_secret E (n_rand s) x = Inr y \<and> s' = s\<lparr>n_rand := Suc (n_rand s)\<rparr>"
  by (auto simp: seal_def rbind_Inr_iff)

lemma create_product_cases:
  assumes "create_product E slug name kp de ji wh api val s = Inr (p, s')"
  obtains k m i priv pub priv' wh' api' where "\<forall>q \<in> set (products s). p_slug q \<noteq> slug"
    "val \<longrightarrow> slug_ok slug \<and> prefix_ok kp" "ed25519_pair E (n_rand s) = (priv, pub)"
    "encrypt_secret E k (Some priv) = Inr priv'" "encrypt_secret E (Suc k) wh = Inr wh'"
    "encrypt_secret E (Suc (Suc k)) api = Inr api'"
    "p = \<lparr>p_id = i, p_slug = slug, p_name = name, p_description = opt_text de,
        p_public_key_pem = pub, p_private_key_pem = the priv', p_key_prefix = kp,
        p_stripe_webhook_secret = wh', p_stripe_api_key = api',
        p_jwt_issuer = or_default ji (slug @ ''-license-server''), p_created_at = now s\<rparr>"
    "commit E (audit None None ''product:created'' (JDict [(''slug'', JStr slug)]) None
       (s\<lparr>n_rand := m, n_uuid := Suc (n_uuid s), products := products s @ [p]\<rparr>)) = Inr s'"
proof -
  obtain f where f: "find_product slug s = Inr f" "f = None" and v: "val \<longrightarrow> slug_ok slug \<and> prefix_ok kp"
    using assms unfolding create_product_def by (auto simp: rbind_Inr_iff split: if_splits)
  have u: "\<forall>q \<in> set (products s). p_slug q \<noteq> slug" using f by (simp add: find_product_def one_or_none_None)
  obtain priv pub where kp: "ed25519_pair E (n_rand s) = (priv, pub)" by (cases "ed25519_pair E (n_rand s)")
  let ?k = "Suc (n_rand s)"
  let ?p = "\<lambda>a aa ab. \<lparr>p_id = uuid4 E (n_uuid s), p_slug = slug, p_name = name,
        p_description = opt_text de, p_public_key_pem = pub, p_private_key_pem = the a, p_key_prefix = kp,
        p_stripe_webhook_secret = aa, p_stripe_api_key = ab,
        p_jwt_issuer = or_default ji (slug @ ''-license-server''), p_created_at = now s\<rparr>"
  have "\<exists>a aa ab. encrypt_secret E ?k (Some priv) = Inr a \<and> encrypt_secret E (Suc ?k) wh = Inr aa
    \<and> encrypt_secret E (Suc (Suc ?k)) api = Inr ab \<and> p = ?p a aa ab
    \<and> commit E (audit None None ''product:created'' (JDict [(''slug'', JStr slug)]) None
       (s\<lparr>n_rand := Suc (Suc (Suc ?k)), n_uuid := Suc (n_uuid s), products := products s @ [p]\<rparr>)) = Inr s'"
    using assms f v kp
    by (auto simp: create_product_def rbind_Inr_iff seal_Inr generate_keypair_def draw_def fresh_id_def Let_def)
  then show ?thesis using that[OF u v kp] by blast
qed

lemma create_product_good:
  assumes "create_product E slug name kp de ji wh api val s = Inr (p, s')" and "good E s"
  shows "good E s'"
  using assms(1)
proof (rule create_product_cases)
  fix m
  assume c: "commit E (audit None None ''product:created'' (JDict [(''slug'', JStr slug)]) None
       (s\<lparr>n_rand := m, n_uuid := Suc (n_uuid s), products := products s @ [p]\<rparr>)) = Inr s'"
  have "rows_ok E (s\<lparr>n_rand := m, n_uuid := Suc (n_uuid s), products := products s @ [p]\<rparr>)"
    using assms(2) by - (rule rows_ok_products[of E s], auto simp: good_def)
  then show ?thesis by (intro good_commit[OF c]) (simp add: table_simps)
qed

section \<open>Deleting a product\<close>

lemma delete_product_cases:
  assumes "delete_product E slug sched s = Inr (n, s')"
  obtains p pairs s1 s3 where "get_product slug s = Inr p"
    "delete_all_in_tx E (product_licenses p s) ''service/product-cascade'' s = Inr (pairs, s1)"
    "commit E (forget_product (p_id p) (audit None None ''product:deleted'' (JDict [(''product_id'', JStr (p_id p)),
              (''slug'', JStr (p_slug p)), (''name'', JStr (p_name p)),
              (''license_count'', JInt (int n))]) (Some ''service/delete'') s1)) = Inr s3"
    "n = length (product_licenses p s)" "s' = run_deliveries E sched (map snd pairs) s3"
  using assms unfolding delete_product_def Let_def by (force simp: rbind_Inr_iff)

lemma forget_product_fields [table_simps]:
  "licenses (forget_product i s) = licenses s" "customers (forget_product i s) = customers s"
  "installs (forget_product i s) = installs s" "deliveries (forget_product i s) = deliveries s"
  "tasks (forget_product i s) = tasks s" "new_events (forget_product i s) = new_events s"
  "now (forget_product i s) = now s"
  "products (forget_product i s) = delete_where (\<lambda>p. p_id p = i) (products s)"
  "presets (forget_product i s) = delete_where (\<lambda>f. f_product_id f = Some i) (presets s)"
  by (simp_all add: forget_product_def)

lemma delete_product_good:
  assumes "delete_product E slug sched s = Inr (n, s')" and g: "good E s"
  shows "good E s'"
  using assms(1)
proof (rule delete_product_cases)
  fix p :: product and pairs s1 s3
  let ?ev = "JDict [(''product_id'', JStr (p_id p)), (''slug'', JStr (p_slug p)), (''name'', JStr (p_name p)),
              (''license_count'', JInt (int n))]"
  assume d: "delete_all_in_tx E (product_licenses p s) ''service/product-cascade'' s = Inr (pairs, s1)"
    and c: "commit E (forget_product (p_id p) (audit None None ''product:deleted'' ?ev (Some ''service/delete'') s1)) = Inr s3"
    and s': "s' = run_deliveries E sched (map snd pairs) s3"
  have r1: "rows_ok E s1" using delete_all_rows[OF d] g by (simp add: good_def)
  have "unbound s" using g by (simp add: good_def unbound_def)
  from delete_all_removed[OF d this] have l: "licenses s1 = filter (\<lambda>l. l_id l \<notin> l_id ` set (product_licenses p s)) (licenses s)"
    by (auto simp: removed_def)
  have "l_product_id l \<noteq> p_id p" if "l \<in> set (licenses s1)" for l
    using that by (auto simp: l product_licenses_def)
  then have "rows_ok E (forget_product (p_id p) s1)"
    using r1 by (fastforce simp: rows_ok_def placed_def table_simps)
  then have "rows_ok E (forget_product (p_id p) (audit None None ''product:deleted'' ?ev (Some ''service/delete'') s1))"
    by (simp add: rows_ok_def placed_def table_simps)
  from good_commit[OF c this] show ?thesis unfolding s' by (rule run_deliveries_good)
qed

lemma imprint_trail: "map trail es = map trail fs @ x \<Longrightarrow> map imprint es = map imprint fs @ map snd x"
proof -
  assume "map trail es = map trail fs @ x"
  then have "map snd (map trail es) = map snd (map trail fs @ x)" by simp
  then show ?thesis by (simp add: trail_def o_def)
qed

text \<open>
  C10: deleting a product removes, in one commit, exactly that product, its licences with
  their installs and its own presets; customers, the other products, their licences and the
  global presets stay, the audit trail only grows, and every removed licence that had a
  webhook has one notice queued, to be attempted after the response.
\<close>

theorem delete_product_cascade:
  assumes "delete_product E slug Background s = Inr (n, s')" and "good E s" and "\<And>k. uuid4 E k \<noteq> []"
  shows "\<exists>p \<in> set (products s). \<exists>ds. p_slug p = slug
    \<and> products s' = filter (\<lambda>q. p_id q \<noteq> p_id p) (products s)
    \<and> licenses s' = filter (\<lambda>l. l_product_id l \<noteq> p_id p) (licenses s)
    \<and> installs s' = filter (\<lambda>x. i_license_id x \<notin> l_id ` set (product_licenses p s)) (installs s)
    \<and> presets s' = filter (\<lambda>f. f_product_id f \<noteq> Some (p_id p)) (presets s)
    \<and> customers s' = customers s \<and> n = length (product_licenses p s)
    \<and> deliveries s' = deliveries s @ ds \<and> list_all (deletion_notice E) ds
    \<and> length ds = length (filter has_webhook (product_licenses p s)) \<and> tasks s' = tasks s @ map d_id ds
    \<and> (\<exists>evs. map imprint (events s') = map imprint (events s) @ evs)"
  using assms(1)
proof (rule delete_product_cases)
  fix p :: product and pairs s1 s3
  let ?ev = "JDict [(''product_id'', JStr (p_id p)), (''slug'', JStr (p_slug p)), (''name'', JStr (p_name p)),
              (''license_count'', JInt (int n))]"
  let ?s2 = "forget_product (p_id p) (audit None None ''product:deleted'' ?ev (Some ''service/delete'') s1)"
  assume gp: "get_product slug s = Inr p"
    and d: "delete_all_in_tx E (product_licenses p s) ''service/product-cascade'' s = Inr (pairs, s1)"
    and c: "commit E ?s2 = Inr s3"
    and n: "n = length (product_licenses p s)" and s': "s' = run_deliveries E Background (map snd pairs) s3"
  have u: "unbound s" using assms(2) by (simp add: good_def unbound_def)
  obtain ds where r: "removed E (l_id ` set (product_licenses p s)) s ds s1"
    and t: "concat (map (opt_list \<circ> snd) pairs) = map d_id ds"
    and len: "length ds = length (filter has_webhook (product_licenses p s))"
    using delete_all_removed[OF d u] by (metis list_all2_lengthD)
  have s3: "s3 = flush_events E ?s2" using c by (simp add: commit_Inr)
  have "\<forall>x \<in> set (map snd pairs). \<forall>i. x = Some i \<longrightarrow> i \<noteq> []"
    by (rule delivery_ids_nonempty[OF r t assms(3)])
  from run_deliveries_background[OF this, of E s3] t
  have s'2: "s' = s3\<lparr>tasks := tasks s3 @ map d_id ds\<rparr>" by (simp add: s' o_def)
  have inj: "l = m" if "l \<in> set (licenses s)" "m \<in> set (licenses s)" "l_id l = l_id m" for l m
    using that assms(2) by (auto simp: good_def constraints_ok_def distinct_map inj_on_def)
  have lic: "filter (\<lambda>l. l_id l \<notin> l_id ` set (product_licenses p s)) (licenses s)
      = filter (\<lambda>l. l_product_id l \<noteq> p_id p) (licenses s)"
    by (rule filter_cong[OF refl]) (use inj in \<open>auto simp: product_licenses_def\<close>)
  obtain evs where "map trail (events s1) = map trail (events s) @ evs" using r by (auto simp: removed_def)
  from imprint_trail[OF this] have e1: "map imprint (events s1) = map imprint (events s) @ map snd evs" .
  have "map imprint (events (forget_product i t)) = map imprint (events t)" for i t
    by (simp add: forget_product_def update_where_def imprint_def)
  then have "\<exists>evs. map imprint (events s') = map imprint (events s) @ evs"
    using e1 by (simp add: s'2 s3 flush_events_eq table_simps)
  with r len n get_product_Inr[OF gp] show ?thesis
    by (intro bexI[of _ p] exI[of _ ds])
      (simp_all add: removed_def other_tables_def s'2 s3 table_simps delete_where_def lic)
qed

text \<open>
  A product edit changes only the fields it names: a field left out keeps its value, an
  empty description is cleared, an empty issuer becomes the one derived from the (new) slug,
  an empty slug, name or prefix and a malformed new slug or prefix are refused; when nothing
  changes, nothing is written.
\<close>

theorem update_product_semantics:
  assumes "update_product E slug ns nm kp ji de s = Inr (q, s')" and "get_product slug s = Inr p"
  shows "p_id q = p_id p \<and> p_private_key_pem q = p_private_key_pem p \<and> p_public_key_pem q = p_public_key_pem p
    \<and> p_slug q = set_to ns (p_slug p) \<and> p_name q = set_to nm (p_name p)
    \<and> p_key_prefix q = set_to kp (p_key_prefix p)
    \<and> p_jwt_issuer q = (if ji = Set [] then p_slug q @ ''-license-server'' else set_to ji (p_jwt_issuer p))
    \<and> p_description q = (case de of Unset \<Rightarrow> p_description p | Set v \<Rightarrow> or_none v)
    \<and> (p_slug q \<noteq> p_slug p \<longrightarrow> slug_ok (p_slug q)) \<and> (p_key_prefix q \<noteq> p_key_prefix p \<longrightarrow> prefix_ok (p_key_prefix q))
    \<and> p_slug p = slug \<and> (q = p \<longrightarrow> s' = s)"
proof -
  let ?q = "edited_product p ns nm kp ji de"
  have c: "check_product_edit p ns nm kp s = Inr ()"
    and r: "(if product_changes p ?q = [] then Inr (p, s)
      else rbind (commit E (audit None (Some (p_id p)) ''product:edited''
               (JDict [(''slug'', JStr slug), (''changes'', JDict (product_changes p ?q))])
               None (put_product ?q s))) (\<lambda>s'. Inr (?q, s'))) = Inr (q, s')"
    using assms by (auto simp: update_product_def rbind_Inr_iff Let_def)
  have same: "?q = p" if "product_changes p ?q = []"
  proof (rule product.equality)
    show "p_slug ?q = p_slug p" "p_name ?q = p_name p" "p_key_prefix ?q = p_key_prefix p"
      "p_jwt_issuer ?q = p_jwt_issuer p" "p_description ?q = p_description p"
      using that unfolding product_changes_def by (auto split: if_splits)
  qed (simp_all add: edited_product_def Let_def)
  have q: "q = ?q" using r same by (auto simp: rbind_Inr_iff split: if_splits)
  have "product_changes p p = []" by (simp add: product_changes_def)
  then have nop: "q = p \<longrightarrow> s' = s" using r q by (auto split: if_splits)
  have "p_slug ?q = set_to ns (p_slug p)" "p_key_prefix ?q = set_to kp (p_key_prefix p)"
    by (simp_all add: edited_product_def Let_def)
  moreover have "set_to ns (p_slug p) \<noteq> p_slug p \<longrightarrow> slug_ok (set_to ns (p_slug p))"
    and "set_to kp (p_key_prefix p) \<noteq> p_key_prefix p \<longrightarrow> prefix_ok (set_to kp (p_key_prefix p))"
    using c by (auto simp: check_product_edit_def set_to_def rbind_Inr_iff bad_slug_def bad_prefix_def
        split: upd.splits if_splits)
  ultimately show ?thesis using nop get_product_Inr[OF assms(2)]
    unfolding q by (simp add: edited_product_def Let_def split: upd.split)
qed

text \<open>What a working key makes of a secret that is stored.\<close>

lemma sealed_secret:
  assumes "encrypt_secret E n (Some x) = Inr y" and "fernet_inverse E" and "fernet E = Some k"
  shows "is_encrypted y \<and> (\<not> is_encrypted (Some x) \<longrightarrow> decrypt_secret E y = Inr (Some x))"
proof -
  obtain z where z: "y = Some z" "encrypt_pem E n x = Inr z" using assms(1) by (auto simp: encrypt_secret_pem)
  have "is_encrypted (Some z)" using z(2) assms(3) by (auto simp: encrypt_pem_cases split: if_splits)
  moreover have "decrypt_secret E (Some z) = Inr (Some x)" if "\<not> is_encrypted (Some x)"
    using secret.unwrap_wrap[OF assms(2) that z(2)] by (simp add: decrypt_secret_bind)
  ultimately show ?thesis using z(1) by simp
qed

lemma sealed_option:
  assumes "encrypt_secret E n x = Inr y" and "fernet_inverse E" and "fernet E = Some k"
  shows "(x \<noteq> None \<longrightarrow> is_encrypted y) \<and> (\<not> is_encrypted x \<longrightarrow> decrypt_secret E y = Inr x)"
proof (cases x)
  case None
  with assms(1) show ?thesis by (simp add: encrypt_secret_def decrypt_secret_def)
next
  case (Some a)
  with sealed_secret[OF _ assms(2,3)] assms(1) show ?thesis by blast
qed

text \<open>
  C32: a product created through the API has a well-formed slug and prefix, its slug was
  free, and with a working key its private key is stored encrypted and decrypts to the
  generated one, whose public half is stored beside it. A payment secret that is given
  (webhook secret or API key) is stored encrypted too and decrypts to what was given, unless
  what was given already had the form of an encrypted one, which is stored as it is; one that
  is not given is not stored.
\<close>

theorem create_product_sealed:
  assumes "create_product E slug name kp de ji wh api True s = Inr (p, s')"
    and "fernet_inverse E" and "fernet E = Some k" and "\<not> is_encrypted (Some (fst (ed25519_pair E (n_rand s))))"
  shows "products s' = products s @ [p] \<and> p_slug p = slug \<and> p_key_prefix p = kp \<and> slug_ok slug \<and> prefix_ok kp
    \<and> (\<forall>q \<in> set (products s). p_slug q \<noteq> slug)
    \<and> is_encrypted (Some (p_private_key_pem p))
    \<and> decrypt_pem E (p_private_key_pem p) = Inr (fst (ed25519_pair E (n_rand s)))
    \<and> p_public_key_pem p = snd (ed25519_pair E (n_rand s))
    \<and> (wh \<noteq> None \<longrightarrow> is_encrypted (p_stripe_webhook_secret p))
    \<and> (api \<noteq> None \<longrightarrow> is_encrypted (p_stripe_api_key p))
    \<and> (\<not> is_encrypted wh \<longrightarrow> decrypt_secret E (p_stripe_webhook_secret p) = Inr wh)
    \<and> (\<not> is_encrypted api \<longrightarrow> decrypt_secret E (p_stripe_api_key p) = Inr api)"
  using assms(1)
proof (rule create_product_cases)
  fix m i n priv pub priv' wh' api'
  assume ew: "encrypt_secret E (Suc m) wh = Inr wh'" and ea: "encrypt_secret E (Suc (Suc m)) api = Inr api'"
  assume a: "\<forall>q \<in> set (products s). p_slug q \<noteq> slug" "True \<longrightarrow> slug_ok slug \<and> prefix_ok kp"
    and kp: "ed25519_pair E (n_rand s) = (priv, pub)" and e: "encrypt_secret E m (Some priv) = Inr priv'"
    and p: "p = \<lparr>p_id = i, p_slug = slug, p_name = name, p_description = opt_text de,
        p_public_key_pem = pub, p_private_key_pem = the priv', p_key_prefix = kp,
        p_stripe_webhook_secret = wh', p_stripe_api_key = api',
        p_jwt_issuer = or_default ji (slug @ ''-license-server''), p_created_at = now s\<rparr>"
    and c: "commit E (audit None None ''product:created'' (JDict [(''slug'', JStr slug)]) None
       (s\<lparr>n_rand := n, n_uuid := Suc (n_uuid s), products := products s @ [p]\<rparr>)) = Inr s'"
  obtain z where z: "priv' = Some z" "encrypt_pem E m priv = Inr z" using e by (auto simp: encrypt_secret_pem)
  have "decrypt_pem E z = Inr priv"
    by (rule secret.unwrap_wrap[OF assms(2) _ z(2)]) (use assms(4) kp in simp)
  moreover have "is_encrypted (Some z)"
    using z(2) assms(3,4) kp by (auto simp: encrypt_pem_cases)
  moreover have "products s' = products s @ [p]" using c by (auto simp: commit_Inr table_simps)
  ultimately have pk: "products s' = products s @ [p] \<and> p_slug p = slug \<and> p_key_prefix p = kp \<and> slug_ok slug \<and> prefix_ok kp
    \<and> (\<forall>q \<in> set (products s). p_slug q \<noteq> slug) \<and> is_encrypted (Some (p_private_key_pem p))
    \<and> decrypt_pem E (p_private_key_pem p) = Inr (fst (ed25519_pair E (n_rand s)))
    \<and> p_public_key_pem p = snd (ed25519_pair E (n_rand s))" using a kp z by (simp add: p)
  have w: "p_stripe_webhook_secret p = wh'" "p_stripe_api_key p = api'" by (simp_all add: p)
  from sealed_option[OF ew assms(2,3)] sealed_option[OF ea assms(2,3)]
  have "(wh \<noteq> None \<longrightarrow> is_encrypted wh') \<and> (\<not> is_encrypted wh \<longrightarrow> decrypt_secret E wh' = Inr wh)
    \<and> (api \<noteq> None \<longrightarrow> is_encrypted api') \<and> (\<not> is_encrypted api \<longrightarrow> decrypt_secret E api' = Inr api)" by blast
  with pk show ?thesis unfolding w by blast
qed

section \<open>Examples\<close>

theorem create_product_sealed_witness:
  "\<exists>p s'. create_product shop_env ''new'' ''New'' ''new'' None None (Some ''whsec_1'') (Some ''sk_1'') True shop = Inr (p, s')
    \<and> is_encrypted (Some (p_private_key_pem p)) \<and> decrypt_secret shop_env (p_stripe_api_key p) = Inr (Some ''sk_1'')"
proof -
  have "\<exists>r. create_product shop_env ''new'' ''New'' ''new'' None None (Some ''whsec_1'') (Some ''sk_1'') True shop = Inr r"
    by (rule is_okE) code_simp
  then obtain p s' where c: "create_product shop_env ''new'' ''New'' ''new'' None None (Some ''whsec_1'') (Some ''sk_1'') True shop
      = Inr (p, s')" by force
  have f: "fernet shop_env = Some ''k1''" by code_simp
  have i: "fernet_inverse shop_env" unfolding shop_env_def by (rule sample_fernet_inverse)
  have "\<not> is_encrypted (Some (fst (ed25519_pair shop_env (n_rand shop))))" by code_simp
  moreover have "\<not> is_encrypted (Some ''sk_1'')" by code_simp
  ultimately show ?thesis using create_product_sealed[OF c i f] c by blast
qed

theorem update_product_semantics_witness:
  "\<exists>q s'. update_product shop_env ''demo'' (Set ''demo2'') Unset Unset (Set []) (Set []) shop = Inr (q, s')
    \<and> p_jwt_issuer q = ''demo2-license-server'' \<and> p_description q = None"
proof -
  have "\<exists>r. update_product shop_env ''demo'' (Set ''demo2'') Unset Unset (Set []) (Set []) shop = Inr r"
    by (rule is_okE) code_simp
  then obtain q s' where u: "update_product shop_env ''demo'' (Set ''demo2'') Unset Unset (Set []) (Set []) shop
      = Inr (q, s')" by force
  have "\<exists>p. get_product ''demo'' shop = Inr p" by (rule is_okE) code_simp
  then obtain p where "get_product ''demo'' shop = Inr p" ..
  from update_product_semantics[OF u this] u show ?thesis by (auto simp: set_to_def)
qed

theorem delete_product_cascade_witness:
  "\<exists>n s'. delete_product shop_env ''demo'' Background shop = Inr (n, s') \<and> customers s' = customers shop
    \<and> (\<exists>p \<in> set (products shop). licenses s' = filter (\<lambda>l. l_product_id l \<noteq> p_id p) (licenses shop))"
proof -
  have "\<exists>r. delete_product shop_env ''demo'' Background shop = Inr r" by (rule is_okE) code_simp
  then obtain n s' where d: "delete_product shop_env ''demo'' Background shop = Inr (n, s')" by force
  have "license_wf shop_env sample_license" unfolding license_wf_def webhook_wf_def
    by (intro conjI impI) code_simp+
  moreover have "placed shop sample_license" "constraints_ok shop" "new_events shop = []" by code_simp+
  ultimately have "good shop_env shop"
    by (simp add: good_def rows_ok_def placed_def shop_def empty_session_def)
  from delete_product_cascade[OF d this shop_uuid] d show ?thesis by blast
qed

text \<open>
  The cascade clears the product reference of the events already written, not of the
  ones still pending: after deleting a product that has a licence without a webhook, the
  audit event of that licence's deletion refers to the product that no longer exists.
\<close>

lemma delete_product_dangling_event:
  "\<exists>s' e. delete_product shop_env ''demo'' Background
      (shop\<lparr>licenses := [sample_license\<lparr>l_webhook_url := None, l_webhook_secret := None\<rparr>]\<rparr>) = Inr (1, s')
    \<and> products s' = [] \<and> e \<in> set (events s') \<and> e_type e = ''license:deleted'' \<and> e_product_id e = Some ''p1''"
proof -
  have "case delete_product shop_env ''demo'' Background
      (shop\<lparr>licenses := [sample_license\<lparr>l_webhook_url := None, l_webhook_secret := None\<rparr>]\<rparr>) of
      Inl e \<Rightarrow> False
    | Inr r \<Rightarrow> fst r = 1 \<and> products (snd r) = [] \<and> list_ex (\<lambda>e. e_type e = ''license:deleted''
        \<and> e_product_id e = Some ''p1'') (events (snd r))" by code_simp
  then obtain r where "delete_product shop_env ''demo'' Background
      (shop\<lparr>licenses := [sample_license\<lparr>l_webhook_url := None, l_webhook_secret := None\<rparr>]\<rparr>) = Inr r"
    and r: "fst r = 1" "products (snd r) = []" "list_ex (\<lambda>e. e_type e = ''license:deleted''
        \<and> e_product_id e = Some ''p1'') (events (snd r))" by (auto dest!: right_exists)
  then show ?thesis by (cases r) (auto simp: list_ex_iff)
qed

end
