(* ===== verification/Mfa.thy ===== *)
theory Mfa
  imports Products Machine JsonRoundtrip
begin

text \<open>
  The administrator's second factor (\<^verbatim>\<open>app/services/mfa.py\<close>): enrolment, login with a one-time
  or recovery code, disabling and new recovery codes, on the single row of the table. The
  one-time password check, the random codes and the digest are parameters. The operations
  refine an abstract machine with three states, and the row keeps the shape that its
  readers expect.
\<close>

section \<open>Operations\<close>

definition is_enabled :: "session \<Rightarrow> bool" where
  "is_enabled s = (case mfa_row s of None \<Rightarrow> False | Some r \<Rightarrow> m_enabled r)"

definition hash_code :: "env \<Rightarrow> string \<Rightarrow> string" where
  "hash_code E c = sha256 E (upper c)"

fun recovery_codes :: "env \<Rightarrow> nat \<Rightarrow> session \<Rightarrow> string list \<times> session" where
  "recovery_codes E 0 s = ([], s)"
| "recovery_codes E (Suc n) s =
     (let (c, s1) = draw (token_hex E) s; (cs, s2) = recovery_codes E n s1 in (upper c # cs, s2))"

abbreviation generate_recovery_codes :: "env \<Rightarrow> session \<Rightarrow> string list \<times> session" where
  "generate_recovery_codes E \<equiv> recovery_codes E 10"

definition dump_codes :: "string list \<Rightarrow> string" where
  "dump_codes hs = dumps_default (JList (map JStr hs))"

definition load_codes :: "string option \<Rightarrow> (json list) res" where
  "load_codes x = rbind (loads (if truthy x then the x else ''[]'')) (\<lambda>j. case j of
      JList xs \<Rightarrow> Inr xs | _ \<Rightarrow> Inl (TypeError ''not a list''))"

text \<open>\<open>start_enrol\<close>: the secret, the provisioning URI and its picture.\<close>

definition start_enrol :: "env \<Rightarrow> session \<Rightarrow> ((string \<times> string \<times> string) \<times> session) res" where
  "start_enrol E s =
     (let (secret, s1) = draw (random_base32 E) s in
      rbind (seal E (Some secret) s1) (\<lambda>(enc, s2).
      let r = (case mfa_row s2 of
            None \<Rightarrow> \<lparr>m_enabled = False, m_secret_encrypted = enc, m_recovery_codes_hashed = None,
              m_created_at = now s2, m_last_used_at = None\<rparr>
          | Some r \<Rightarrow> r\<lparr>m_enabled := False, m_secret_encrypted := enc, m_recovery_codes_hashed := None\<rparr>);
          uri = provisioning_uri E secret
      in rbind (commit E (s2\<lparr>mfa_row := Some r\<rparr>)) (\<lambda>s3. Inr ((secret, uri, qr_svg E uri), s3))))"

text \<open>\<open>pyotp.TOTP(secret).verify(code, valid_window=1)\<close> on the stored secret.\<close>

definition totp_ok :: "env \<Rightarrow> string \<Rightarrow> session \<Rightarrow> string \<Rightarrow> bool res" where
  "totp_ok E stored s otp =
     rbind (decrypt_secret E (Some stored)) (\<lambda>x. Inr (totp_verify E (the x) (now s) otp))"

definition set_codes :: "env \<Rightarrow> admin_mfa \<Rightarrow> session \<Rightarrow> ((string list) option \<times> session) res" where
  "set_codes E r s =
     (let (codes, s1) = generate_recovery_codes E s
      in rbind (commit E (s1\<lparr>mfa_row := Some (r\<lparr>m_recovery_codes_hashed := Some (dump_codes (map (hash_code E) codes))\<rparr>)\<rparr>))
         (\<lambda>s2. Inr (Some codes, s2)))"

definition verify_enrol :: "env \<Rightarrow> string \<Rightarrow> session \<Rightarrow> ((string list) option \<times> session) res" where
  "verify_enrol E otp s = (case mfa_row s of
      None \<Rightarrow> Inr (None, s)
    | Some r \<Rightarrow> (case m_secret_encrypted r of
          None \<Rightarrow> Inr (None, s)
        | Some k \<Rightarrow> if m_enabled r then Inr (None, s)
            else rbind (totp_ok E k s otp) (\<lambda>ok.
              if \<not> ok then Inr (None, s) else set_codes E (r\<lparr>m_enabled := True\<rparr>) s)))"

definition verify_login :: "env \<Rightarrow> string \<Rightarrow> session \<Rightarrow> (bool \<times> session) res" where
  "verify_login E otp s = (case mfa_row s of
      None \<Rightarrow> Inr (False, s)
    | Some r \<Rightarrow> (case m_secret_encrypted r of
          None \<Rightarrow> Inr (False, s)
        | Some k \<Rightarrow> if \<not> m_enabled r then Inr (False, s)
            else rbind (totp_ok E k s otp) (\<lambda>ok.
              if ok then rbind (commit E (s\<lparr>mfa_row := Some (r\<lparr>m_last_used_at := Some (now s)\<rparr>)\<rparr>)) (\<lambda>s1. Inr (True, s1))
              else rbind (load_codes (m_recovery_codes_hashed r)) (\<lambda>stored.
                let candidate = JStr (hash_code E (upper (strip otp))) in
                if candidate \<notin> set stored then Inr (False, s)
                else rbind (commit E (s\<lparr>mfa_row := Some (r\<lparr>
                    m_recovery_codes_hashed := Some (dumps_default (JList (remove1 candidate stored))),
                    m_last_used_at := Some (now s)\<rparr>)\<rparr>)) (\<lambda>s1. Inr (True, s1))))))"

definition disable_mfa :: "env \<Rightarrow> string \<Rightarrow> session \<Rightarrow> (bool \<times> session) res" where
  "disable_mfa E otp s = rbind (verify_login E otp s) (\<lambda>(ok, s1).
     if \<not> ok then Inr (False, s1)
     else (case mfa_row s1 of
         None \<Rightarrow> Inr (False, s1)
       | Some r \<Rightarrow> rbind (commit E (s1\<lparr>mfa_row := Some (r\<lparr>m_enabled := False, m_secret_encrypted := None,
             m_recovery_codes_hashed := None\<rparr>)\<rparr>)) (\<lambda>s2. Inr (True, s2))))"

definition regen_recovery :: "env \<Rightarrow> string \<Rightarrow> session \<Rightarrow> ((string list) option \<times> session) res" where
  "regen_recovery E otp s = (case mfa_row s of
      None \<Rightarrow> Inr (None, s)
    | Some r \<Rightarrow> (case m_secret_encrypted r of
          None \<Rightarrow> Inr (None, s)
        | Some k \<Rightarrow> if \<not> m_enabled r then Inr (None, s)
            else rbind (totp_ok E k s otp) (\<lambda>ok. if \<not> ok then Inr (None, s) else set_codes E r s)))"

section \<open>The row\<close>

lemma recovery_codes_length: "length (fst (recovery_codes E n s)) = n"
  by (induction n arbitrary: s) (simp_all add: draw_def case_prod_beta Let_def)

lemma recovery_codes_frame: "\<exists>k. snd (recovery_codes E n s) = s\<lparr>n_rand := k\<rparr>"
proof (induction n arbitrary: s)
  case 0
  show ?case by (intro exI[of _ "n_rand s"]) simp
next
  case (Suc n)
  obtain k where "snd (recovery_codes E n (s\<lparr>n_rand := Suc (n_rand s)\<rparr>)) = s\<lparr>n_rand := Suc (n_rand s), n_rand := k\<rparr>"
    using Suc by blast
  then show ?case by (intro exI[of _ k]) (simp add: draw_def case_prod_beta Let_def)
qed

lemma plain_strings: "plain (JList (map JStr hs))"
  by (induction hs) simp_all

lemma load_dump_codes [simp]: "load_codes (Some (dump_codes hs)) = Inr (map JStr hs)"
proof -
  have "dump_codes hs \<noteq> []" by (simp add: dump_codes_def dumps_default_def)
  then show ?thesis
    using loads_dumps_default[OF plain_strings[of hs]] by (simp add: load_codes_def dump_codes_def)
qed

lemma remove1_JStr: "remove1 (JStr h) (map JStr hs) = map JStr (remove1 h hs)"
  by (induction hs) simp_all

text \<open>
  An enabled row has a secret and a list of at most ten digests; a row that is not enabled
  has no recovery codes.
\<close>

definition mfa_wf :: "session \<Rightarrow> bool" where
  "mfa_wf s \<longleftrightarrow> (\<forall>r. mfa_row s = Some r \<longrightarrow>
     (if m_enabled r then m_secret_encrypted r \<noteq> None
        \<and> (\<exists>hs. m_recovery_codes_hashed r = Some (dump_codes hs) \<and> length hs \<le> 10)
      else m_recovery_codes_hashed r = None))"

datatype mfa_state = Off | Pending string | On string "string list"

definition stored_codes :: "admin_mfa \<Rightarrow> string list" where
  "stored_codes r = (case load_codes (m_recovery_codes_hashed r) of
      Inr xs \<Rightarrow> concat (map (\<lambda>j. case j of JStr h \<Rightarrow> [h] | _ \<Rightarrow> []) xs) | Inl e \<Rightarrow> [])"

definition abs_mfa :: "session \<Rightarrow> mfa_state" where
  "abs_mfa s = (case mfa_row s of None \<Rightarrow> Off
    | Some r \<Rightarrow> (case m_secret_encrypted r of None \<Rightarrow> Off
        | Some k \<Rightarrow> if m_enabled r then On k (stored_codes r) else Pending k))"

text \<open>
  The calls of the service with the code that was entered and the answer that was given.
\<close>

datatype mfa_call = Enrol | Confirm string "string list option" | Login string bool
  | Disable string bool | Regen string "string list option" | Elsewhere

text \<open>
  The abstract machine: which answer a call gives in which state, and the state after it.
  \<open>code_ok k c\<close> accepts the one-time password, \<open>issued\<close> is the digest under which an issued
  recovery code is stored, \<open>entered\<close> the digest of what was typed. A call that is refused
  leaves the state alone, and is refused only when what was typed is neither. Enrolling
  anew needs no code, even when the second factor is on.
\<close>

inductive mfa_trans :: "(string \<Rightarrow> string \<Rightarrow> bool) \<Rightarrow> (string \<Rightarrow> string) \<Rightarrow> (string \<Rightarrow> string)
    \<Rightarrow> mfa_call \<Rightarrow> mfa_state \<Rightarrow> mfa_state \<Rightarrow> bool"
  for code_ok :: "string \<Rightarrow> string \<Rightarrow> bool" and issued entered :: "string \<Rightarrow> string" where
  enrol: "mfa_trans code_ok issued entered Enrol a (Pending k)"
| confirm: "code_ok k c \<Longrightarrow> length cs = 10
    \<Longrightarrow> mfa_trans code_ok issued entered (Confirm c (Some cs)) (Pending k) (On k (map issued cs))"
| confirm_refused: "\<forall>k. a = Pending k \<longrightarrow> \<not> code_ok k c
    \<Longrightarrow> mfa_trans code_ok issued entered (Confirm c None) a a"
| login: "code_ok k c \<Longrightarrow> mfa_trans code_ok issued entered (Login c True) (On k hs) (On k hs)"
| recover: "\<not> code_ok k c \<Longrightarrow> entered c \<in> set hs
    \<Longrightarrow> mfa_trans code_ok issued entered (Login c True) (On k hs) (On k (remove1 (entered c) hs))"
| login_refused: "\<forall>k hs. a = On k hs \<longrightarrow> \<not> code_ok k c \<and> entered c \<notin> set hs
    \<Longrightarrow> mfa_trans code_ok issued entered (Login c False) a a"
| off: "code_ok k c \<or> entered c \<in> set hs \<Longrightarrow> mfa_trans code_ok issued entered (Disable c True) (On k hs) Off"
| off_refused: "\<forall>k hs. a = On k hs \<longrightarrow> \<not> code_ok k c \<and> entered c \<notin> set hs
    \<Longrightarrow> mfa_trans code_ok issued entered (Disable c False) a a"
| renew: "code_ok k c \<Longrightarrow> length cs = 10
    \<Longrightarrow> mfa_trans code_ok issued entered (Regen c (Some cs)) (On k hs) (On k (map issued cs))"
| renew_refused: "\<forall>k hs. a = On k hs \<longrightarrow> \<not> code_ok k c
    \<Longrightarrow> mfa_trans code_ok issued entered (Regen c None) a a"
| elsewhere: "mfa_trans code_ok issued entered Elsewhere a a"

inductive_cases mfa_trans_DisableE: "mfa_trans ok iss ent (Disable c True) a b"
inductive_cases mfa_trans_LoginE: "mfa_trans ok iss ent (Login c True) a b"

text \<open>One call of the service that returns; everything else leaves the row alone.\<close>

inductive mfa_step :: "env \<Rightarrow> mfa_call \<Rightarrow> session \<Rightarrow> session \<Rightarrow> bool" for E :: env where
  start: "start_enrol E s = Inr (x, s') \<Longrightarrow> mfa_step E Enrol s s'"
| verify: "verify_enrol E c s = Inr (y, s') \<Longrightarrow> mfa_step E (Confirm c y) s s'"
| login: "verify_login E c s = Inr (b, s') \<Longrightarrow> mfa_step E (Login c b) s s'"
| disable: "disable_mfa E c s = Inr (b, s') \<Longrightarrow> mfa_step E (Disable c b) s s'"
| regen: "regen_recovery E c s = Inr (y, s') \<Longrightarrow> mfa_step E (Regen c y) s s'"
| other: "mfa_row s' = mfa_row s \<Longrightarrow> mfa_step E Elsewhere s s'"

section \<open>Refinement\<close>

text \<open>The one-time password test of the abstract machine, at the instant of a state.\<close>

definition otp_now :: "env \<Rightarrow> session \<Rightarrow> string \<Rightarrow> string \<Rightarrow> bool" where
  "otp_now E s k c \<longleftrightarrow> totp_ok E k s c = Inr True"

text \<open>The digest of what was typed, without blanks around it and in capitals.\<close>

definition typed_code :: "env \<Rightarrow> string \<Rightarrow> string" where
  "typed_code E c = hash_code E (upper (strip c))"

abbreviation mfa_move :: "env \<Rightarrow> session \<Rightarrow> mfa_call \<Rightarrow> mfa_state \<Rightarrow> mfa_state \<Rightarrow> bool" where
  "mfa_move E s \<equiv> mfa_trans (otp_now E s) (hash_code E) (typed_code E)"

lemma stored_codes_dump [simp]:
  "m_recovery_codes_hashed r = Some (dump_codes hs) \<Longrightarrow> stored_codes r = hs"
proof -
  have "concat (map (\<lambda>j. case j of JStr h \<Rightarrow> [h] | _ \<Rightarrow> []) (map JStr hs)) = hs" by (induction hs) simp_all
  then show "m_recovery_codes_hashed r = Some (dump_codes hs) \<Longrightarrow> stored_codes r = hs"
    by (simp add: stored_codes_def)
qed

lemma dump_codes_remove1: "dumps_default (JList (remove1 (JStr h) (map JStr hs))) = dump_codes (remove1 h hs)"
  by (simp add: dump_codes_def remove1_JStr)

lemma abs_mfa_On: "abs_mfa s = On k hs \<Longrightarrow> \<exists>r. mfa_row s = Some r \<and> m_secret_encrypted r = Some k
    \<and> m_enabled r \<and> hs = stored_codes r"
  by (auto simp: abs_mfa_def split: option.splits if_splits)

lemma commit_mfa: "commit E (s\<lparr>mfa_row := m\<rparr>) = Inr s' \<Longrightarrow> mfa_row s' = m"
  by (auto simp: commit_Inr table_simps)

lemma set_codes_Inr:
  assumes "set_codes E r s = Inr (y, s')"
  shows "\<exists>cs. y = Some cs \<and> length cs = 10
    \<and> mfa_row s' = Some (r\<lparr>m_recovery_codes_hashed := Some (dump_codes (map (hash_code E) cs))\<rparr>)"
proof -
  obtain cs s1 where r: "recovery_codes E 10 s = (cs, s1)" by (cases "recovery_codes E 10 s")
  with assms have "y = Some cs" "commit E (s1\<lparr>mfa_row := Some (r\<lparr>m_recovery_codes_hashed :=
      Some (dump_codes (map (hash_code E) cs))\<rparr>)\<rparr>) = Inr s'"
    by (auto simp: set_codes_def rbind_Inr_iff)
  with recovery_codes_length[of E 10 s] commit_mfa show ?thesis unfolding r by simp
qed

lemma verify_login_cases:
  assumes "verify_login E otp s = Inr (b, s')" and "mfa_wf s"
  obtains (refused) "\<not> b" "s' = s"
      "\<forall>k hs. abs_mfa s = On k hs \<longrightarrow> \<not> otp_now E s k otp \<and> typed_code E otp \<notin> set hs"
  | (accepted) r k hs where "b" "mfa_row s = Some r" "m_secret_encrypted r = Some k" "m_enabled r"
      "m_recovery_codes_hashed r = Some (dump_codes hs)" "length hs \<le> 10" "totp_ok E k s otp = Inr True"
      "mfa_row s' = Some (r\<lparr>m_last_used_at := Some (now s)\<rparr>)"
  | (recovered) r k hs h where "b" "mfa_row s = Some r" "m_secret_encrypted r = Some k" "m_enabled r"
      "m_recovery_codes_hashed r = Some (dump_codes hs)" "length hs \<le> 10" "totp_ok E k s otp = Inr False"
      "h = hash_code E (upper (strip otp))" "h \<in> set hs"
      "mfa_row s' = Some (r\<lparr>m_recovery_codes_hashed := Some (dump_codes (remove1 h hs)), m_last_used_at := Some (now s)\<rparr>)"
proof (cases "\<exists>r k. mfa_row s = Some r \<and> m_secret_encrypted r = Some k \<and> m_enabled r")
  case False
  with assms(1) have "\<not> b \<and> s' = s" by (auto simp: verify_login_def split: option.splits if_splits)
  moreover have "abs_mfa s \<noteq> On k hs" for k hs using False abs_mfa_On by blast
  ultimately show ?thesis using refused by blast
next
  case True
  then obtain r k where r: "mfa_row s = Some r" "m_secret_encrypted r = Some k" "m_enabled r" by blast
  then obtain hs where hs: "m_recovery_codes_hashed r = Some (dump_codes hs)" "length hs \<le> 10"
    using assms(2) by (auto simp: mfa_wf_def)
  let ?h = "hash_code E (upper (strip otp))"
  obtain ok where ok: "totp_ok E k s otp = Inr ok"
    using assms(1) r by (auto simp: verify_login_def rbind_Inr_iff)
  show ?thesis
  proof (cases ok)
    case True
    then have "b" and c: "commit E (s\<lparr>mfa_row := Some (r\<lparr>m_last_used_at := Some (now s)\<rparr>)\<rparr>) = Inr s'"
      using assms(1) r ok by (auto simp: verify_login_def rbind_Inr_iff)
    with r hs ok True commit_mfa[OF c] show ?thesis by (intro accepted) auto
  next
    case False
    show ?thesis
    proof (cases "?h \<in> set hs")
      case True
      then have "b" and c: "commit E (s\<lparr>mfa_row := Some (r\<lparr>m_recovery_codes_hashed := Some (dump_codes (remove1 ?h hs)),
          m_last_used_at := Some (now s)\<rparr>)\<rparr>) = Inr s'"
        using assms(1) r ok hs \<open>\<not> ok\<close> by (auto simp: verify_login_def rbind_Inr_iff dump_codes_remove1 Let_def)
      with r hs ok \<open>\<not> ok\<close> True commit_mfa[OF c] show ?thesis by (intro recovered) auto
    next
      case False
      have "\<not> b \<and> s' = s"
        using False assms(1) r ok hs \<open>\<not> ok\<close> by (auto simp: verify_login_def rbind_Inr_iff Let_def image_iff)
      moreover have "abs_mfa s = On k hs" using r hs by (simp add: abs_mfa_def)
      ultimately show ?thesis
        using refused False ok \<open>\<not> ok\<close> by (auto simp: otp_now_def typed_code_def)
    qed
  qed
qed

lemma set_codes_refines:
  assumes "set_codes E r s = Inr (y, s')" and "m_secret_encrypted r = Some k" and "m_enabled r"
  shows "mfa_wf s' \<and> (\<exists>cs. y = Some cs \<and> length cs = 10 \<and> abs_mfa s' = On k (map (hash_code E) cs))"
proof -
  obtain cs where "y = Some cs" "length cs = 10"
    and m: "mfa_row s' = Some (r\<lparr>m_recovery_codes_hashed := Some (dump_codes (map (hash_code E) cs))\<rparr>)"
    using set_codes_Inr[OF assms(1)] by blast
  then show ?thesis using assms(2,3) by (auto simp: mfa_wf_def abs_mfa_def)
qed

lemma login_refines:
  assumes "verify_login E otp s = Inr (b, s')" and "mfa_wf s"
  shows "mfa_wf s' \<and> mfa_move E s (Login otp b) (abs_mfa s) (abs_mfa s') \<and> (b \<longrightarrow> mfa_row s' \<noteq> None)"
  using assms
proof (cases rule: verify_login_cases)
  case refused
  then have "mfa_move E s (Login otp False) (abs_mfa s) (abs_mfa s)" by (blast intro: mfa_trans.login_refused)
  with refused assms(2) show ?thesis by simp
next
  case (accepted r k hs)
  then have "abs_mfa s = On k hs" "abs_mfa s' = On k hs" "otp_now E s k otp"
    by (simp_all add: abs_mfa_def otp_now_def)
  with accepted show ?thesis by (auto simp: mfa_wf_def intro: mfa_trans.login)
next
  case (recovered r k hs h)
  then have a: "abs_mfa s = On k hs" "abs_mfa s' = On k (remove1 h hs)" "\<not> otp_now E s k otp"
    by (simp_all add: abs_mfa_def otp_now_def)
  have "length (remove1 h hs) \<le> 10" using recovered(6) by (metis diff_le_self le_trans length_remove1)
  with recovered have "mfa_wf s'" by (auto simp: mfa_wf_def)
  moreover have "mfa_move E s (Login otp True) (On k hs) (On k (remove1 (typed_code E otp) hs))"
    using a(3) recovered(8,9) by (intro mfa_trans.recover) (simp_all add: typed_code_def)
  ultimately show ?thesis using a recovered(1,8,10) by (simp add: typed_code_def)
qed

lemma disable_refines:
  assumes "disable_mfa E c s = Inr (b, s')" and "mfa_wf s"
  shows "mfa_wf s' \<and> mfa_move E s (Disable c b) (abs_mfa s) (abs_mfa s')"
proof -
  obtain ok s1 where l: "verify_login E c s = Inr (ok, s1)" using assms(1) by (auto simp: disable_mfa_def rbind_Inr_iff)
  note lr = login_refines[OF l assms(2)]
  from l assms(2) show ?thesis
  proof (cases rule: verify_login_cases)
    case refused
    then have "\<not> b" "s' = s" using assms(1) l by (auto simp: disable_mfa_def)
    with refused(3) assms(2) show ?thesis by (auto intro: mfa_trans.off_refused)
  next
    case (accepted r k hs)
    then have "b" "mfa_row s' = Some (r\<lparr>m_last_used_at := Some (now s), m_enabled := False, m_secret_encrypted := None, m_recovery_codes_hashed := None\<rparr>)"
      using assms(1) l by (auto simp: disable_mfa_def rbind_Inr_iff dest!: commit_mfa)
    moreover have "abs_mfa s = On k hs" "otp_now E s k c" using accepted by (simp_all add: abs_mfa_def otp_now_def)
    ultimately show ?thesis by (auto simp: mfa_wf_def abs_mfa_def[of s'] intro: mfa_trans.off)
  next
    case (recovered r k hs h)
    then have "b" "abs_mfa s' = Off" "mfa_wf s'"
      using assms(1) l by (auto simp: disable_mfa_def rbind_Inr_iff abs_mfa_def mfa_wf_def dest!: commit_mfa)
    moreover have "abs_mfa s = On k hs" "typed_code E c \<in> set hs"
      using recovered by (simp_all add: abs_mfa_def typed_code_def)
    ultimately show ?thesis by (auto intro: mfa_trans.off)
  qed
qed

lemma confirm_refines:
  assumes "verify_enrol E c s = Inr (y, s')" and "mfa_wf s"
  shows "mfa_wf s' \<and> mfa_move E s (Confirm c y) (abs_mfa s) (abs_mfa s')"
proof -
  consider "y = None" "s' = s" "\<forall>k. abs_mfa s = Pending k \<longrightarrow> \<not> otp_now E s k c"
    | r k where "mfa_row s = Some r" "m_secret_encrypted r = Some k" "\<not> m_enabled r"
      "totp_ok E k s c = Inr True" "set_codes E (r\<lparr>m_enabled := True\<rparr>) s = Inr (y, s')"
    using assms(1) by (auto simp: verify_enrol_def rbind_Inr_iff abs_mfa_def otp_now_def split: option.splits if_splits)
  then show ?thesis
  proof cases
    case 1
    with assms(2) show ?thesis by (auto intro: mfa_trans.confirm_refused)
  next
    case 2
    obtain cs where "mfa_wf s'" "y = Some cs" "length cs = 10" "abs_mfa s' = On k (map (hash_code E) cs)"
      using set_codes_refines[OF 2(5)] 2(2) by auto
    moreover have "abs_mfa s = Pending k" "otp_now E s k c" using 2 by (simp_all add: abs_mfa_def otp_now_def)
    ultimately show ?thesis by (auto intro: mfa_trans.confirm)
  qed
qed

lemma regen_refines:
  assumes "regen_recovery E c s = Inr (y, s')" and "mfa_wf s"
  shows "mfa_wf s' \<and> mfa_move E s (Regen c y) (abs_mfa s) (abs_mfa s')"
proof -
  consider "y = None" "s' = s" "\<forall>k hs. abs_mfa s = On k hs \<longrightarrow> \<not> otp_now E s k c"
    | r k where "mfa_row s = Some r" "m_secret_encrypted r = Some k" "m_enabled r"
      "totp_ok E k s c = Inr True" "set_codes E r s = Inr (y, s')"
    using assms(1) by (auto simp: regen_recovery_def rbind_Inr_iff abs_mfa_def otp_now_def split: option.splits if_splits)
  then show ?thesis
  proof cases
    case 1
    with assms(2) show ?thesis by (auto intro: mfa_trans.renew_refused)
  next
    case 2
    obtain cs where "mfa_wf s'" "y = Some cs" "length cs = 10" "abs_mfa s' = On k (map (hash_code E) cs)"
      using set_codes_refines[OF 2(5) 2(2,3)] by blast
    moreover have "abs_mfa s = On k (stored_codes r)" "otp_now E s k c" using 2 by (simp_all add: abs_mfa_def otp_now_def)
    ultimately show ?thesis by (auto intro: mfa_trans.renew)
  qed
qed

lemma mfa_step_refines:
  assumes "mfa_step E a s s'" and "mfa_wf s"
  shows "mfa_wf s' \<and> mfa_move E s a (abs_mfa s) (abs_mfa s')"
  using assms(1)
proof cases
  case (start x)
  then obtain enc r where "mfa_row s' = Some r" "\<not> m_enabled r" "m_secret_encrypted r = Some enc"
      "m_recovery_codes_hashed r = None"
    by (cases "mfa_row s")
      (auto simp: start_enrol_def draw_def rbind_Inr_iff seal_Inr encrypt_secret_def Let_def
        dest!: commit_mfa split: if_splits option.splits)
  with start show ?thesis by (auto simp: mfa_wf_def abs_mfa_def intro: mfa_trans.enrol)
next
  case (login c b)
  with login_refines[OF _ assms(2)] show ?thesis by blast
next
  case other
  then show ?thesis using assms(2) by (auto simp: mfa_wf_def abs_mfa_def intro: mfa_trans.elsewhere)
qed (use assms(2) confirm_refines disable_refines regen_refines in blast)+

text \<open>Some call of the service, or a step elsewhere.\<close>

definition mfa_next :: "env \<Rightarrow> session \<Rightarrow> session \<Rightarrow> bool" where
  "mfa_next E s s' \<longleftrightarrow> (\<exists>a. mfa_step E a s s')"

interpretation mfa: machine "\<lambda>s. mfa_row s = None" "mfa_next E" mfa_wf for E
  by unfold_locales (auto simp: mfa_wf_def mfa_next_def dest: mfa_step_refines)

text \<open>
  C16: the service refines the abstract machine. Whatever sequence of its calls, and of
  operations that leave the row alone, leads from a database without a second factor to a
  state, the row there is well formed (enabled only with a secret and with at most ten
  recovery codes), and the next call that returns is the move of the machine for what was
  typed and what was answered: it is confirmed only by a one-time password, a login succeeds
  exactly on a one-time password or on a stored recovery code, which is then removed, it is
  turned off exactly on one of these (or by enrolling anew, which asks for none), new
  recovery codes are handed out only on a one-time password and stored as digests, and a
  refused call changes nothing.
\<close>

theorem mfa_refinement:
  assumes "mfa_row s0 = None" and "(mfa_next E)\<^sup>*\<^sup>* s0 s" and "mfa_step E a s s'"
  shows "mfa_wf s \<and> mfa_wf s' \<and> mfa_trans (otp_now E s) (hash_code E) (typed_code E) a (abs_mfa s) (abs_mfa s')"
  using mfa.inv_reachable[OF assms(1,2)] mfa_step_refines[OF assms(3)] by blast

text \<open>
  A login succeeds only while the second factor is on, with a valid one-time password
  or a stored recovery code; a refused login changes nothing; and a recovery code that let
  someone in is spent: with no valid one-time password at the later instant, the same code
  is refused for as long as the row stays as the first login left it.
\<close>

theorem recovery_code_spent:
  assumes "verify_login E otp s = Inr (b, s')" and "mfa_wf s"
    and "\<forall>k hs. abs_mfa s = On k hs \<longrightarrow> distinct hs"
  shows "(\<not> b \<longrightarrow> s' = s) \<and> (b \<longrightarrow> (\<exists>k hs. abs_mfa s = On k hs
    \<and> (otp_now E s k otp
       \<or> (hash_code E (upper (strip otp)) \<in> set hs \<and> abs_mfa s' = On k (remove1 (hash_code E (upper (strip otp))) hs)
          \<and> (\<forall>t. mfa_row t = mfa_row s' \<and> totp_ok E k t otp = Inr False
               \<longrightarrow> verify_login E otp t = Inr (False, t))))))"
  using assms(1,2)
proof (cases rule: verify_login_cases)
  case refused
  then show ?thesis by simp
next
  case (accepted r k hs)
  then have "abs_mfa s = On k hs" by (simp add: abs_mfa_def)
  with accepted show ?thesis by (auto simp: otp_now_def)
next
  case (recovered r k hs h)
  then have a: "abs_mfa s = On k hs" "abs_mfa s' = On k (remove1 h hs)" by (simp_all add: abs_mfa_def)
  then have "h \<notin> set (remove1 h hs)" using assms(3) by simp
  then have "verify_login E otp t = Inr (False, t)"
    if "mfa_row t = mfa_row s'" "totp_ok E k t otp = Inr False" for t
    using recovered that by (auto simp: verify_login_def Let_def image_iff)
  with a recovered show ?thesis by auto
qed

definition mfa_on :: session where
  "mfa_on = shop\<lparr>mfa_row := Some \<lparr>m_enabled = True, m_secret_encrypted = Some ''B32'',
     m_recovery_codes_hashed = Some (dump_codes [''sha:AB12'', ''sha:CD34'']), m_created_at = 0, m_last_used_at = None\<rparr>\<rparr>"

lemma mfa_on_wf: "mfa_wf mfa_on \<and> abs_mfa mfa_on = On ''B32'' [''sha:AB12'', ''sha:CD34'']"
  by (auto simp: mfa_wf_def abs_mfa_def mfa_on_def)

text \<open>Enrolled and confirmed, then turned off.\<close>

theorem mfa_refinement_witness:
  "\<exists>s1 s2 s'. mfa_next shop_env shop s1 \<and> verify_enrol shop_env ''123456'' s1 = Inr (Some (fst (generate_recovery_codes shop_env s1)), s2)
    \<and> disable_mfa shop_env ''123456'' s2 = Inr (True, s') \<and> abs_mfa s2 \<noteq> Off \<and> abs_mfa s' = Off"
proof -
  have "case start_enrol shop_env shop of Inl e \<Rightarrow> False | Inr (x, s1) \<Rightarrow>
      (case verify_enrol shop_env ''123456'' s1 of Inl e \<Rightarrow> False | Inr (y, s2) \<Rightarrow>
        y = Some (fst (generate_recovery_codes shop_env s1)) \<and> abs_mfa s2 \<noteq> Off
        \<and> (case disable_mfa shop_env ''123456'' s2 of Inl e \<Rightarrow> False | Inr (b, s') \<Rightarrow> b))"
    by code_simp
  then obtain x s1 s2 s' where e: "start_enrol shop_env shop = Inr (x, s1)"
    and c: "verify_enrol shop_env ''123456'' s1 = Inr (Some (fst (generate_recovery_codes shop_env s1)), s2)"
    and d: "disable_mfa shop_env ''123456'' s2 = Inr (True, s')" and n: "abs_mfa s2 \<noteq> Off"
    by (auto dest!: right_exists)
  have one: "mfa_next shop_env shop s1" using mfa_step.start[OF e] by (auto simp: mfa_next_def)
  have "mfa_next shop_env s1 s2" using mfa_step.verify[OF c] by (auto simp: mfa_next_def)
  with one have r: "(mfa_next shop_env)\<^sup>*\<^sup>* shop s2" by auto
  have "mfa_row shop = None" by code_simp
  from mfa_refinement[OF this r mfa_step.disable[OF d]]
  have "abs_mfa s' = Off" by (auto elim: mfa_trans_DisableE)
  with one c d n show ?thesis by blast
qed

theorem recovery_code_spent_witness:
  "\<exists>s'. verify_login shop_env '' ab12 '' mfa_on = Inr (True, s')
    \<and> verify_login shop_env '' ab12 '' s' = Inr (False, s')"
proof -
  have "case verify_login shop_env '' ab12 '' mfa_on of Inl e \<Rightarrow> False
    | Inr r \<Rightarrow> fst r \<and> totp_ok shop_env ''B32'' (snd r) '' ab12 '' = Inr False" by code_simp
  then obtain s' where v: "verify_login shop_env '' ab12 '' mfa_on = Inr (True, s')"
    and f: "totp_ok shop_env ''B32'' s' '' ab12 '' = Inr False" by (auto dest!: right_exists)
  have "\<not> otp_now shop_env mfa_on ''B32'' '' ab12 ''" by code_simp
  with recovery_code_spent[OF v] mfa_on_wf v f show ?thesis by auto
qed

end
