(* ===== verification/Auth.thy ===== *)
theory Auth
  imports Http Mfa
begin

text \<open>
  Login, logout and the second factor's pages (\<^verbatim>\<open>app/routers/admin_ui/auth.py\<close>,
  \<^verbatim>\<open>app/routers/admin_ui/mfa.py\<close>). A handler takes the request and the state and yields a
  response and the new state, or the exception that the application turns into one.
\<close>

section \<open>Login\<close>

definition root_page :: response where
  "root_page = redirect ''/admin''"

definition login_form :: "string option \<Rightarrow> response" where
  "login_form error = show_page (LoginPage error)"

text \<open>\<open>secrets.compare_digest\<close> on two strings, which must be ASCII.\<close>

definition compare_digest :: "string \<Rightarrow> string \<Rightarrow> bool res" where
  "compare_digest a b = (if list_all is_ascii a \<and> list_all is_ascii b then Inr (a = b)
     else Inl (TypeError ''comparing strings with non-ASCII characters is not supported''))"

definition ticket :: "datetime \<Rightarrow> json" where
  "ticket t = JDict [(''ok'', JBool True), (''iat'', JInt (timestamp t))]"

definition session_response :: "env \<Rightarrow> datetime \<Rightarrow> response res" where
  "session_response E t = rbind (serializer_key E) (\<lambda>k.
     Inr ((redirect ''/admin'')\<lparr>rs_cookies :=
       [(SESSION_COOKIE, Some (cookie_dump E k session_salt (ticket t), SESSION_MAX_AGE_SECONDS))]\<rparr>))"

definition pre_mfa_response :: "env \<Rightarrow> datetime \<Rightarrow> response res" where
  "pre_mfa_response E t = rbind (serializer_key E) (\<lambda>k.
     Inr ((redirect ''/admin/login/mfa'')\<lparr>rs_cookies :=
       [(PRE_MFA_COOKIE, Some (cookie_dump E k pre_mfa_salt (ticket t), PRE_MFA_MAX_AGE_SECONDS))]\<rparr>))"

definition login :: "env \<Rightarrow> string \<Rightarrow> session \<Rightarrow> response res" where
  "login E token s =
    (if admin_token (cfg E) = [] then Inl (HTTPException 503 ''ADMIN_TOKEN not set'')
     else rbind (compare_digest token (admin_token (cfg E))) (\<lambda>ok.
       if \<not> ok then Inr (redirect ''/admin/login?error=invalid'')
       else if is_enabled s then pre_mfa_response E (now s)
       else session_response E (now s)))"

definition login_mfa_form :: "env \<Rightarrow> request \<Rightarrow> string option \<Rightarrow> session \<Rightarrow> response res" where
  "login_mfa_form E req error s = rbind (pre_mfa_valid E (now s) req) (\<lambda>ok.
     Inr (if \<not> ok then redirect ''/admin/login'' else show_page (LoginMfaPage error)))"

definition login_mfa :: "env \<Rightarrow> request \<Rightarrow> string \<Rightarrow> session \<Rightarrow> (response \<times> session) res" where
  "login_mfa E req otp s = rbind (pre_mfa_valid E (now s) req) (\<lambda>pre.
     if \<not> pre then Inr (redirect ''/admin/login'', s)
     else rbind (verify_login E otp s) (\<lambda>(ok, s1).
       if \<not> ok then Inr (redirect ''/admin/login/mfa?error=invalid'', s1)
       else rbind (session_response E (now s1)) (\<lambda>r.
         Inr (r\<lparr>rs_cookies := rs_cookies r @ [(PRE_MFA_COOKIE, None)]\<rparr>, s1))))"

definition logout :: "env \<Rightarrow> request \<Rightarrow> string \<Rightarrow> response res" where
  "logout E req csrf = rbind (require_csrf E req (Some csrf)) (\<lambda>_.
     Inr ((redirect ''/admin/login'')\<lparr>rs_cookies := [(SESSION_COOKIE, None), (PRE_MFA_COOKIE, None)]\<rparr>))"

section \<open>The second factor's pages\<close>

definition mfa_page :: "env \<Rightarrow> request \<Rightarrow> session \<Rightarrow> response res" where
  "mfa_page E req s = rbind (require_login E (now s) req) (\<lambda>_. Inr (show_page (MfaPage (is_enabled s))))"

definition invalid_code :: response where
  "invalid_code = respond 400 (JsonBody (JDict [(''error'', JStr ''invalid code'')]))"

definition codes_response :: "(string list) option \<Rightarrow> response" where
  "codes_response x = (case x of None \<Rightarrow> invalid_code
     | Some cs \<Rightarrow> json_response (JDict [(''recovery_codes'', JList (map JStr cs))]))"

definition mfa_enroll :: "env \<Rightarrow> request \<Rightarrow> string \<Rightarrow> session \<Rightarrow> (response \<times> session) res" where
  "mfa_enroll E req csrf s = rbind (form_guard E (now s) req csrf) (\<lambda>_.
     rbind (start_enrol E s) (\<lambda>((secret, uri, svg), s1).
     Inr (json_response (JDict [(''secret'', JStr secret), (''provisioning_uri'', JStr uri), (''qr_svg'', JStr svg)]), s1)))"

definition mfa_verify_enroll :: "env \<Rightarrow> request \<Rightarrow> string \<Rightarrow> string \<Rightarrow> session \<Rightarrow> (response \<times> session) res" where
  "mfa_verify_enroll E req otp csrf s = rbind (form_guard E (now s) req csrf) (\<lambda>_.
     rbind (verify_enrol E otp s) (\<lambda>(codes, s1). Inr (codes_response codes, s1)))"

definition mfa_disable :: "env \<Rightarrow> request \<Rightarrow> string \<Rightarrow> string \<Rightarrow> session \<Rightarrow> (response \<times> session) res" where
  "mfa_disable E req otp csrf s = rbind (form_guard E (now s) req csrf) (\<lambda>_.
     rbind (disable_mfa E otp s) (\<lambda>(ok, s1).
     Inr (if \<not> ok then invalid_code else json_response (JDict [(''ok'', JBool True)]), s1)))"

definition mfa_regen_recovery :: "env \<Rightarrow> request \<Rightarrow> string \<Rightarrow> string \<Rightarrow> session \<Rightarrow> (response \<times> session) res" where
  "mfa_regen_recovery E req otp csrf s = rbind (form_guard E (now s) req csrf) (\<lambda>_.
     rbind (regen_recovery E otp s) (\<lambda>(codes, s1). Inr (codes_response codes, s1)))"

section \<open>What a login grants\<close>

text \<open>The cookie signer reads back what it signed, and not under another salt.\<close>

definition cookie_inverse :: "env \<Rightarrow> bool" where
  "cookie_inverse E \<longleftrightarrow> (\<forall>k salt t. cookie_load E k salt (cookie_dump E k salt (ticket t)) = Some (ticket t))
     \<and> (\<forall>k a b j. a \<noteq> b \<longrightarrow> cookie_load E k b (cookie_dump E k a j) = None)"

definition grants_session :: "response \<Rightarrow> bool" where
  "grants_session r \<longleftrightarrow> (\<exists>v. map_of (rs_cookies r) SESSION_COOKIE = Some (Some v))"

lemma session_response_Inr: "session_response E t = Inr r \<longleftrightarrow> session_secret (cfg E) \<noteq> [] \<and>
    r = (redirect ''/admin'')\<lparr>rs_cookies := [(SESSION_COOKIE,
      Some (cookie_dump E (session_secret (cfg E)) session_salt (ticket t), SESSION_MAX_AGE_SECONDS))]\<rparr>"
  by (auto simp: session_response_def serializer_key_def Let_def)

lemma pre_mfa_response_Inr: "pre_mfa_response E t = Inr r \<longleftrightarrow> session_secret (cfg E) \<noteq> [] \<and>
    r = (redirect ''/admin/login/mfa'')\<lparr>rs_cookies := [(PRE_MFA_COOKIE,
      Some (cookie_dump E (session_secret (cfg E)) pre_mfa_salt (ticket t), PRE_MFA_MAX_AGE_SECONDS))]\<rparr>"
  by (auto simp: pre_mfa_response_def serializer_key_def Let_def)

lemma issued_at_ticket [simp]: "issued_at (ticket t) = Some (timestamp t)"
  by (simp add: issued_at_def ticket_def)

lemma plain_ticket [simp]: "plain (ticket t)"
  by (simp add: ticket_def)

lemma cookie_names [simp]: "SESSION_COOKIE \<noteq> PRE_MFA_COOKIE" "PRE_MFA_COOKIE \<noteq> SESSION_COOKIE"
  by (simp_all add: SESSION_COOKIE_def PRE_MFA_COOKIE_def)

lemma login_grants:
  assumes "login E token s = Inr r" and "grants_session r"
  shows "admin_token (cfg E) \<noteq> [] \<and> token = admin_token (cfg E) \<and> \<not> is_enabled s \<and> session_response E (now s) = Inr r"
  using assms
  by (auto simp: login_def compare_digest_def rbind_Inr_iff pre_mfa_response_Inr grants_session_def redirect_def
      split: if_splits)

lemma login_mfa_grants:
  assumes "login_mfa E req otp s = Inr (r, s')" and "grants_session r"
  shows "pre_mfa_valid E (now s) req = Inr True \<and> verify_login E otp s = Inr (True, s')
    \<and> session_secret (cfg E) \<noteq> []
    \<and> map_of (rs_cookies r) SESSION_COOKIE = Some (Some (cookie_dump E (session_secret (cfg E)) session_salt (ticket (now s')),
        SESSION_MAX_AGE_SECONDS))"
  using assms
  by (auto simp: login_mfa_def rbind_Inr_iff session_response_Inr grants_session_def redirect_def split: if_splits)

lemma verify_login_now:
  assumes "verify_login E otp s = Inr (b, s')"
  shows "now s' = now s"
  using assms
  by (auto simp: verify_login_def rbind_Inr_iff commit_Inr table_simps Let_def split: option.splits if_splits)

lemma fresh_cookie_logged_in:
  assumes "cookie_inverse E" and "session_secret (cfg E) \<noteq> []" and "t \<le> t'"
    and "map_of (q_cookies req) SESSION_COOKIE = Some (cookie_dump E (session_secret (cfg E)) session_salt (ticket t))"
    and "cookie_dump E (session_secret (cfg E)) session_salt (ticket t) \<noteq> []"
  shows "logged_in E t' req = Inr (timestamp t' - timestamp t \<le> SESSION_MAX_AGE_SECONDS)"
  using assms by (simp add: logged_in_def cookie_age_def serializer_key_def cookie_inverse_def Let_def not_less)

lemma pre_mfa_True: "pre_mfa_valid E t req = Inr True \<longleftrightarrow> session_secret (cfg E) \<noteq> []
    \<and> (\<exists>raw j iat. map_of (q_cookies req) PRE_MFA_COOKIE = Some raw \<and> raw \<noteq> []
       \<and> cookie_load E (session_secret (cfg E)) pre_mfa_salt raw = Some j \<and> issued_at j = Some iat
       \<and> timestamp t - iat \<le> 300)"
  by (auto simp: pre_mfa_valid_def cookie_age_def serializer_key_def rbind_Inr_iff truthy_iff Let_def
      PRE_MFA_MAX_AGE_SECONDS_def split: option.splits if_splits)

text \<open>What the second factor accepted: a one-time password, or a recovery code that is now gone.\<close>

lemma verify_login_accepts:
  assumes "verify_login E otp s = Inr (True, s')"
  shows "\<exists>r k x. mfa_row s = Some r \<and> m_enabled r \<and> m_secret_encrypted r = Some k \<and> decrypt_secret E (Some k) = Inr x
    \<and> (totp_verify E (the x) (now s) otp
       \<or> (\<exists>cs. load_codes (m_recovery_codes_hashed r) = Inr cs \<and> JStr (hash_code E (upper (strip otp))) \<in> set cs
           \<and> map_option m_recovery_codes_hashed (mfa_row s')
              = Some (Some (dumps_default (JList (remove1 (JStr (hash_code E (upper (strip otp)))) cs))))))"
  using assms
  by (auto simp: verify_login_def totp_ok_def rbind_Inr_iff Let_def dest!: commit_mfa split: option.splits if_splits)

text \<open>
  C6: a session is granted only to someone who presented the administrator's token, and
  once the second factor is on never by the token alone: the login then sets only the
  pre-login cookie, which is no session and which grants none on the second page more than
  three hundred seconds later. The session comes from the second page only, to a request with
  a pre-login cookie signed by the application at most three hundred seconds before, and
  with the one-time password of the enrolled secret or a stored recovery code, which is then
  removed.
\<close>

theorem login_two_factors:
  assumes "cookie_inverse E" and "is_enabled s"
  shows "(\<forall>token r. login E token s = Inr r \<longrightarrow> \<not> grants_session r \<and>
      (\<forall>v n. map_of (rs_cookies r) PRE_MFA_COOKIE = Some (Some (v, n)) \<longrightarrow> token = admin_token (cfg E)
         \<and> (\<forall>t req. map_of (q_cookies req) SESSION_COOKIE = Some v \<longrightarrow> logged_in E t req \<noteq> Inr True)
         \<and> (\<forall>req otp u r' u'. map_of (q_cookies req) PRE_MFA_COOKIE = Some v \<and> login_mfa E req otp u = Inr (r', u')
              \<and> grants_session r' \<longrightarrow> timestamp (now u) \<le> timestamp (now s) + 300)))
    \<and> (\<forall>req otp r s'. login_mfa E req otp s = Inr (r, s') \<and> grants_session r \<longrightarrow>
         (\<exists>raw j iat. map_of (q_cookies req) PRE_MFA_COOKIE = Some raw
            \<and> cookie_load E (session_secret (cfg E)) pre_mfa_salt raw = Some j \<and> issued_at j = Some iat
            \<and> timestamp (now s) - iat \<le> 300)
       \<and> (\<exists>row k x. mfa_row s = Some row \<and> m_secret_encrypted row = Some k \<and> decrypt_secret E (Some k) = Inr x
            \<and> (totp_verify E (the x) (now s) otp
               \<or> (\<exists>cs. load_codes (m_recovery_codes_hashed row) = Inr cs \<and> JStr (hash_code E (upper (strip otp))) \<in> set cs
                   \<and> map_option m_recovery_codes_hashed (mfa_row s')
                      = Some (Some (dumps_default (JList (remove1 (JStr (hash_code E (upper (strip otp)))) cs))))))))"
proof (intro conjI allI impI)
  fix token r
  assume l: "login E token s = Inr r"
  show "\<not> grants_session r" using login_grants[OF l] assms(2) by blast
next
  fix token r v n
  assume l: "login E token s = Inr r" "map_of (rs_cookies r) PRE_MFA_COOKIE = Some (Some (v, n))"
  then show "token = admin_token (cfg E)"
    by (auto simp: login_def compare_digest_def rbind_Inr_iff redirect_def split: if_splits)
  have "pre_mfa_response E (now s) = Inr r"
    using l assms(2) by (auto simp: login_def compare_digest_def rbind_Inr_iff redirect_def split: if_splits)
  then have v: "v = cookie_dump E (session_secret (cfg E)) pre_mfa_salt (ticket (now s))"
    using l(2) by (auto simp: pre_mfa_response_Inr)
  have "session_salt \<noteq> pre_mfa_salt" by (simp add: session_salt_def pre_mfa_salt_def)
  then have "cookie_load E (session_secret (cfg E)) session_salt v = None"
    using v assms(1) by (simp add: cookie_inverse_def)
  then show "logged_in E t req \<noteq> Inr True" if "map_of (q_cookies req) SESSION_COOKIE = Some v" for t req
    using that by (auto simp: logged_in_True)
  have "cookie_load E (session_secret (cfg E)) pre_mfa_salt v = Some (ticket (now s))"
    using v assms(1) by (simp add: cookie_inverse_def)
  then show "timestamp (now u) \<le> timestamp (now s) + 300"
    if "map_of (q_cookies req) PRE_MFA_COOKIE = Some v \<and> login_mfa E req otp u = Inr (r', u') \<and> grants_session r'"
    for req otp u r' u'
    using that login_mfa_grants[of E req otp u r' u'] by (auto simp: pre_mfa_True)
next
  fix req otp r s'
  assume "login_mfa E req otp s = Inr (r, s') \<and> grants_session r"
  then have g: "pre_mfa_valid E (now s) req = Inr True" "verify_login E otp s = Inr (True, s')"
    using login_mfa_grants by blast+
  from g(1) show "\<exists>raw j iat. map_of (q_cookies req) PRE_MFA_COOKIE = Some raw
      \<and> cookie_load E (session_secret (cfg E)) pre_mfa_salt raw = Some j \<and> issued_at j = Some iat
      \<and> timestamp (now s) - iat \<le> 300" unfolding pre_mfa_True by blast
  from verify_login_accepts[OF g(2)] show "\<exists>row k x. mfa_row s = Some row \<and> m_secret_encrypted row = Some k
      \<and> decrypt_secret E (Some k) = Inr x
      \<and> (totp_verify E (the x) (now s) otp
         \<or> (\<exists>cs. load_codes (m_recovery_codes_hashed row) = Inr cs \<and> JStr (hash_code E (upper (strip otp))) \<in> set cs
             \<and> map_option m_recovery_codes_hashed (mfa_row s')
                = Some (Some (dumps_default (JList (remove1 (JStr (hash_code E (upper (strip otp)))) cs))))))" by blast
qed

text \<open>
  The cookie of a login without a second factor is accepted at every later instant for
  seven days from the login, and at none after.
\<close>

theorem session_lifetime:
  assumes "cookie_inverse E" and "login E token s = Inr r"
    and "map_of (rs_cookies r) SESSION_COOKIE = Some (Some (v, age))" and "v \<noteq> []"
    and "map_of (q_cookies req) SESSION_COOKIE = Some v" and "now s \<le> t"
  shows "age = 604800 \<and> logged_in E t req = Inr (timestamp t - timestamp (now s) \<le> age)"
proof -
  have g: "grants_session r" using assms(3) by (simp add: grants_session_def)
  have "session_response E (now s) = Inr r" using login_grants[OF assms(2) g] by blast
  then have v: "v = cookie_dump E (session_secret (cfg E)) session_salt (ticket (now s))"
    and age: "age = SESSION_MAX_AGE_SECONDS" and k: "session_secret (cfg E) \<noteq> []"
    using assms(3) by (auto simp: session_response_Inr)
  have "logged_in E t req = Inr (timestamp t - timestamp (now s) \<le> SESSION_MAX_AGE_SECONDS)"
    using assms(4,5) v by (intro fresh_cookie_logged_in[OF assms(1) k assms(6)]) simp_all
  then show ?thesis by (simp add: age SESSION_MAX_AGE_SECONDS_def)
qed
section \<open>An example\<close>

lemma hexs_no_dot: "CHR ''.'' \<notin> set (hexs s)"
proof (induction s)
  case (Cons c s)
  have d: "hex_digit n \<noteq> CHR ''.''" if "n < 16" for n
  proof
    assume "hex_digit n = CHR ''.''"
    with hex_val_digit[OF that] show False by (simp add: hex_val_def is_digit_def code_def)
  qed
  have "code c < 16 * 16" by simp
  then have "code c div 16 < 16" and "code c mod 16 < 16" by (simp_all add: less_mult_imp_div_less)
  with Cons d show ?case by (metis hexs.simps(2) set_ConsD)
qed simp

lemma hexs_inj: "hexs a = hexs b \<Longrightarrow> a = b"
  by (metis option.inject unhexs_hexs)

lemma until_dot: "CHR ''.'' \<notin> set x \<Longrightarrow> takeWhile (\<lambda>c. c \<noteq> CHR ''.'') (x @ CHR ''.'' # r) = x"
  by (subst takeWhile_append2) auto

lemma sample_cookie_inverse: "cookie_inverse (sample_env c)"
proof -
  have "a = b" if "starts_with (hexs b @ ''.'') (hexs a @ CHR ''.'' # r)" for a b r
  proof -
    from that obtain r' where "hexs a @ CHR ''.'' # r = hexs b @ CHR ''.'' # r'" by (auto simp: starts_with_iff)
    then have "hexs a = hexs b" using until_dot[OF hexs_no_dot] by metis
    then show ?thesis by (rule hexs_inj)
  qed
  then have s: "\<not> starts_with (hexs k @ ''.'' @ hexs b @ ''.'') (hexs k @ ''.'' @ hexs a @ CHR ''.'' # r)"
    if "a \<noteq> b" for k a b r
    using that by (auto simp: starts_with_iff)
  have "loads (dumps_compact j) = Inr j" if "plain j" for j using that by (rule loads_dumps_compact)
  moreover have "starts_with (hexs k @ ''.'' @ hexs salt @ ''.'') (hexs k @ ''.'' @ hexs salt @ ''.'' @ x)" for k salt x
    by (simp add: starts_with_iff)
  ultimately show ?thesis using s
    by (simp add: cookie_inverse_def sample_env_def Let_def)
qed

definition auth_env :: env where
  "auth_env = sample_env (default_settings\<lparr>license_key_pepper := ''pepper'', key_encryption_key := ''k1'',
     admin_token := ''adm'', session_secret := ''sec''\<rparr>)"

lemma auth_inverse: "cookie_inverse auth_env"
  unfolding auth_env_def by (rule sample_cookie_inverse)

theorem login_two_factors_witness:
  "\<exists>r. login auth_env ''adm'' mfa_on = Inr r \<and> rs_location r = Some ''/admin/login/mfa'' \<and> \<not> grants_session r"
proof -
  have "case login auth_env ''adm'' mfa_on of Inl e \<Rightarrow> False | Inr r \<Rightarrow> rs_location r = Some ''/admin/login/mfa''"
    by code_simp
  then obtain r where r: "login auth_env ''adm'' mfa_on = Inr r" "rs_location r = Some ''/admin/login/mfa''"
    by (auto dest!: right_exists)
  have "is_enabled mfa_on" by code_simp
  from login_two_factors[OF auth_inverse this] r show ?thesis by blast
qed

theorem session_lifetime_witness:
  "\<exists>r v age. login auth_env ''adm'' shop = Inr r \<and> map_of (rs_cookies r) SESSION_COOKIE = Some (Some (v, age))
    \<and> logged_in auth_env (now shop + 7 * day_us) \<lparr>q_cookies = [(SESSION_COOKIE, v)], q_authorization = None,
         q_client = None, q_forwarded = None\<rparr> = Inr True
    \<and> logged_in auth_env (now shop + 8 * day_us) \<lparr>q_cookies = [(SESSION_COOKIE, v)], q_authorization = None,
         q_client = None, q_forwarded = None\<rparr> = Inr False"
proof -
  have "case login auth_env ''adm'' shop of Inl e \<Rightarrow> False | Inr r \<Rightarrow>
      (case map_of (rs_cookies r) SESSION_COOKIE of Some (Some x) \<Rightarrow> fst x \<noteq> [] | _ \<Rightarrow> False)" by code_simp
  then obtain r where r: "login auth_env ''adm'' shop = Inr r"
    and k: "case map_of (rs_cookies r) SESSION_COOKIE of Some (Some x) \<Rightarrow> fst x \<noteq> [] | _ \<Rightarrow> False"
    by (cases "login auth_env ''adm'' shop") simp_all
  from k obtain x where "map_of (rs_cookies r) SESSION_COOKIE = Some (Some x)" "fst x \<noteq> []"
    by (simp split: option.splits)
  then obtain v age where c: "map_of (rs_cookies r) SESSION_COOKIE = Some (Some (v, age))" "v \<noteq> []"
    by (cases x) simp
  let ?q = "\<lparr>q_cookies = [(SESSION_COOKIE, v)], q_authorization = None, q_client = None, q_forwarded = None\<rparr>"
  have m: "map_of (q_cookies ?q) SESSION_COOKIE = Some v" by simp
  have le: "now shop \<le> now shop + n * day_us" if "0 \<le> n" for n using that by (simp add: us_defs)
  have t: "timestamp (now shop + 7 * day_us) - timestamp (now shop) = 604800"
    "timestamp (now shop + 8 * day_us) - timestamp (now shop) = 691200" by code_simp+
  from session_lifetime[OF auth_inverse r c m le[of 7]] session_lifetime[OF auth_inverse r c m le[of 8]] r c(1) t
  show ?thesis by auto
qed

end
