(* ===== verification/Customers.thy ===== *)
theory Customers
  imports Check Pagination
begin

text \<open>
  Customers (\<^verbatim>\<open>app/services/customers.py\<close>): the listings with licence counts and product slugs,
  and the edit with its check for another owner of the e-mail address.
\<close>

section \<open>Listings\<close>

definition customers_desc :: "session \<Rightarrow> customer list" where
  "customers_desc s = order_by_desc (\<lambda>c. (c_created_at c, c_id c)) (customers s)"

definition customer_licenses :: "session \<Rightarrow> customer \<Rightarrow> license list" where
  "customer_licenses s c = filter (\<lambda>l. l_customer_id l = c_id c) (licenses s)"

definition list_customers_with_counts :: "session \<Rightarrow> (customer \<times> nat) list" where
  "list_customers_with_counts s = map (\<lambda>c. (c, length (customer_licenses s c))) (customers_desc s)"

definition customer_cols :: "customer \<times> 'a \<Rightarrow> datetime \<times> uid" where
  "customer_cols r = (c_created_at (fst r), c_id (fst r))"

definition page_customers_with_counts ::
  "string option \<Rightarrow> nat \<Rightarrow> session \<Rightarrow> ((customer \<times> nat) list \<times> string option) res" where
  "page_customers_with_counts cursor limit s =
     paginate customer_cols (\<lambda>r. Inr (customer_cols r)) cursor limit (list_customers_with_counts s)"

text \<open>The slug of a licence's product, as the join finds it.\<close>

definition slug_of :: "session \<Rightarrow> license \<Rightarrow> string option" where
  "slug_of s l = map_option p_slug (find (\<lambda>p. p_id p = l_product_id l) (products s))"

definition customer_group :: "session \<Rightarrow> customer \<Rightarrow> (customer \<times> uid option \<times> string option) list" where
  "customer_group s c = (case customer_licenses s c of [] \<Rightarrow> [(c, None, None)]
      | ls \<Rightarrow> sort_key (\<lambda>(_, _, g). case g of None \<Rightarrow> (False, []) | Some x \<Rightarrow> (True, x))
          (map (\<lambda>l. (c, Some (l_id l), slug_of s l)) ls))"

definition slug_rows :: "session \<Rightarrow> (customer \<times> uid option \<times> string option) list" where
  "slug_rows s = concat (map (customer_group s) (customers_desc s))"

text \<open>One dictionary entry per customer, in the order of first appearance.\<close>

fun bucket_row :: "customer \<times> uid option \<times> string option \<Rightarrow> (customer \<times> nat \<times> string list) list
    \<Rightarrow> (customer \<times> nat \<times> string list) list" where
  "bucket_row (c, lid, g) [] =
     [(c, if lid \<noteq> None then 1 else 0, if truthy g then [the g] else [])]"
| "bucket_row (c, lid, g) ((d, n, gs) # acc) =
     (if c_id d = c_id c
      then (d, if lid \<noteq> None then Suc n else n, if truthy g then List.insert (the g) gs else gs) # acc
      else (d, n, gs) # bucket_row (c, lid, g) acc)"

definition bucket_customer_slugs ::
  "(customer \<times> uid option \<times> string option) list \<Rightarrow> (customer \<times> nat \<times> string list) list" where
  "bucket_customer_slugs rows =
     map (\<lambda>(c, n, gs). (c, n, sort gs)) (fold bucket_row rows [])"

definition slugs_by_cid :: "session \<Rightarrow> uid \<Rightarrow> string list" where
  "slugs_by_cid s cid = sort (remdups (List.map_filter (slug_of s) (filter (\<lambda>l. l_customer_id l = cid) (licenses s))))"

text \<open>
  The page is requested without a key function although its rows are tuples, which have no
  \<open>created_at\<close>.
\<close>

definition list_customers_with_product_slugs ::
  "string option \<Rightarrow> nat option \<Rightarrow> session \<Rightarrow> ((customer \<times> nat \<times> string list) list \<times> string option) res" where
  "list_customers_with_product_slugs cursor limit s = (case limit of
      None \<Rightarrow> Inr (bucket_customer_slugs (slug_rows s), None)
    | Some lim \<Rightarrow>
        rbind (paginate customer_cols (\<lambda>r. Inl (AttributeError ''created_at'')) cursor
            (if lim = 0 then nat DEFAULT_LIMIT else lim) (list_customers_with_counts s)) (\<lambda>(items, next).
        if items = [] then Inr ([], None)
        else Inr (map (\<lambda>(c, n). (c, n, slugs_by_cid s (c_id c))) items, next)))"

section \<open>Edit\<close>

definition edited_customer :: "customer \<Rightarrow> string \<Rightarrow> string \<Rightarrow> string \<Rightarrow> customer" where
  "edited_customer c email name stripe_customer_id =
     c\<lparr>c_email := strip email, c_name := or_none (strip name),
       c_stripe_customer_id := or_none (strip stripe_customer_id)\<rparr>"

definition edit_customer ::
  "env \<Rightarrow> uid \<Rightarrow> string \<Rightarrow> string \<Rightarrow> string \<Rightarrow> string \<Rightarrow> session \<Rightarrow> (customer \<times> session) res" where
  "edit_customer E cid email name stripe_customer_id note s =
     rbind (one_or_none (\<lambda>c. c_id c = cid) (customers s)) (\<lambda>found. case found of
        None \<Rightarrow> Inl (NotFound ''customer not found'')
      | Some c \<Rightarrow>
         if strip email = [] then Inl (ValidationFailed ''email required'')
         else rbind (if strip email \<noteq> c_email c
             then one_or_none (\<lambda>d. c_email d = strip email \<and> c_id d \<noteq> cid) (customers s)
             else Inr None) (\<lambda>clash.
           if clash \<noteq> None then Inl (Conflict ''email already used by another customer'')
           else let c' = edited_customer c email name stripe_customer_id
             in rbind (commit E (audit None None ''customer:edited''
                  (JDict [(''customer_id'', JStr (c_id c')), (''email'', JStr (c_email c'))]) (Some note)
                  (put_customer c' s))) (\<lambda>s'. Inr (c', s'))))"

section \<open>Lemmas\<close>

lemma customers_desc_set [simp]: "set (customers_desc s) = set (customers s)"
  by (simp add: customers_desc_def table_simps)

lemma put_customer_fields [table_simps]:
  "licenses (put_customer p s) = licenses s" "presets (put_customer p s) = presets s"
  "products (put_customer p s) = products s" "installs (put_customer p s) = installs s"
  "deliveries (put_customer p s) = deliveries s" "events (put_customer p s) = events s"
  "new_events (put_customer p s) = new_events s" "tasks (put_customer p s) = tasks s"
  by (simp_all add: put_customer_def)

lemma edit_customer_cases:
  assumes "edit_customer E cid email name scid note s = Inr (c', s')"
  obtains c where "c \<in> set (customers s)" "c_id c = cid" "strip email \<noteq> []"
    "\<forall>d \<in> set (customers s). c_email d = strip email \<longrightarrow> c_id d = cid \<or> strip email = c_email c"
    "c' = edited_customer c email name scid"
    "commit E (audit None None ''customer:edited''
       (JDict [(''customer_id'', JStr (c_id c')), (''email'', JStr (c_email c'))]) (Some note)
       (put_customer c' s)) = Inr s'"
proof -
  obtain c where f: "one_or_none (\<lambda>c. c_id c = cid) (customers s) = Inr (Some c)"
    using assms unfolding edit_customer_def by (auto simp: rbind_Inr_iff split: option.splits)
  then have c: "c \<in> set (customers s)" "c_id c = cid" by (auto dest: one_or_none_SomeD(1,2))
  have e: "strip email \<noteq> []"
    and k: "(if strip email \<noteq> c_email c
             then one_or_none (\<lambda>d. c_email d = strip email \<and> c_id d \<noteq> cid) (customers s)
             else Inr None) = Inr None"
    and r: "c' = edited_customer c email name scid"
      "commit E (audit None None ''customer:edited''
       (JDict [(''customer_id'', JStr (c_id c')), (''email'', JStr (c_email c'))]) (Some note)
       (put_customer c' s)) = Inr s'"
    using assms f unfolding edit_customer_def by (auto simp: rbind_Inr_iff Let_def split: if_splits)
  from k have "\<forall>d \<in> set (customers s). c_email d = strip email \<longrightarrow> c_id d = cid \<or> strip email = c_email c"
    by (auto simp: one_or_none_None split: if_splits)
  with c e r show ?thesis using that by blast
qed

lemma edit_customer_good:
  assumes "edit_customer E cid email name scid note s = Inr (c', s')" and "good E s"
  shows "good E s'"
  using assms(1)
proof (rule edit_customer_cases)
  assume c: "commit E (audit None None ''customer:edited''
       (JDict [(''customer_id'', JStr (c_id c')), (''email'', JStr (c_email c'))]) (Some note)
       (put_customer c' s)) = Inr s'"
  have "c_id ` set (customers (put_customer c' s)) = c_id ` set (customers s)"
    by (metis customer_store.keys_put list.set_map)
  then have "rows_ok E (put_customer c' s)"
    using assms(2) by (auto simp: good_def rows_ok_def placed_def table_simps)
  then show ?thesis by (intro good_commit[OF c]) (simp add: table_simps)
qed

text \<open>The bucket of each customer collects the rows of that customer.\<close>

definition row_slugs :: "(customer \<times> uid option \<times> string option) list \<Rightarrow> string set" where
  "row_slugs rows = {g. \<exists>c l. (c, l, Some g) \<in> set rows \<and> g \<noteq> []}"

definition n_licenses :: "(customer \<times> uid option \<times> string option) list \<Rightarrow> nat" where
  "n_licenses rows = length (filter (\<lambda>r. fst (snd r) \<noteq> None) rows)"

lemma n_licenses_simps [simp]: "n_licenses [] = 0"
  "n_licenses ((c, l, g) # rows) = (if l = None then n_licenses rows else Suc (n_licenses rows))"
  by (simp_all add: n_licenses_def)

lemma row_slugs_Nil [simp]: "row_slugs [] = {}"
  by (simp add: row_slugs_def)

lemma row_slugs_Cons [simp]: "row_slugs ((c, l, g) # rows) = (if truthy g then {the g} else {}) \<union> row_slugs rows"
  by (cases g) (auto simp: row_slugs_def)

lemma bucket_put:
  assumes "\<forall>e \<in> set acc. c_id (fst e) \<noteq> c_id c" and "c_id d = c_id c"
  shows "bucket_row (c, l, g) (acc @ [(d, n, gs)])
      = acc @ [(d, if l \<noteq> None then Suc n else n, if truthy g then List.insert (the g) gs else gs)]"
  using assms by (induction acc) auto

lemma fold_bucket_same:
  assumes "\<forall>r \<in> set rows. c_id (fst r) = c_id d" and "\<forall>e \<in> set acc. c_id (fst e) \<noteq> c_id d" and "distinct gs"
  shows "\<exists>hs. fold bucket_row rows (acc @ [(d, n, gs)])
      = acc @ [(d, n + n_licenses rows, hs)]
    \<and> distinct hs \<and> set hs = set gs \<union> row_slugs rows"
  using assms(1,3)
proof (induction rows arbitrary: n gs)
  case Nil
  then show ?case by simp
next
  case (Cons r rows)
  obtain c l g where r: "r = (c, l, g)" by (cases r)
  let ?gs = "if truthy g then List.insert (the g) gs else gs"
  let ?n = "if l \<noteq> None then Suc n else n"
  have put: "bucket_row r (acc @ [(d, n, gs)]) = acc @ [(d, ?n, ?gs)]"
  proof -
    have "c_id c = c_id d" using Cons.prems(1) r by simp
    with assms(2) show ?thesis unfolding r by (intro bucket_put) metis+
  qed
  have "\<forall>r \<in> set rows. c_id (fst r) = c_id d" and "distinct ?gs" using Cons.prems by simp_all
  from Cons.IH[OF this, of ?n] obtain hs where hs: "fold bucket_row rows (acc @ [(d, ?n, ?gs)])
      = acc @ [(d, ?n + n_licenses rows, hs)]"
    "distinct hs" "set hs = set ?gs \<union> row_slugs rows" by blast
  have "set ?gs \<union> row_slugs rows = set gs \<union> row_slugs (r # rows)" by (simp add: r)
  moreover have "?n + n_licenses rows = n + n_licenses (r # rows)" by (simp add: r)
  moreover have "fold bucket_row (r # rows) (acc @ [(d, n, gs)]) = acc @ [(d, ?n + n_licenses rows, hs)]"
    unfolding fold.simps comp_def put by (rule hs(1))
  ultimately show ?case using hs(2,3) by metis
qed

text \<open>What both paths of the listing are meant to return for a customer.\<close>

definition customer_row :: "session \<Rightarrow> customer \<Rightarrow> customer \<times> nat \<times> string list" where
  "customer_row s c = (c, length (customer_licenses s c), slugs_by_cid s (c_id c))"

lemma fold_bucket_group:
  assumes "rows \<noteq> []" and "\<forall>r \<in> set rows. fst r = c" and "\<forall>e \<in> set acc. c_id (fst e) \<noteq> c_id c"
  shows "\<exists>hs. fold bucket_row rows acc = acc @ [(c, n_licenses rows, hs)]
    \<and> distinct hs \<and> set hs = row_slugs rows"
proof -
  obtain l g rest where rows: "rows = (c, l, g) # rest" using assms(1,2) by (cases rows) auto
  let ?gs = "if truthy g then [the g] else []"
  let ?n = "if l \<noteq> None then 1 else 0 :: nat"
  have "bucket_row (c, l, g) acc = acc @ [(c, ?n, ?gs)]"
    using assms(3) by (induction acc) auto
  moreover have "\<exists>hs. fold bucket_row rest (acc @ [(c, ?n, ?gs)])
      = acc @ [(c, ?n + n_licenses rest, hs)]
      \<and> distinct hs \<and> set hs = set ?gs \<union> row_slugs rest"
    using assms by (intro fold_bucket_same) (simp_all add: rows)
  ultimately show ?thesis by (auto simp: rows)
qed

lemma sort_key_Nil: "sort_key k xs = [] \<longleftrightarrow> xs = []"
  by (metis length_0_conv length_sort)

lemma customer_group_rows:
  "customer_group s c \<noteq> []" "\<forall>r \<in> set (customer_group s c). fst r = c"
  "n_licenses (customer_group s c) = length (customer_licenses s c)"
  "row_slugs (customer_group s c) = set (List.map_filter (slug_of s) (customer_licenses s c)) - {[]}"
proof -
  have g: "customer_group s c = [(c, None, None)] \<and> customer_licenses s c = [] \<or> customer_licenses s c \<noteq> []
      \<and> customer_group s c = sort_key (\<lambda>(_, _, g). case g of None \<Rightarrow> (False, []) | Some x \<Rightarrow> (True, x))
          (map (\<lambda>l. (c, Some (l_id l), slug_of s l)) (customer_licenses s c))"
    by (cases "customer_licenses s c") (simp_all add: customer_group_def)
  then have set: "customer_licenses s c \<noteq> [] \<Longrightarrow> set (customer_group s c)
      = (\<lambda>l. (c, Some (l_id l), slug_of s l)) ` set (customer_licenses s c)" by auto
  show "\<forall>r \<in> set (customer_group s c). fst r = c" using g set by auto
  show "customer_group s c \<noteq> []" using g by (elim disjE conjE) (simp_all add: sort_key_Nil)
  have "filter (\<lambda>r. fst (snd r) \<noteq> None) (customer_group s c) = customer_group s c"
    if "customer_licenses s c \<noteq> []"
  proof (rule filter_True)
    show "\<forall>r \<in> set (customer_group s c). fst (snd r) \<noteq> None" unfolding set[OF that] by simp
  qed
  then have "n_licenses (customer_group s c) = length (customer_group s c)" if "customer_licenses s c \<noteq> []"
    using that by (simp add: n_licenses_def)
  with g show "n_licenses (customer_group s c) = length (customer_licenses s c)"
    by auto
  show "row_slugs (customer_group s c) = set (List.map_filter (slug_of s) (customer_licenses s c)) - {[]}"
  proof (cases "customer_licenses s c = []")
    case True
    then show ?thesis using g by (simp add: List.map_filter_def)
  next
    case False
    have f: "set (List.map_filter (slug_of s) ls) = {g. \<exists>l \<in> set ls. slug_of s l = Some g}" for ls
      by (force simp: List.map_filter_def)
    show ?thesis unfolding row_slugs_def set[OF False] f
      by (auto simp: eq_commute[of "Some _"]) (metis (mono_tags, lifting) rev_image_eqI)
  qed
qed

lemma sort_distinct_set: "distinct hs \<Longrightarrow> set hs = set xs \<Longrightarrow> sort hs = sort (remdups xs)"
  by (metis distinct_remdups_id sorted_list_of_set_sort_remdups)

lemma fold_bucket_groups:
  assumes "distinct (map c_id cs)" and "\<forall>e \<in> set acc. \<forall>c \<in> set cs. c_id (fst e) \<noteq> c_id c"
    and "\<forall>p \<in> set (products s). p_slug p \<noteq> []"
  shows "bucket_customer_slugs (concat (map (customer_group s) cs)) = map (customer_row s) cs
    \<and> map (\<lambda>(c, n, gs). (c, n, sort gs)) (fold bucket_row (concat (map (customer_group s) cs)) acc)
        = map (\<lambda>(c, n, gs). (c, n, sort gs)) acc @ map (customer_row s) cs"
proof -
  have "map (\<lambda>(c, n, gs). (c, n, sort gs)) (fold bucket_row (concat (map (customer_group s) cs)) acc)
        = map (\<lambda>(c, n, gs). (c, n, sort gs)) acc @ map (customer_row s) cs"
    if "\<forall>e \<in> set acc. \<forall>c \<in> set cs. c_id (fst e) \<noteq> c_id c" for acc
    using assms(1) that
  proof (induction cs arbitrary: acc)
    case (Cons c cs)
    have "\<forall>e \<in> set acc. c_id (fst e) \<noteq> c_id c" using Cons.prems(2) by simp
    from fold_bucket_group[OF customer_group_rows(1,2) this]
    obtain hs where hs: "fold bucket_row (customer_group s c) acc
        = acc @ [(c, length (customer_licenses s c), hs)]" "distinct hs"
        "set hs = set (List.map_filter (slug_of s) (customer_licenses s c)) - {[]}"
      unfolding customer_group_rows(3,4) by blast
    have "g \<noteq> []" if "slug_of s l = Some g" for l g
      using that assms(3) by (auto simp: slug_of_def find_Some_iff)
    then have "[] \<notin> set (List.map_filter (slug_of s) (customer_licenses s c))"
      by (force simp: List.map_filter_def)
    then have "sort hs = slugs_by_cid s (c_id c)"
      using hs(2,3) by (auto simp: slugs_by_cid_def customer_licenses_def intro!: sort_distinct_set)
    moreover have "\<forall>e \<in> set (acc @ [(c, length (customer_licenses s c), hs)]). \<forall>d \<in> set cs. c_id (fst e) \<noteq> c_id d"
      using Cons.prems by auto
    ultimately show ?case
      using Cons.IH[of "acc @ [(c, length (customer_licenses s c), hs)]"] Cons.prems(1) hs(1)
      by (simp add: customer_row_def)
  qed simp
  from this[of "[]"] this[of acc] assms(2) show ?thesis by (simp add: bucket_customer_slugs_def)
qed

lemma counts_cols [simp]: "customer_cols (c, n) = (c_created_at c, c_id c)"
  by (simp add: customer_cols_def)

text \<open>
  C33: the customer listing. Asked for everything, it returns one row per customer, newest
  first, with the number of licences and the sorted slugs of their products. The first
  page agrees with it as long as every customer fits on the page; with more customers than
  the page holds, the request fails with an \<open>AttributeError\<close>, because the tuple rows have
  no \<open>created_at\<close> from which to make the next cursor.
\<close>

theorem customer_listing:
  assumes "distinct (map c_id (customers s))" and "\<forall>p \<in> set (products s). p_slug p \<noteq> []" and "0 < lim"
  shows "list_customers_with_product_slugs cursor None s = Inr (map (customer_row s) (customers_desc s), None)
    \<and> list_customers_with_product_slugs None (Some lim) s
        = (if length (customers s) \<le> lim
           then list_customers_with_product_slugs None None s
           else Inl (AttributeError ''created_at''))"
proof -
  have len: "length (customers_desc s) = length (customers s)" by (simp add: customers_desc_def table_simps)
  have d: "distinct (map c_id (customers_desc s))"
    unfolding customers_desc_def by (rule distinct_order_by_desc[OF assms(1)])
  then have all: "list_customers_with_product_slugs c None s = Inr (map (customer_row s) (customers_desc s), None)" for c
    using fold_bucket_groups[of "customers_desc s" "[]" s] assms(2)
    by (simp add: list_customers_with_product_slugs_def slug_rows_def)
  have "list_customers_with_product_slugs None (Some lim) s = Inr (map (customer_row s) (customers_desc s), None)"
    if "length (customers s) \<le> lim"
    using that assms(3) len
    by (auto simp: list_customers_with_product_slugs_def paginate_def decode_cursor_def
        list_customers_with_counts_def customer_row_def)
  moreover have "list_customers_with_product_slugs None (Some lim) s = Inl (AttributeError ''created_at'')"
    if "\<not> length (customers s) \<le> lim"
    using that assms(3) len
    by (simp add: list_customers_with_product_slugs_def paginate_def decode_cursor_def
        list_customers_with_counts_def)
  ultimately show ?thesis using all by simp
qed

text \<open>
  An accepted edit rewrites the e-mail address, name and Stripe identifier of the one
  customer it names, trimmed, keeps its identity, leaves every other customer and every
  licence as they were, and never gives two customers the same address.
\<close>

theorem edit_customer_correct:
  assumes "edit_customer E cid email name scid note s = Inr (c', s')" and "good E s"
  shows "\<exists>c \<in> set (customers s). c_id c = cid \<and> c' = edited_customer c email name scid
    \<and> set (customers s') = insert c' {x \<in> set (customers s). c_id x \<noteq> cid}
    \<and> map c_id (customers s') = map c_id (customers s) \<and> licenses s' = licenses s
    \<and> strip email \<noteq> [] \<and> (\<forall>x \<in> set (customers s'). c_email x = strip email \<longrightarrow> x = c')"
  using assms(1)
proof (rule edit_customer_cases)
  fix c
  assume c: "c \<in> set (customers s)" "c_id c = cid" "strip email \<noteq> []"
    "\<forall>d \<in> set (customers s). c_email d = strip email \<longrightarrow> c_id d = cid \<or> strip email = c_email c"
    and c': "c' = edited_customer c email name scid"
    and cm: "commit E (audit None None ''customer:edited''
       (JDict [(''customer_id'', JStr (c_id c')), (''email'', JStr (c_email c'))]) (Some note)
       (put_customer c' s)) = Inr s'"
  have id: "c_id c' = cid" "c_email c' = strip email" using c(2) c' by (simp_all add: edited_customer_def)
  have s': "customers s' = customers (put_customer c' s)" "licenses s' = licenses s" "constraints_ok s'"
    using cm by (auto simp: commit_Inr table_simps)
  have rows: "set (customers s') = insert c' {x \<in> set (customers s). c_id x \<noteq> cid}"
    using customer_store.put_rows[of c s c'] c(1,2) id s'(1) by simp
  have "distinct (map c_email (customers s'))" using s'(3) by (simp add: constraints_ok_def)
  then have "x = c'" if "x \<in> set (customers s')" "c_email x = strip email" for x
  proof -
    have "inj_on c_email (set (customers s'))" using \<open>distinct (map c_email (customers s'))\<close>
      by (simp add: distinct_map)
    moreover have "c' \<in> set (customers s')" using rows by simp
    ultimately show ?thesis using that id(2) by (simp add: inj_onD)
  qed
  with c c' s' rows customer_store.keys_put[of c' s] show ?thesis by (intro bexI[of _ c]) auto
qed

definition two_customers :: session where
  "two_customers = shop\<lparr>customers := [sample_customer,
     sample_customer\<lparr>c_id := ''c2'', c_email := ''b@x.io''\<rparr>]\<rparr>"

theorem customer_listing_witness:
  "list_customers_with_product_slugs None (Some 1) two_customers = Inl (AttributeError ''created_at'')"
proof -
  have "distinct (map c_id (customers two_customers))" by code_simp
  moreover have "\<forall>p \<in> set (products two_customers). p_slug p \<noteq> []" by code_simp
  moreover have "\<not> length (customers two_customers) \<le> 1" by (simp add: two_customers_def)
  ultimately show ?thesis using customer_listing[of two_customers 1] by simp
qed

theorem edit_customer_correct_witness:
  "\<exists>c' s'. edit_customer shop_env (c_id sample_customer) '' new@x.io '' ''N'' '''' ''n'' shop = Inr (c', s')
    \<and> c_email c' = ''new@x.io'' \<and> licenses s' = licenses shop"
proof -
  have "\<exists>r. edit_customer shop_env (c_id sample_customer) '' new@x.io '' ''N'' '''' ''n'' shop = Inr r"
    by (rule is_okE) code_simp
  then obtain c' s' where e: "edit_customer shop_env (c_id sample_customer) '' new@x.io '' ''N'' '''' ''n'' shop
      = Inr (c', s')" by force
  have "strip '' new@x.io '' = ''new@x.io''" by code_simp
  moreover from edit_customer_correct[OF e shop_good]
  obtain c where "c' = edited_customer c '' new@x.io '' ''N'' ''''" and l: "licenses s' = licenses shop" by blast
  ultimately have "c_email c' = ''new@x.io''" by (simp add: edited_customer_def)
  with e l show ?thesis by blast
qed

end
