(* ===== verification/Presets.thy ===== *)
theory Presets
  imports Products
begin

text \<open>
  Feature presets (\<^verbatim>\<open>app/services/presets.py\<close>): the value of a form field read at its declared
  type, and creation, edit and bulk deletion of the authoring templates.
\<close>

section \<open>Values\<close>

definition invalid_value :: exc where
  "invalid_value = ValidationFailed ''invalid preset value''"

definition invalid_type :: exc where
  "invalid_type = ValidationFailed ''invalid preset type''"

text \<open>
  \<open>math.isfinite\<close> converts an integer to a double first, which raises where it does not fit.
\<close>

definition finite_number :: "json \<Rightarrow> json res" where
  "finite_number j = (case j of
      JInt n \<Rightarrow> if \<bar>n\<bar> < 2 ^ 1024 - 2 ^ 970 then Inr j
        else Inl (OverflowError ''int too large to convert to float'')
    | JFloat t \<Rightarrow> if float_finite t then Inr j else Inl invalid_value
    | _ \<Rightarrow> Inl invalid_value)"

definition loads_or_invalid :: "string \<Rightarrow> json res" where
  "loads_or_invalid t = (case loads t of Inl e \<Rightarrow> Inl invalid_value | Inr j \<Rightarrow> Inr j)"

definition parse_preset_value :: "string \<Rightarrow> string \<Rightarrow> json res" where
  "parse_preset_value value_type raw =
    (let t = strip raw in
     if value_type = ''bool'' then
       (if lower t \<in> {''true'', ''1'', ''yes''} then Inr (JBool True)
        else if lower t \<in> {''false'', ''0'', ''no''} then Inr (JBool False)
        else Inl invalid_value)
     else if value_type = ''number'' then rbind (loads_or_invalid t) finite_number
     else if value_type = ''string'' then Inr (JStr raw)
     else if value_type = ''json'' then loads_or_invalid t
     else Inl invalid_type)"

definition preset_key_ok :: "string \<Rightarrow> bool" where
  "preset_key_ok = re_match_dollar (re_class (\<lambda>c. is_alpha c \<or> is_digit c \<or> c = CHR ''_''
     \<or> c = CHR ''.'' \<or> c = CHR ''-'') 1 64)"

section \<open>Operations\<close>

definition validate_preset :: "uid option \<Rightarrow> string \<Rightarrow> uid option \<Rightarrow> session \<Rightarrow> unit res" where
  "validate_preset pid key exclude_id s =
    (if \<not> preset_key_ok key then Inl (ValidationFailed ''invalid preset key'')
     else if list_ex (\<lambda>f. f_product_id f = pid \<and> f_key f = key
          \<and> (truthy exclude_id \<longrightarrow> Some (f_id f) \<noteq> exclude_id)) (presets s)
       then Inl (Conflict ''preset exists'')
     else Inr ())"

definition list_presets :: "session \<Rightarrow> preset list" where
  "list_presets s = sort_key (\<lambda>f. (Desc (f_product_id f = None), f_key f)) (presets s)"

definition presets_for_product :: "uid \<Rightarrow> session \<Rightarrow> preset list" where
  "presets_for_product pid s = sort_key (\<lambda>f. (Desc (f_product_id f = None), f_key f))
     (filter (\<lambda>f. f_product_id f = None \<or> f_product_id f = Some pid) (presets s))"

definition preset_event :: "string \<Rightarrow> uid option \<Rightarrow> (string \<times> json) list \<Rightarrow> string \<Rightarrow> session \<Rightarrow> session" where
  "preset_event ty pid kvs note s = audit None pid ty
     (JDict (kvs @ [(''scope'', JStr (if truthy pid then ''product'' else ''global''))])) (Some note) s"

definition create_preset ::
  "env \<Rightarrow> uid option \<Rightarrow> string \<Rightarrow> string \<Rightarrow> string \<Rightarrow> string \<Rightarrow> session \<Rightarrow> (preset \<times> session) res" where
  "create_preset E pid key value_type default_raw note s =
    (let key = strip key in
     if value_type \<notin> set value_types then Inl invalid_type
     else if pid \<noteq> None \<and> the pid \<notin> p_id ` set (products s) then Inl (NotFound ''product not found'')
     else rbind (validate_preset pid key None s) (\<lambda>_.
          rbind (parse_preset_value value_type default_raw) (\<lambda>v.
          let (i, s1) = fresh_id E s;
              f = \<lparr>f_id = i, f_product_id = pid, f_key = key, f_value_type = value_type,
                f_default_value = v, f_created_at = now s1\<rparr>
          in rbind (commit E (preset_event ''preset:created'' pid
               [(''key'', JStr key), (''value_type'', JStr value_type)] note
               (s1\<lparr>presets := presets s1 @ [f]\<rparr>))) (\<lambda>s'. Inr (f, s')))))"

definition update_preset ::
  "env \<Rightarrow> preset \<Rightarrow> string \<Rightarrow> string \<Rightarrow> string \<Rightarrow> string \<Rightarrow> session \<Rightarrow> (preset \<times> session) res" where
  "update_preset E f key value_type default_raw note s =
    (let key = strip key in
     if value_type \<notin> set value_types then Inl invalid_type
     else rbind (validate_preset (f_product_id f) key (Some (f_id f)) s) (\<lambda>_.
          rbind (parse_preset_value value_type default_raw) (\<lambda>v.
          let f' = f\<lparr>f_key := key, f_value_type := value_type, f_default_value := v\<rparr>
          in rbind (commit E (preset_event ''preset:updated'' (f_product_id f)
               [(''key'', JStr key), (''value_type'', JStr value_type)] note (put_preset f' s)))
               (\<lambda>s'. Inr (f', s')))))"

definition delete_preset_in_tx :: "string \<Rightarrow> preset \<Rightarrow> session \<Rightarrow> session" where
  "delete_preset_in_tx note f s =
     (preset_event ''preset:deleted'' (f_product_id f) [(''key'', JStr (f_key f))] note s)
       \<lparr>presets := delete_where (\<lambda>g. f_id g = f_id f) (presets s)\<rparr>"

definition delete_presets :: "env \<Rightarrow> preset list \<Rightarrow> string \<Rightarrow> session \<Rightarrow> (nat \<times> session) res" where
  "delete_presets E fs note s =
     rbind (commit E (fold (delete_preset_in_tx note) fs s)) (\<lambda>s'. Inr (length fs, s'))"

section \<open>Lemmas\<close>

text \<open>The shape a value must have at each declared type.\<close>

fun typed_value :: "string \<Rightarrow> json \<Rightarrow> bool" where
  "typed_value t (JBool b) \<longleftrightarrow> t = ''bool'' \<or> t = ''json''"
| "typed_value t (JInt n) \<longleftrightarrow> (t = ''number'' \<and> \<bar>n\<bar> < 2 ^ 1024 - 2 ^ 970) \<or> t = ''json''"
| "typed_value t (JFloat x) \<longleftrightarrow> (t = ''number'' \<and> float_finite x) \<or> t = ''json''"
| "typed_value t (JStr x) \<longleftrightarrow> t = ''string'' \<or> t = ''json''"
| "typed_value t j \<longleftrightarrow> t = ''json''"

lemma finite_number_typed: "finite_number j = Inr v \<Longrightarrow> v = j \<and> typed_value ''number'' v"
  by (cases j) (auto simp: finite_number_def split: if_splits)

lemma typed_json [simp]: "typed_value ''json'' j"
  by (cases j) simp_all

lemma parse_preset_typed: "parse_preset_value t raw = Inr v \<Longrightarrow> typed_value t v"
  by (auto simp: parse_preset_value_def rbind_Inr_iff Let_def dest: finite_number_typed split: if_splits)

lemma validate_preset_Inr: "validate_preset pid key ex s = Inr () \<longleftrightarrow> preset_key_ok key
    \<and> (\<forall>f \<in> set (presets s). f_product_id f = pid \<and> f_key f = key \<longrightarrow> truthy ex \<and> Some (f_id f) = ex)"
  by (auto simp: validate_preset_def list_ex_iff)

lemma preset_event_eq: "preset_event ty pid fs note s =
    s\<lparr>new_events := new_events s @ [\<lparr>e_license_id = None, e_product_id = pid, e_type = ty,
      e_payload = JDict (fs @ [(''scope'', JStr (if truthy pid then ''product'' else ''global''))]),
      e_note = Some note\<rparr>]\<rparr>"
  by (simp add: preset_event_def audit_def add_event_def)

lemma rows_ok_presets:
  assumes "rows_ok E s" and "\<And>f p. f \<in> set fs \<Longrightarrow> f_product_id f = Some p \<Longrightarrow> p \<in> p_id ` set (products s)"
  shows "rows_ok E (s\<lparr>presets := fs\<rparr>)"
  using assms by (simp add: rows_ok_def placed_def)

lemma create_preset_cases:
  assumes "create_preset E pid key vt raw note s = Inr (f, s')"
  obtains v k where "vt \<in> set value_types" "pid \<noteq> None \<longrightarrow> the pid \<in> p_id ` set (products s)"
    "preset_key_ok (strip key)" "\<forall>g \<in> set (presets s). \<not> (f_product_id g = pid \<and> f_key g = strip key)"
    "parse_preset_value vt raw = Inr v"
    "f = \<lparr>f_id = uuid4 E (n_uuid s), f_product_id = pid, f_key = strip key, f_value_type = vt,
       f_default_value = v, f_created_at = now s\<rparr>"
    "commit E (preset_event ''preset:created'' pid [(''key'', JStr (strip key)), (''value_type'', JStr vt)]
       note (s\<lparr>n_uuid := k, presets := presets s @ [f]\<rparr>)) = Inr s'"
  using assms unfolding create_preset_def
  by (auto simp: rbind_Inr_iff Let_def validate_preset_Inr fresh_id_def split: if_splits)

lemma create_preset_good:
  assumes "create_preset E pid key vt raw note s = Inr (f, s')" and "good E s"
  shows "good E s'"
  using assms(1)
proof (rule create_preset_cases)
  fix v k
  assume p: "pid \<noteq> None \<longrightarrow> the pid \<in> p_id ` set (products s)"
    and f: "f = \<lparr>f_id = uuid4 E (n_uuid s), f_product_id = pid, f_key = strip key, f_value_type = vt,
       f_default_value = v, f_created_at = now s\<rparr>"
    and c: "commit E (preset_event ''preset:created'' pid [(''key'', JStr (strip key)), (''value_type'', JStr vt)]
       note (s\<lparr>n_uuid := k, presets := presets s @ [f]\<rparr>)) = Inr s'"
  have "rows_ok E (s\<lparr>presets := presets s @ [f]\<rparr>)"
    using assms(2) p f by (intro rows_ok_presets) (auto simp: good_def rows_ok_def)
  then have "rows_ok E (s\<lparr>n_uuid := k, presets := presets s @ [f]\<rparr>)"
    by (simp add: rows_ok_def placed_def)
  then show ?thesis by (intro good_commit[OF c]) (simp add: preset_event_def table_simps)
qed

lemma update_preset_cases:
  assumes "update_preset E f key vt raw note s = Inr (g, s')"
  obtains v where "vt \<in> set value_types" "preset_key_ok (strip key)"
    "\<forall>h \<in> set (presets s). f_product_id h = f_product_id f \<and> f_key h = strip key \<longrightarrow> f_id h = f_id f"
    "parse_preset_value vt raw = Inr v"
    "g = f\<lparr>f_key := strip key, f_value_type := vt, f_default_value := v\<rparr>"
    "commit E (preset_event ''preset:updated'' (f_product_id f)
       [(''key'', JStr (strip key)), (''value_type'', JStr vt)] note (put_preset g s)) = Inr s'"
  using assms unfolding update_preset_def
  by (force simp: rbind_Inr_iff Let_def validate_preset_Inr split: if_splits)

lemma put_preset_fields [table_simps]:
  "licenses (put_preset p s) = licenses s" "customers (put_preset p s) = customers s"
  "products (put_preset p s) = products s" "installs (put_preset p s) = installs s"
  "deliveries (put_preset p s) = deliveries s" "events (put_preset p s) = events s"
  "new_events (put_preset p s) = new_events s" "tasks (put_preset p s) = tasks s"
  by (simp_all add: put_preset_def)

lemma update_preset_good:
  assumes "update_preset E f key vt raw note s = Inr (g, s')" and "good E s" and "f \<in> set (presets s)"
  shows "good E s'"
  using assms(1)
proof (rule update_preset_cases)
  fix v
  assume g: "g = f\<lparr>f_key := strip key, f_value_type := vt, f_default_value := v\<rparr>"
    and c: "commit E (preset_event ''preset:updated'' (f_product_id f)
       [(''key'', JStr (strip key)), (''value_type'', JStr vt)] note (put_preset g s)) = Inr s'"
  have "p \<in> p_id ` set (products s)" if h: "h \<in> set (presets (put_preset g s))" "f_product_id h = Some p" for h p
    using preset_store.put_only[OF h(1)] h(2) assms(2,3) g by (auto simp: good_def rows_ok_def)
  then have "rows_ok E (s\<lparr>presets := presets (put_preset g s)\<rparr>)"
    using assms(2) by (intro rows_ok_presets) (auto simp: good_def)
  then have "rows_ok E (put_preset g s)" by (simp add: put_preset_def)
  then show ?thesis by (intro good_commit[OF c]) (simp add: preset_event_def table_simps)
qed

lemma delete_preset_in_tx_fields:
  "products (delete_preset_in_tx note f s) = products s" "licenses (delete_preset_in_tx note f s) = licenses s"
  "customers (delete_preset_in_tx note f s) = customers s" "installs (delete_preset_in_tx note f s) = installs s"
  "deliveries (delete_preset_in_tx note f s) = deliveries s" "events (delete_preset_in_tx note f s) = events s"
  "presets (delete_preset_in_tx note f s) = filter (\<lambda>g. f_id g \<noteq> f_id f) (presets s)"
  by (simp_all add: delete_preset_in_tx_def preset_event_def delete_where_def audit_fields)

lemma fold_delete_presets:
  "presets (fold (delete_preset_in_tx note) fs s) = filter (\<lambda>g. f_id g \<notin> f_id ` set fs) (presets s)
   \<and> products (fold (delete_preset_in_tx note) fs s) = products s
   \<and> licenses (fold (delete_preset_in_tx note) fs s) = licenses s
   \<and> customers (fold (delete_preset_in_tx note) fs s) = customers s
   \<and> installs (fold (delete_preset_in_tx note) fs s) = installs s
   \<and> deliveries (fold (delete_preset_in_tx note) fs s) = deliveries s
   \<and> events (fold (delete_preset_in_tx note) fs s) = events s"
proof (induction fs arbitrary: s)
  case (Cons f fs)
  have "(\<lambda>g. f_id g \<noteq> f_id f \<and> f_id g \<notin> f_id ` set fs) = (\<lambda>g. f_id g \<notin> f_id ` set (f # fs))" by auto
  then show ?case by (simp add: Cons.IH delete_preset_in_tx_fields conj_commute)
qed simp

lemma delete_presets_good:
  assumes "delete_presets E fs note s = Inr (n, s')" and "good E s"
  shows "good E s'"
proof -
  have "rows_ok E (fold (delete_preset_in_tx note) fs s)"
    using assms(2) fold_delete_presets[of "note" fs s] by (auto simp: good_def rows_ok_def placed_def)
  with assms(1) show ?thesis by (auto simp: delete_presets_def rbind_Inr_iff intro: good_commit)
qed

text \<open>
  C34: whatever is accepted as a new preset has a well-formed key, a known type, a default
  value of that type, an existing product or none, and no other preset with its key in its
  scope; nothing but the preset, and one audit event, is added.
\<close>

theorem create_preset_typed:
  assumes "create_preset E pid key vt raw note s = Inr (f, s')"
  shows "presets s' = presets s @ [f] \<and> f_key f = strip key \<and> preset_key_ok (f_key f)
    \<and> f_value_type f = vt \<and> vt \<in> set value_types \<and> typed_value vt (f_default_value f)
    \<and> f_product_id f = pid \<and> (\<forall>p. pid = Some p \<longrightarrow> p \<in> p_id ` set (products s))
    \<and> (\<forall>g \<in> set (presets s). \<not> (f_product_id g = pid \<and> f_key g = f_key f))
    \<and> products s' = products s \<and> licenses s' = licenses s
    \<and> (\<exists>e. event_log s' = event_log s @ [e] \<and> e_type e = ''preset:created'' \<and> e_product_id e = pid)"
  using assms
proof (rule create_preset_cases)
  fix v k
  let ?s = "s\<lparr>n_uuid := k, presets := presets s @ [f]\<rparr>"
  assume a: "vt \<in> set value_types" "pid \<noteq> None \<longrightarrow> the pid \<in> p_id ` set (products s)"
    "preset_key_ok (strip key)" "\<forall>g \<in> set (presets s). \<not> (f_product_id g = pid \<and> f_key g = strip key)"
    and v: "parse_preset_value vt raw = Inr v"
    and f: "f = \<lparr>f_id = uuid4 E (n_uuid s), f_product_id = pid, f_key = strip key, f_value_type = vt,
       f_default_value = v, f_created_at = now s\<rparr>"
    and c: "commit E (preset_event ''preset:created'' pid [(''key'', JStr (strip key)), (''value_type'', JStr vt)]
       note ?s) = Inr s'"
  let ?t = "preset_event ''preset:created'' pid [(''key'', JStr (strip key)), (''value_type'', JStr vt)] note ?s"
  have s': "s' = flush_events E ?t" using c by (simp add: commit_Inr)
  have "presets s' = presets s @ [f]" "products s' = products s" "licenses s' = licenses s"
    unfolding s' by (simp_all add: table_simps preset_event_eq)
  moreover have "\<exists>e. event_log s' = event_log s @ [e] \<and> e_type e = ''preset:created'' \<and> e_product_id e = pid"
    unfolding s' table_simps by (simp add: event_log_def preset_event_eq)
  ultimately show ?thesis using a f parse_preset_typed[OF v] by auto
qed

text \<open>
  An edit changes the key, type and default value of the one preset, to values that
  satisfy the same rules, and never its scope.
\<close>

theorem update_preset_scope:
  assumes "update_preset E f key vt raw note s = Inr (g, s')" and "f \<in> set (presets s)"
  shows "g = f\<lparr>f_key := strip key, f_value_type := vt, f_default_value := f_default_value g\<rparr>
    \<and> typed_value vt (f_default_value g) \<and> vt \<in> set value_types \<and> preset_key_ok (f_key g)
    \<and> set (presets s') = insert g {h \<in> set (presets s). f_id h \<noteq> f_id f}
    \<and> licenses s' = licenses s"
  using assms(1)
proof (rule update_preset_cases)
  fix v
  assume a: "vt \<in> set value_types" "preset_key_ok (strip key)" "parse_preset_value vt raw = Inr v"
    and g: "g = f\<lparr>f_key := strip key, f_value_type := vt, f_default_value := v\<rparr>"
    and c: "commit E (preset_event ''preset:updated'' (f_product_id f)
       [(''key'', JStr (strip key)), (''value_type'', JStr vt)] note (put_preset g s)) = Inr s'"
  have p: "presets s' = presets (put_preset g s)" and l: "licenses s' = licenses s"
    using c by (auto simp: commit_Inr preset_event_eq table_simps)
  have "set (presets s') = insert g {h \<in> set (presets s). f_id h \<noteq> f_id f}"
    using preset_store.put_rows[OF assms(2), of g] g by (simp add: p)
  with a g l parse_preset_typed[OF a(3)] show ?thesis by simp
qed

definition sample_preset :: preset where
  "sample_preset = \<lparr>f_id = ''f1'', f_product_id = Some ''p1'', f_key = ''seats'',
     f_value_type = ''number'', f_default_value = JInt 5, f_created_at = now shop\<rparr>"

theorem create_preset_typed_witness:
  "\<exists>f s'. create_preset shop_env (Some ''p1'') ''seats'' ''number'' '' 12.5 '' ''n'' shop = Inr (f, s')
    \<and> typed_value ''number'' (f_default_value f) \<and> presets s' = presets shop @ [f]"
proof -
  have "\<exists>r. create_preset shop_env (Some ''p1'') ''seats'' ''number'' '' 12.5 '' ''n'' shop = Inr r"
    by (rule is_okE) code_simp
  then obtain f s' where "create_preset shop_env (Some ''p1'') ''seats'' ''number'' '' 12.5 '' ''n'' shop
      = Inr (f, s')" by force
  with create_preset_typed[OF this] show ?thesis by blast
qed

theorem update_preset_scope_witness:
  "\<exists>g s'. update_preset shop_env sample_preset ''flag'' ''bool'' ''YES'' ''n'' (shop\<lparr>presets := [sample_preset]\<rparr>)
      = Inr (g, s') \<and> typed_value ''bool'' (f_default_value g) \<and> f_product_id g = Some ''p1''"
proof -
  let ?s = "shop\<lparr>presets := [sample_preset]\<rparr>"
  have "\<exists>r. update_preset shop_env sample_preset ''flag'' ''bool'' ''YES'' ''n'' ?s = Inr r"
    by (rule is_okE) code_simp
  then obtain g s' where u: "update_preset shop_env sample_preset ''flag'' ''bool'' ''YES'' ''n'' ?s
      = Inr (g, s')" by force
  have "sample_preset \<in> set (presets ?s)" by simp
  from update_preset_scope[OF u this] have t: "typed_value ''bool'' (f_default_value g)"
    and "g = sample_preset\<lparr>f_key := strip ''flag'', f_value_type := ''bool'', f_default_value := f_default_value g\<rparr>"
    by blast+
  then have "f_product_id g = Some ''p1''"
    by (cases g) (simp add: sample_preset_def)
  with u t show ?thesis by blast
qed

end
