(* ===== verification/AdminUi.thy ===== *)
theory AdminUi
  imports Auth Customers Presets
begin

text \<open>
  The form handlers and pages of the administrator's interface
  (\<^verbatim>\<open>app/routers/admin_ui\<close>: products, licences, customers, presets, dashboard and webhook
  deliveries). Every handler checks the session, and every form its CSRF token, before it
  reads or changes anything; a service exception that the handler catches becomes a
  redirect with a whitelisted code, in the state before the call (nothing was committed,
  and the session is dropped with the request). The product of a licence always exists, so
  reading its slug before the service call, as some handlers here do, is reading it after.
\<close>

section \<open>Shared parts\<close>

fun is_not_found :: "exc \<Rightarrow> bool" where
  "is_not_found (NotFound m) = True" | "is_not_found e = False"

fun is_invalid :: "exc \<Rightarrow> bool" where
  "is_invalid (ValidationFailed m) = True" | "is_invalid e = False"

fun is_unsafe :: "exc \<Rightarrow> bool" where
  "is_unsafe (Unsafe m) = True" | "is_unsafe e = False"

fun is_conflict :: "exc \<Rightarrow> bool" where
  "is_conflict (Conflict m) = True" | "is_conflict e = False"

text \<open>\<open>except E as e: return h(e)\<close>, with the session as it was.\<close>

definition on_error :: "(exc \<Rightarrow> bool) \<Rightarrow> (exc \<Rightarrow> response) \<Rightarrow> session \<Rightarrow> (response \<times> session) res
    \<Rightarrow> (response \<times> session) res" where
  "on_error p h s r = (case r of Inl e \<Rightarrow> if p e then Inr (h e, s) else Inl e | Inr x \<Rightarrow> Inr x)"

definition http_404 :: exc where "http_404 = HTTPException 404 ''Not Found''"

definition or_404 :: "'a res \<Rightarrow> 'a res" where
  "or_404 r = (case r of Inl e \<Rightarrow> if is_not_found e then Inl http_404 else Inl e | Inr x \<Rightarrow> Inr x)"

definition license_or_404 :: "uid \<Rightarrow> session \<Rightarrow> license res" where
  "license_or_404 lid s = rbind (one_or_none (\<lambda>l. l_id l = lid) (licenses s)) (\<lambda>x. case x of
      None \<Rightarrow> Inl http_404 | Some l \<Rightarrow> Inr l)"

definition product_url :: "string \<Rightarrow> string \<Rightarrow> response" where
  "product_url slug query = redirect (''/admin/products/'' @ slug @ query)"

text \<open>Back to the page of the licence's product.\<close>

definition license_url :: "license \<Rightarrow> string \<Rightarrow> session \<Rightarrow> response res" where
  "license_url lic query s = rbind (attr (product_of s lic)) (\<lambda>p. Inr (product_url (p_slug p) query))"

text \<open>The guards and the licence of a licence form.\<close>

definition license_form :: "env \<Rightarrow> request \<Rightarrow> string \<Rightarrow> uid \<Rightarrow> session \<Rightarrow> license res" where
  "license_form E req csrf lid s = rbind (form_guard E (now s) req csrf) (\<lambda>_. license_or_404 lid s)"

text \<open>\<open>urllib.parse.quote\<close> on ASCII text.\<close>

definition url_quote :: "string \<Rightarrow> string" where
  "url_quote t = concat (map (\<lambda>c. if is_alpha c \<or> is_digit c \<or> c \<in> set ''_.-~/'' then [c]
     else [CHR ''%'', upper_char (hex_digit (code c div 16)), upper_char (hex_digit (code c mod 16))]) t)"

section \<open>Licences\<close>

definition license_issue ::
  "env \<Rightarrow> request \<Rightarrow> string \<Rightarrow> string \<Rightarrow> string \<Rightarrow> string \<Rightarrow> int \<Rightarrow> int \<Rightarrow> string \<Rightarrow> string \<Rightarrow> string \<Rightarrow> string
    \<Rightarrow> session \<Rightarrow> (response \<times> session) res" where
  "license_issue E req slug email customer_name plan max_users valid_days features_json webhook_url
      allow_http_webhook csrf s =
     rbind (form_guard E (now s) req csrf) (\<lambda>_.
     rbind (or_404 (get_product slug s)) (\<lambda>p.
     case parse_features features_json of
       Inl e \<Rightarrow> Inr (product_url slug ''?error=invalid+features+json'', s)
     | Inr features \<Rightarrow>
         on_error (\<lambda>e. is_invalid e \<or> is_unsafe e) (\<lambda>e. product_url slug (''?error='' @ err_code e)) s
           (rbind (issue_license E p email (Some customer_name) plan max_users valid_days features
               (or_none webhook_url) (allow_http_webhook = ''1'') None ''ui/issue'' True s) (\<lambda>((lic, cust), s1).
            Inr (product_url slug (''?issued='' @ l_id lic @ ''&key='' @ url_quote (l_key lic)), s1)))))"

definition license_edit ::
  "env \<Rightarrow> request \<Rightarrow> uid \<Rightarrow> string \<Rightarrow> int \<Rightarrow> string \<Rightarrow> string \<Rightarrow> string \<Rightarrow> string \<Rightarrow> string \<Rightarrow> string
    \<Rightarrow> session \<Rightarrow> (response \<times> session) res" where
  "license_edit E req lid plan max_users valid_until features_json webhook_url allow_http_webhook rotate_secret csrf s =
     rbind (license_form E req csrf lid s) (\<lambda>lic.
     rbind (attr (product_of s lic)) (\<lambda>p.
     on_error (\<lambda>e. is_invalid e \<or> is_unsafe e) (\<lambda>e. product_url (p_slug p) (''?error='' @ err_code e)) s
       (rbind (edit_license E lic plan max_users valid_until features_json webhook_url
           (Some (allow_http_webhook = ''1'')) (rotate_secret = ''1'') ''ui/edit'' Background s)
         (\<lambda>((changed, secret_changed), s1).
          Inr (product_url (p_slug p) ((if secret_changed \<and> strip webhook_url \<noteq> [] then ''?webhook_lid=''
              else ''?edited='') @ l_id lic), s1)))))"

definition license_webhook_update ::
  "env \<Rightarrow> request \<Rightarrow> uid \<Rightarrow> string \<Rightarrow> string \<Rightarrow> string \<Rightarrow> string \<Rightarrow> session \<Rightarrow> (response \<times> session) res" where
  "license_webhook_update E req lid webhook_url allow_http_webhook rotate_secret csrf s =
     rbind (license_form E req csrf lid s) (\<lambda>lic.
     rbind (attr (product_of s lic)) (\<lambda>p.
     on_error is_unsafe (\<lambda>e. product_url (p_slug p) (''?error='' @ err_code e)) s
       (rbind (configure_webhook E lic (or_none (strip webhook_url)) (rotate_secret = ''1'') True Admin
           (Some (allow_http_webhook = ''1'')) ''ui/webhook'' [] s) (\<lambda>s1.
        Inr (product_url (p_slug p) (''?webhook_lid='' @ l_id lic), s1)))))"

definition admin_api_webhook_set ::
  "env \<Rightarrow> request \<Rightarrow> uid \<Rightarrow> string \<Rightarrow> bool \<Rightarrow> bool option \<Rightarrow> session \<Rightarrow> (response \<times> session) res" where
  "admin_api_webhook_set E req license_id url rot allow_http s =
     rbind (require_admin E req) (\<lambda>_.
     rbind (one_or_none (\<lambda>l. l_id l = license_id) (licenses s)) (\<lambda>found. case found of
       None \<Rightarrow> Inl (HTTPException 404 ''license not found'')
     | Some lic \<Rightarrow>
         (case configure_webhook E lic (or_none (strip url)) rot False Admin allow_http ''api/webhook''
                 [(''rotated'', JBool rot)] s of
            Inl e \<Rightarrow> Inl (if is_unsafe e then HTTPException 400 (exc_text e) else e)
          | Inr s1 \<Rightarrow> rbind (license_or_404 license_id s1) (\<lambda>lic'.
              Inr (json_response (JDict [(''webhook_url'', jopt (l_webhook_url lic')),
                 (''webhook_secret'', jopt (l_webhook_secret lic'))]), s1)))))"

definition license_webhook_convert_to_self ::
  "env \<Rightarrow> request \<Rightarrow> uid \<Rightarrow> string \<Rightarrow> session \<Rightarrow> (response \<times> session) res" where
  "license_webhook_convert_to_self E req lid csrf s =
     rbind (license_form E req csrf lid s) (\<lambda>lic.
     rbind (attr (product_of s lic)) (\<lambda>p.
     on_error is_invalid (\<lambda>e. product_url (p_slug p) (''?error='' @ err_code e)) s
       (rbind (convert_webhook_to_self E lic ''ui/convert-to-self'' s) (\<lambda>s1.
        Inr (product_url (p_slug p) (''?webhook_lid='' @ l_id lic), s1)))))"

definition license_webhook_test ::
  "env \<Rightarrow> request \<Rightarrow> uid \<Rightarrow> string \<Rightarrow> session \<Rightarrow> (response \<times> session) res" where
  "license_webhook_test E req lid csrf s =
     rbind (license_form E req csrf lid s) (\<lambda>lic.
     rbind (attr (product_of s lic)) (\<lambda>p.
     on_error is_invalid (\<lambda>e. product_url (p_slug p) (''?error='' @ err_code e)) s
       (rbind (test_webhook E lic s) (\<lambda>((ok, status, err), s1).
        Inr (product_url (p_slug p) (''?webhook_test_lid='' @ l_id lic @ ''&webhook_test_ok='' @ (if ok then ''1'' else ''0'')
            @ ''&webhook_test_status='' @ (case status of Some n \<Rightarrow> if n = 0 then [] else show_int n | None \<Rightarrow> [])), s1)))))"

text \<open>Revoke, disable and enable share their handler but for the service call.\<close>

definition license_status_form ::
  "(env \<Rightarrow> license \<Rightarrow> string \<Rightarrow> schedule \<Rightarrow> session \<Rightarrow> session res) \<Rightarrow> string
    \<Rightarrow> env \<Rightarrow> request \<Rightarrow> uid \<Rightarrow> string \<Rightarrow> session \<Rightarrow> (response \<times> session) res" where
  "license_status_form svc note E req lid csrf s =
     rbind (license_form E req csrf lid s) (\<lambda>lic.
     rbind (svc E lic note Background s) (\<lambda>s1.
     rbind (license_url lic [] s1) (\<lambda>r. Inr (r, s1))))"

definition license_revoke :: "env \<Rightarrow> request \<Rightarrow> uid \<Rightarrow> string \<Rightarrow> session \<Rightarrow> (response \<times> session) res" where
  "license_revoke = license_status_form revoke_license ''ui/revoke''"

definition license_disable :: "env \<Rightarrow> request \<Rightarrow> uid \<Rightarrow> string \<Rightarrow> session \<Rightarrow> (response \<times> session) res" where
  "license_disable = license_status_form disable_license ''ui/disable''"

definition license_enable :: "env \<Rightarrow> request \<Rightarrow> uid \<Rightarrow> string \<Rightarrow> session \<Rightarrow> (response \<times> session) res" where
  "license_enable = license_status_form enable_license ''ui/enable''"

definition license_delete_one :: "env \<Rightarrow> request \<Rightarrow> uid \<Rightarrow> string \<Rightarrow> session \<Rightarrow> (response \<times> session) res" where
  "license_delete_one E req lid csrf s =
     rbind (license_form E req csrf lid s) (\<lambda>lic.
     rbind (license_url lic ''?deleted=1'' s) (\<lambda>r.
     rbind (delete_license E lic Background ''ui/delete'' s) (\<lambda>s1. Inr (r, s1))))"

definition licenses_bulk_delete ::
  "env \<Rightarrow> request \<Rightarrow> string \<Rightarrow> uid list \<Rightarrow> string \<Rightarrow> session \<Rightarrow> (response \<times> session) res" where
  "licenses_bulk_delete E req slug license_ids csrf s =
     rbind (form_guard E (now s) req csrf) (\<lambda>_.
     rbind (or_404 (get_product slug s)) (\<lambda>p.
     if license_ids = [] then Inr (product_url slug ''?error=no+licenses+selected'', s)
     else
       rbind (delete_licenses_bulk E
           (filter (\<lambda>l. l_product_id l = p_id p \<and> l_id l \<in> set license_ids) (licenses s))
           Background ''ui/bulk-delete'' s) (\<lambda>(snaps, s1).
       Inr (product_url slug (''?deleted='' @ show_nat (length snaps)), s1))))"

end
