(* ===== verification/AdminPages.thy ===== *)
theory AdminPages
  imports AdminUi
begin

text \<open>
  The remaining pages and forms of the administrator's interface: products, customers,
  presets, the dashboard, the event list and the webhook deliveries. A bulk deletion of
  products commits product by product, and an exception other than \<open>NotFound\<close> ends it there.
\<close>

section \<open>Products\<close>

definition products_list :: "env \<Rightarrow> request \<Rightarrow> session \<Rightarrow> response res" where
  "products_list E req s = rbind (require_login E (now s) req) (\<lambda>_.
     let pairs = list_products_with_counts s
     in Inr (show_page (ProductsPage (map fst pairs) (map (\<lambda>(p, n). (p_id p, n)) pairs))))"

definition product_create ::
  "env \<Rightarrow> request \<Rightarrow> string \<Rightarrow> string \<Rightarrow> string \<Rightarrow> string \<Rightarrow> string \<Rightarrow> string \<Rightarrow> session \<Rightarrow> (response \<times> session) res" where
  "product_create E req slug name key_prefix description jwt_issuer csrf s =
     rbind (form_guard E (now s) req csrf) (\<lambda>_.
     on_error (\<lambda>e. is_conflict e \<or> is_invalid e) (\<lambda>e. redirect (''/admin/products?error='' @ err_code e)) s
       (rbind (create_product E slug name key_prefix (or_none description) (or_none jwt_issuer) None None True s)
         (\<lambda>(p, s1). Inr (product_url slug [], s1))))"

definition product_edit ::
  "env \<Rightarrow> request \<Rightarrow> string \<Rightarrow> string \<Rightarrow> string \<Rightarrow> string \<Rightarrow> string \<Rightarrow> string \<Rightarrow> string \<Rightarrow> string
    \<Rightarrow> session \<Rightarrow> (response \<times> session) res" where
  "product_edit E req slug new_slug name key_prefix jwt_issuer description return_to csrf s =
     rbind (form_guard E (now s) req csrf) (\<lambda>_.
     let to_detail = (return_to = ''detail'') in
     or_404 (on_error (\<lambda>e. is_conflict e \<or> is_invalid e)
       (\<lambda>e. if to_detail then product_url slug (''?error='' @ err_code e)
            else redirect (''/admin/products?error='' @ err_code e)) s
       (rbind (update_product E slug (Set new_slug) (Set name) (Set key_prefix) (Set jwt_issuer) (Set description) s)
         (\<lambda>(p, s1). Inr (if to_detail then product_url (p_slug p) ''?product_edited=1''
            else redirect (''/admin/products?product_edited='' @ p_slug p), s1)))))"

definition deleted_url :: "nat \<Rightarrow> nat \<Rightarrow> response" where
  "deleted_url n m = redirect (''/admin?deleted_products='' @ show_nat n @ ''&deleted_licenses='' @ show_nat m)"

definition product_delete_one :: "env \<Rightarrow> request \<Rightarrow> string \<Rightarrow> string \<Rightarrow> session \<Rightarrow> (response \<times> session) res" where
  "product_delete_one E req slug csrf s =
     rbind (form_guard E (now s) req csrf) (\<lambda>_.
     or_404 (rbind (delete_product E slug Background s) (\<lambda>(n, s1). Inr (deleted_url 1 n, s1))))"

text \<open>A result beside the state it leaves: an exception does not undo the deletions committed before it.\<close>

fun delete_products :: "env \<Rightarrow> string list \<Rightarrow> nat \<Rightarrow> nat \<Rightarrow> session \<Rightarrow> (nat \<times> nat) res \<times> session" where
  "delete_products E [] n m s = (Inr (n, m), s)"
| "delete_products E (slug # slugs) n m s = (case delete_product E slug Background s of
      Inl e \<Rightarrow> if is_not_found e then delete_products E slugs n m s else (Inl e, s)
    | Inr (k, s1) \<Rightarrow> delete_products E slugs (Suc n) (m + k) s1)"

definition products_bulk_delete ::
  "env \<Rightarrow> request \<Rightarrow> string list \<Rightarrow> string \<Rightarrow> session \<Rightarrow> response res \<times> session" where
  "products_bulk_delete E req product_slugs csrf s =
    (case form_guard E (now s) req csrf of
       Inl e \<Rightarrow> (Inl e, s)
     | Inr _ \<Rightarrow> if product_slugs = [] then (Inr (redirect ''/admin?error=no+products+selected''), s)
         else (case delete_products E product_slugs 0 0 s of
             (Inl e, s1) \<Rightarrow> (Inl e, s1)
           | (Inr (n, m), s1) \<Rightarrow> (Inr (deleted_url n m), s1)))"

definition licenses_desc :: "product \<Rightarrow> session \<Rightarrow> license list" where
  "licenses_desc p s = order_by_desc (\<lambda>l. (l_created_at l, l_id l)) (product_licenses p s)"

definition license_cols :: "license \<Rightarrow> datetime \<times> uid" where
  "license_cols l = (l_created_at l, l_id l)"

definition license_page :: "product \<Rightarrow> string option \<Rightarrow> int \<Rightarrow> session \<Rightarrow> (license list \<times> string option) res" where
  "license_page p cursor limit s =
     paginate license_cols (\<lambda>l. Inr (license_cols l)) cursor (nat limit) (licenses_desc p s)"

definition product_detail :: "env \<Rightarrow> request \<Rightarrow> string \<Rightarrow> string option \<Rightarrow> session \<Rightarrow> response res" where
  "product_detail E req slug cursor s =
     rbind (require_login E (now s) req) (\<lambda>_.
     rbind (or_404 (get_product slug s)) (\<lambda>p.
     rbind (license_page p cursor DEFAULT_LIMIT s) (\<lambda>(items, next).
     Inr (show_page (ProductPage p items next (presets_for_product (p_id p) s))))))"

definition product_pubkey_download :: "env \<Rightarrow> request \<Rightarrow> string \<Rightarrow> session \<Rightarrow> response res" where
  "product_pubkey_download E req slug s =
     rbind (require_login E (now s) req) (\<lambda>_.
     rbind (or_404 (get_product slug s)) (\<lambda>p.
     Inr (attachment (slug @ ''_pub.pem'') (p_public_key_pem p))))"

section \<open>Customers\<close>

definition customers_list :: "env \<Rightarrow> request \<Rightarrow> string option \<Rightarrow> session \<Rightarrow> response res" where
  "customers_list E req cursor s =
     rbind (require_login E (now s) req) (\<lambda>_.
     rbind (list_customers_with_product_slugs cursor (Some (nat DEFAULT_LIMIT)) s) (\<lambda>(rows, next).
     Inr (show_page (CustomersPage (map fst rows) (map (\<lambda>(c, n, gs). (c_id c, gs)) rows)
       (map (\<lambda>(c, n, gs). (c_id c, n)) rows) next))))"

text \<open>
  SQL \<open>LIKE\<close> with the case folded: a percent sign matches any text, an underscore any one
  character, and a backslash (the escape of one engine only) stands for itself.
\<close>

fun like :: "string \<Rightarrow> string \<Rightarrow> bool" where
  "like [] t = (t = [])"
| "like (c # p) t = (if c = CHR ''%'' then like p t \<or> (case t of [] \<Rightarrow> False | _ # r \<Rightarrow> like (c # p) r)
     else (case t of [] \<Rightarrow> False | d # r \<Rightarrow> (c = CHR ''_'' \<or> c = d) \<and> like p r))"

definition ilike :: "string \<Rightarrow> string \<Rightarrow> bool" where
  "ilike t p = like (lower p) (lower t)"

definition customer_lookup :: "env \<Rightarrow> request \<Rightarrow> string \<Rightarrow> session \<Rightarrow> response res" where
  "customer_lookup E req email s =
     rbind (require_login E (now s) req) (\<lambda>_.
     if strip email = [] then Inr (json_response (JDict [(''exists'', JBool False)]))
     else rbind (one_or_none (\<lambda>c. ilike (c_email c) (strip email)) (customers s)) (\<lambda>found. case found of
         None \<Rightarrow> Inr (json_response (JDict [(''exists'', JBool False)]))
       | Some c \<Rightarrow> Inr (json_response (JDict [(''exists'', JBool True), (''id'', JStr (c_id c)),
           (''name'', JStr (case c_name c of Some n \<Rightarrow> n | None \<Rightarrow> []))]))))"

definition customer_edit ::
  "env \<Rightarrow> request \<Rightarrow> uid \<Rightarrow> string \<Rightarrow> string \<Rightarrow> string \<Rightarrow> string \<Rightarrow> session \<Rightarrow> (response \<times> session) res" where
  "customer_edit E req cid name email stripe_customer_id csrf s =
     rbind (form_guard E (now s) req csrf) (\<lambda>_.
     or_404 (on_error (\<lambda>e. is_conflict e \<or> is_invalid e) (\<lambda>e. redirect (''/admin/customers?error='' @ err_code e)) s
       (rbind (edit_customer E cid email name stripe_customer_id ''ui/customer-edit'' s) (\<lambda>(c, s1).
        Inr (redirect (''/admin/customers?edited='' @ c_id c), s1)))))"

section \<open>Presets\<close>

definition presets_url :: "string \<Rightarrow> response" where
  "presets_url query = redirect (''/admin/presets'' @ query)"

definition presets_page :: "env \<Rightarrow> request \<Rightarrow> session \<Rightarrow> response res" where
  "presets_page E req s = rbind (require_login E (now s) req) (\<lambda>_.
     Inr (show_page (PresetsPage (list_presets s) (sort_key p_slug (products s)))))"

definition preset_create ::
  "env \<Rightarrow> request \<Rightarrow> string \<Rightarrow> string \<Rightarrow> string \<Rightarrow> string \<Rightarrow> string \<Rightarrow> session \<Rightarrow> (response \<times> session) res" where
  "preset_create E req pid key value_type default_value csrf s =
     rbind (form_guard E (now s) req csrf) (\<lambda>_.
     or_404 (on_error (\<lambda>e. is_invalid e \<or> is_conflict e) (\<lambda>e. presets_url (''?error='' @ err_code e)) s
       (rbind (create_preset E (or_none (strip pid)) key value_type default_value ''ui/preset-create'' s)
         (\<lambda>(f, s1). Inr (presets_url ''?created=1'', s1)))))"

definition find_preset :: "uid \<Rightarrow> session \<Rightarrow> preset res" where
  "find_preset pid s = (case find (\<lambda>f. f_id f = pid) (presets s) of None \<Rightarrow> Inl http_404 | Some f \<Rightarrow> Inr f)"

definition preset_edit ::
  "env \<Rightarrow> request \<Rightarrow> uid \<Rightarrow> string \<Rightarrow> string \<Rightarrow> string \<Rightarrow> string \<Rightarrow> session \<Rightarrow> (response \<times> session) res" where
  "preset_edit E req pid key value_type default_value csrf s =
     rbind (form_guard E (now s) req csrf) (\<lambda>_.
     rbind (find_preset pid s) (\<lambda>f.
     on_error (\<lambda>e. is_invalid e \<or> is_conflict e) (\<lambda>e. presets_url (''?error='' @ err_code e)) s
       (rbind (update_preset E f key value_type default_value ''ui/preset-edit'' s)
         (\<lambda>(g, s1). Inr (presets_url ''?edited=1'', s1)))))"

definition preset_delete_one :: "env \<Rightarrow> request \<Rightarrow> uid \<Rightarrow> string \<Rightarrow> session \<Rightarrow> (response \<times> session) res" where
  "preset_delete_one E req pid csrf s =
     rbind (form_guard E (now s) req csrf) (\<lambda>_.
     rbind (find_preset pid s) (\<lambda>f.
     rbind (delete_presets E [f] ''ui/preset-delete'' s) (\<lambda>(n, s1). Inr (presets_url ''?deleted=1'', s1))))"

definition presets_bulk_delete :: "env \<Rightarrow> request \<Rightarrow> uid list \<Rightarrow> string \<Rightarrow> session \<Rightarrow> (response \<times> session) res" where
  "presets_bulk_delete E req preset_ids csrf s =
     rbind (form_guard E (now s) req csrf) (\<lambda>_.
     if preset_ids = [] then Inr (presets_url ''?error=no+presets+selected'', s)
     else rbind (delete_presets E (filter (\<lambda>f. f_id f \<in> set preset_ids) (presets s)) ''ui/preset-bulk-delete'' s)
       (\<lambda>(n, s1). Inr (presets_url (''?deleted='' @ show_nat n), s1)))"

section \<open>Dashboard, events and deliveries\<close>

definition recent_events :: "nat \<Rightarrow> session \<Rightarrow> event list" where
  "recent_events n s = take n (order_by_desc e_created_at (events s))"

definition dashboard :: "env \<Rightarrow> request \<Rightarrow> session \<Rightarrow> response res" where
  "dashboard E req s = rbind (require_login E (now s) req) (\<lambda>_.
     Inr (show_page (DashboardPage (length (products s)) (length (customers s)) (length (licenses s))
       (length (filter (\<lambda>l. l_status l = Active) (licenses s))) (recent_events 20 s))))"

definition events_list :: "env \<Rightarrow> request \<Rightarrow> session \<Rightarrow> response res" where
  "events_list E req s = rbind (require_login E (now s) req) (\<lambda>_. Inr (show_page (EventsPage (recent_events 500 s))))"

definition status_of_text :: "string \<Rightarrow> delivery_status option" where
  "status_of_text t = map_of [(''pending'', delivery_status.Pending), (''delivered'', Delivered), (''abandoned'', Abandoned)] t"

definition list_deliveries :: "env \<Rightarrow> request \<Rightarrow> string option \<Rightarrow> session \<Rightarrow> response res" where
  "list_deliveries E req status s = rbind (require_login E (now s) req) (\<lambda>_.
     let flt = (case status of None \<Rightarrow> None | Some t \<Rightarrow> map_option (\<lambda>st. (t, st)) (status_of_text t));
         rows = take 200 (filter (\<lambda>d. case flt of None \<Rightarrow> True | Some (t, st) \<Rightarrow> d_status d = st)
                  (order_by_desc d_created_at (deliveries s)));
         counts = map (\<lambda>t. (t, length (filter (\<lambda>d. Some (d_status d) = status_of_text t) (deliveries s))))
                    [''pending'', ''delivered'', ''abandoned''];
         configured = order_by_desc l_created_at (filter (\<lambda>l. l_webhook_url l \<noteq> None) (licenses s))
     in Inr (show_page (DeliveriesPage rows counts (map_option fst flt) configured (now s))))"

definition delivery_retry :: "env \<Rightarrow> request \<Rightarrow> uid \<Rightarrow> string \<Rightarrow> session \<Rightarrow> (response \<times> session) res" where
  "delivery_retry E req delivery_id csrf s =
     rbind (form_guard E (now s) req csrf) (\<lambda>_.
     rbind (retry_delivery E delivery_id s) (\<lambda>(url, s1). Inr (redirect url, s1)))"

end
