(* ===== verification/Api.thy ===== *)
theory Api
  imports AdminPages Check
begin

text \<open>
  The programmatic interface of \<^verbatim>\<open>app/routers/api.py\<close> beside \<open>/v1/check\<close> (theory \<open>Check\<close>): the
  public key of a product, and the administrator's endpoints, which a bearer token guards
  before anything is read. A response whose fields are fixed is a record; the display form
  of a key is not ASCII, so that a licence item is not a value of the JSON model.
\<close>

section \<open>Products\<close>

definition product_or_404 :: "string \<Rightarrow> session \<Rightarrow> product res" where
  "product_or_404 slug s = (case get_product slug s of
      Inl e \<Rightarrow> Inl (if is_not_found e then HTTPException 404 ''product not found'' else e)
    | Inr p \<Rightarrow> Inr p)"

definition get_pubkey :: "string \<Rightarrow> session \<Rightarrow> string res" where
  "get_pubkey slug s = rbind (product_or_404 slug s) (\<lambda>p. Inr (p_public_key_pem p))"

record product_out =
  po_id :: uid
  po_slug :: string
  po_name :: string
  po_public_key_pem :: string
  po_private_key_warning :: string

definition private_key_warning :: string where
  "private_key_warning = ''Private key stored server-side; back up the database to back it up.''"

definition admin_create_product ::
  "env \<Rightarrow> request \<Rightarrow> string \<Rightarrow> string \<Rightarrow> string \<Rightarrow> string option \<Rightarrow> string option \<Rightarrow> string option
    \<Rightarrow> string option \<Rightarrow> session \<Rightarrow> (product_out \<times> session) res" where
  "admin_create_product E req slug name key_prefix description jwt_issuer swh_secret s_api_key s =
     rbind (require_admin E req) (\<lambda>_.
     case create_product E slug name key_prefix description jwt_issuer swh_secret s_api_key True s of
       Inl e \<Rightarrow> Inl (if is_invalid e then HTTPException 400 (exc_text e)
          else if is_conflict e then HTTPException 409 (exc_text e) else e)
     | Inr (p, s1) \<Rightarrow> Inr (\<lparr>po_id = p_id p, po_slug = p_slug p, po_name = p_name p,
          po_public_key_pem = p_public_key_pem p, po_private_key_warning = private_key_warning\<rparr>, s1))"

definition admin_list_products :: "env \<Rightarrow> request \<Rightarrow> session \<Rightarrow> response res" where
  "admin_list_products E req s = rbind (require_admin E req) (\<lambda>_.
     Inr (json_response (JList (map (\<lambda>(p, n). JDict [(''id'', JStr (p_id p)), (''slug'', JStr (p_slug p)),
       (''name'', JStr (p_name p)), (''key_prefix'', JStr (p_key_prefix p)), (''license_count'', JInt (int n)),
       (''created_at'', JStr (isoformat (p_created_at p)))]) (list_products_with_counts s)))))"

definition admin_get_product :: "env \<Rightarrow> request \<Rightarrow> string \<Rightarrow> session \<Rightarrow> response res" where
  "admin_get_product E req slug s = rbind (require_admin E req) (\<lambda>_.
     rbind (product_or_404 slug s) (\<lambda>p.
     Inr (json_response (JDict [(''id'', JStr (p_id p)), (''slug'', JStr (p_slug p)), (''name'', JStr (p_name p)),
       (''description'', jopt (p_description p)), (''key_prefix'', JStr (p_key_prefix p)),
       (''jwt_issuer'', JStr (p_jwt_issuer p)), (''public_key_pem'', JStr (p_public_key_pem p)),
       (''stripe_webhook_configured'', JBool (truthy (p_stripe_webhook_secret p))),
       (''license_count'', JInt (int (license_count s (p_id p)))),
       (''created_at'', JStr (isoformat (p_created_at p)))]))))"

section \<open>Licences\<close>

record issue_out =
  io_license_id :: uid
  io_key :: string
  io_valid_until :: datetime
  io_product :: string

text \<open>No service exception is caught here: the application's handler maps it.\<close>

definition admin_issue ::
  "env \<Rightarrow> request \<Rightarrow> string \<Rightarrow> string \<Rightarrow> string option \<Rightarrow> string \<Rightarrow> int \<Rightarrow> json \<Rightarrow> int \<Rightarrow> string option \<Rightarrow> bool
    \<Rightarrow> string option \<Rightarrow> session \<Rightarrow> (issue_out \<times> session) res" where
  "admin_issue E req slug email name plan max_users features valid_days webhook_url allow_http sid s =
     rbind (require_admin E req) (\<lambda>_.
     rbind (product_or_404 slug s) (\<lambda>p.
     rbind (issue_license E p email name plan max_users valid_days features webhook_url allow_http sid
         ''admin/issue'' True s) (\<lambda>((lic, cust), s1).
     Inr (\<lparr>io_license_id = l_id lic, io_key = l_key lic, io_valid_until = l_valid_until lic,
       io_product = p_slug p\<rparr>, s1))))"

record license_item =
  li_id :: uid
  li_key :: "glyph list"
  li_plan :: string
  li_status :: string
  li_max_users :: int
  li_features :: json
  li_valid_until :: string
  li_customer :: string
  li_customer_name :: "string option"
  li_created_at :: string
  li_webhook_url :: "string option"
  li_webhook_url_source :: url_source
  li_has_webhook_secret :: bool
  li_allow_http_webhook :: bool

definition license_row :: "session \<Rightarrow> license \<Rightarrow> license_item res" where
  "license_row s r = rbind (attr (customer_of s r)) (\<lambda>c.
     Inr \<lparr>li_id = l_id r, li_key = l_key_display r, li_plan = l_plan r, li_status = status_text (l_status r),
       li_max_users = l_max_users r, li_features = l_features r, li_valid_until = isoformat (l_valid_until r),
       li_customer = c_email c, li_customer_name = c_name c, li_created_at = isoformat (l_created_at r),
       li_webhook_url = l_webhook_url r, li_webhook_url_source = l_webhook_url_source r,
       li_has_webhook_secret = truthy (l_webhook_secret r), li_allow_http_webhook = l_allow_http_webhook r\<rparr>)"

fun map_res :: "('a \<Rightarrow> 'b res) \<Rightarrow> 'a list \<Rightarrow> 'b list res" where
  "map_res f [] = Inr []"
| "map_res f (x # xs) = rbind (f x) (\<lambda>y. rbind (map_res f xs) (\<lambda>ys. Inr (y # ys)))"

definition admin_list_licenses ::
  "env \<Rightarrow> request \<Rightarrow> string \<Rightarrow> string option \<Rightarrow> raw_limit \<Rightarrow> session \<Rightarrow> (license_item list \<times> string option) res" where
  "admin_list_licenses E req slug cursor limit s =
     rbind (require_admin E req) (\<lambda>_.
     rbind (product_or_404 slug s) (\<lambda>p.
     rbind (license_page p cursor (clamp_limit limit) s) (\<lambda>(items, next).
     rbind (map_res (license_row s) items) (\<lambda>rows. Inr (rows, next)))))"

definition admin_revoke :: "env \<Rightarrow> request \<Rightarrow> uid \<Rightarrow> session \<Rightarrow> (response \<times> session) res" where
  "admin_revoke E req lid s =
     rbind (require_admin E req) (\<lambda>_.
     rbind (one_or_none (\<lambda>l. l_id l = lid) (licenses s)) (\<lambda>found. case found of
       None \<Rightarrow> Inl (HTTPException 404 ''license not found'')
     | Some lic \<Rightarrow> rbind (revoke_license E lic ''admin/revoke'' Sync s) (\<lambda>s1.
         rbind (license_or_404 lid s1) (\<lambda>lic'.
         Inr (json_response (JDict [(''id'', JStr (l_id lic')), (''status'', JStr (status_text (l_status lic')))]), s1)))))"

definition admin_customers :: "env \<Rightarrow> request \<Rightarrow> string option \<Rightarrow> raw_limit \<Rightarrow> session \<Rightarrow> response res" where
  "admin_customers E req cursor limit s =
     rbind (require_admin E req) (\<lambda>_.
     rbind (page_customers_with_counts cursor (nat (clamp_limit limit)) s) (\<lambda>(items, next).
     Inr (json_response (JDict [
       (''items'', JList (map (\<lambda>(c, n). JDict [(''id'', JStr (c_id c)), (''email'', JStr (c_email c)),
          (''name'', jopt (c_name c)), (''stripe_customer_id'', jopt (c_stripe_customer_id c)),
          (''license_count'', JInt (int n)), (''created_at'', JStr (isoformat (c_created_at c)))]) items)),
       (''next_cursor'', jopt next)]))))"

end
