(* ===== verification/Archive.thy ===== *)
theory Archive
  imports Api
begin

text \<open>
  The backup archive (\<^verbatim>\<open>app/backup.py\<close>): a compressed set of files, one with a manifest and
  one per table with a JSON object per row, encrypted under a key derived from the key
  encryption key when there is one. The archive format and the cipher are parameters; the
  JSON text is the program's own. The ellipsis of a displayed key, which the character type
  lacks, is written as the character of code 133, so that file has \<open>\u0085\<close> where the
  program's has \<open>\u2026\<close>. An insert that meets a value of another type than its column's
  fails here, where one engine would store it as it is.
\<close>

section \<open>Encryption\<close>

definition FORMAT_NAME :: string where "FORMAT_NAME = ''yg-license-server-backup''"
definition FORMAT_VERSION :: int where "FORMAT_VERSION = 1"
definition ENCRYPTED_MAGIC :: string where "ENCRYPTED_MAGIC = ''YGLSBAK1''"
definition GZIP_MAGIC :: string where "GZIP_MAGIC = [CHR 0x1F, CHR 0x8B]"
definition APP_VERSION :: string where "APP_VERSION = ''1.4.8''"

text \<open>The derived key: \<open>backup_key_of\<close> stands for HKDF with the backup's info string.\<close>

definition backup_fernet :: "env \<Rightarrow> string option" where
  "backup_fernet E = (let kek = key_encryption_key (cfg E) in if kek = [] then None else Some (backup_key_of E kek))"

definition wrap :: "env \<Rightarrow> nat \<Rightarrow> string \<Rightarrow> string \<times> bool" where
  "wrap E n raw_targz = (case backup_fernet E of
      None \<Rightarrow> (raw_targz, False)
    | Some f \<Rightarrow> (ENCRYPTED_MAGIC @ fernet_encrypt E f n raw_targz, True))"

definition unwrap :: "env \<Rightarrow> string \<Rightarrow> string res" where
  "unwrap E data = (if starts_with ENCRYPTED_MAGIC data then
       (case backup_fernet E of
          None \<Rightarrow> Inl (ValidationFailed ''backup encrypted but no kek'')
        | Some f \<Rightarrow> (case fernet_decrypt E f (drop (length ENCRYPTED_MAGIC) data) of
            None \<Rightarrow> Inl (ValidationFailed ''backup decrypt failed'')
          | Some raw \<Rightarrow> Inr raw))
     else if starts_with GZIP_MAGIC data then Inr data
     else Inl (ValidationFailed ''not a recognized backup file''))"

section \<open>Rows as columns\<close>

text \<open>A column value: an instant, or a value that JSON writes as it is.\<close>

datatype cell = Time datetime | Cell json

type_synonym row = "(string \<times> cell) list"

text \<open>\<open>Base.metadata\<close>: the columns of each table, with whether they hold an instant.\<close>

definition product_columns :: "(string \<times> bool) list" where
  "product_columns = [(''id'', False), (''slug'', False), (''name'', False), (''description'', False),
     (''public_key_pem'', False), (''private_key_pem'', False), (''key_prefix'', False),
     (''stripe_webhook_secret'', False), (''stripe_api_key'', False), (''jwt_issuer'', False), (''created_at'', True)]"

definition customer_columns :: "(string \<times> bool) list" where
  "customer_columns = [(''id'', False), (''stripe_customer_id'', False), (''email'', False), (''name'', False),
     (''created_at'', True)]"

definition license_columns :: "(string \<times> bool) list" where
  "license_columns = [(''id'', False), (''product_id'', False), (''customer_id'', False), (''key'', False),
     (''plan'', False), (''max_users'', False), (''features'', False), (''valid_until'', True), (''status'', False),
     (''created_at'', True), (''webhook_url'', False), (''webhook_secret'', False), (''webhook_url_source'', False),
     (''allow_http_webhook'', False), (''key_hash'', False), (''key_display'', False)]"

definition preset_columns :: "(string \<times> bool) list" where
  "preset_columns = [(''id'', False), (''product_id'', False), (''key'', False), (''value_type'', False),
     (''default_value'', False), (''created_at'', True)]"

definition install_columns :: "(string \<times> bool) list" where
  "install_columns = [(''id'', False), (''license_id'', False), (''install_id'', False), (''version'', False),
     (''last_seen_at'', True), (''ip_addr_hash'', False)]"

definition event_columns :: "(string \<times> bool) list" where
  "event_columns = [(''id'', False), (''license_id'', False), (''product_id'', False), (''subject_kind'', False),
     (''subject_id'', False), (''type'', False), (''payload'', False), (''created_at'', True), (''note'', False)]"

definition delivery_columns :: "(string \<times> bool) list" where
  "delivery_columns = [(''id'', False), (''license_id'', False), (''product_id'', False), (''url'', False),
     (''secret'', False), (''event_type'', False), (''payload_json'', False), (''attempts'', False), (''status'', False),
     (''next_attempt_at'', True), (''last_attempt_at'', True), (''delivered_at'', True), (''last_error'', False),
     (''response_status'', False), (''response_excerpt'', False), (''created_at'', True)]"

definition stripe_columns :: "(string \<times> bool) list" where
  "stripe_columns = [(''id'', False), (''product_id'', False), (''type'', False), (''processed_at'', True)]"

definition mfa_columns :: "(string \<times> bool) list" where
  "mfa_columns = [(''id'', False), (''enabled'', False), (''secret_encrypted'', False),
     (''recovery_codes_hashed'', False), (''created_at'', True), (''last_used_at'', True)]"

definition jnull_or :: "('a \<Rightarrow> json) \<Rightarrow> 'a option \<Rightarrow> cell" where
  "jnull_or f x = (case x of None \<Rightarrow> Cell JNull | Some y \<Rightarrow> Cell (f y))"

definition opt_time :: "datetime option \<Rightarrow> cell" where
  "opt_time x = (case x of None \<Rightarrow> Cell JNull | Some t \<Rightarrow> Time t)"

abbreviation str :: "string \<Rightarrow> cell" where "str t \<equiv> Cell (JStr t)"
abbreviation opt_str :: "string option \<Rightarrow> cell" where "opt_str x \<equiv> jnull_or JStr x"

definition display_text :: "glyph list \<Rightarrow> string" where
  "display_text gs = map (\<lambda>g. case g of Ch c \<Rightarrow> c | Ellipsis \<Rightarrow> CHR 0x85) gs"

definition display_of :: "string \<Rightarrow> glyph list" where
  "display_of t = map (\<lambda>c. if c = CHR 0x85 then Ellipsis else Ch c) t"

definition source_text :: "url_source \<Rightarrow> string" where
  "source_text u = (case u of Admin \<Rightarrow> ''admin'' | Self \<Rightarrow> ''self'')"

definition delivery_text :: "delivery_status \<Rightarrow> string" where
  "delivery_text st = (case st of delivery_status.Pending \<Rightarrow> ''pending'' | Delivered \<Rightarrow> ''delivered'' | Abandoned \<Rightarrow> ''abandoned'')"

text \<open>A row as \<open>db.execute(table.select()).mappings()\<close> gives it.\<close>

definition product_cells :: "product \<Rightarrow> row" where
  "product_cells p = [(''id'', str (p_id p)), (''slug'', str (p_slug p)), (''name'', str (p_name p)),
     (''description'', opt_str (p_description p)), (''public_key_pem'', str (p_public_key_pem p)),
     (''private_key_pem'', str (p_private_key_pem p)), (''key_prefix'', str (p_key_prefix p)),
     (''stripe_webhook_secret'', opt_str (p_stripe_webhook_secret p)), (''stripe_api_key'', opt_str (p_stripe_api_key p)),
     (''jwt_issuer'', str (p_jwt_issuer p)), (''created_at'', Time (p_created_at p))]"

definition customer_cells :: "customer \<Rightarrow> row" where
  "customer_cells c = [(''id'', str (c_id c)), (''stripe_customer_id'', opt_str (c_stripe_customer_id c)),
     (''email'', str (c_email c)), (''name'', opt_str (c_name c)), (''created_at'', Time (c_created_at c))]"

definition license_cells :: "license \<Rightarrow> row" where
  "license_cells l = [(''id'', str (l_id l)), (''product_id'', str (l_product_id l)), (''customer_id'', str (l_customer_id l)),
     (''key'', str (l_key l)), (''plan'', str (l_plan l)), (''max_users'', Cell (JInt (l_max_users l))),
     (''features'', Cell (l_features l)), (''valid_until'', Time (l_valid_until l)), (''status'', str (status_text (l_status l))),
     (''created_at'', Time (l_created_at l)), (''webhook_url'', opt_str (l_webhook_url l)),
     (''webhook_secret'', opt_str (l_webhook_secret l)), (''webhook_url_source'', str (source_text (l_webhook_url_source l))),
     (''allow_http_webhook'', Cell (JInt (if l_allow_http_webhook l then 1 else 0))), (''key_hash'', str (l_key_hash l)),
     (''key_display'', str (display_text (l_key_display l)))]"

definition preset_cells :: "preset \<Rightarrow> row" where
  "preset_cells f = [(''id'', str (f_id f)), (''product_id'', opt_str (f_product_id f)), (''key'', str (f_key f)),
     (''value_type'', str (f_value_type f)), (''default_value'', Cell (f_default_value f)), (''created_at'', Time (f_created_at f))]"

definition install_cells :: "install \<Rightarrow> row" where
  "install_cells i = [(''id'', str (i_id i)), (''license_id'', str (i_license_id i)), (''install_id'', str (i_install_id i)),
     (''version'', str (i_version i)), (''last_seen_at'', Time (i_last_seen_at i)), (''ip_addr_hash'', opt_str (i_ip_addr_hash i))]"

definition event_cells :: "event \<Rightarrow> row" where
  "event_cells e = [(''id'', str (e_id e)), (''license_id'', opt_str (e_license_id e)), (''product_id'', opt_str (e_product_id e)),
     (''subject_kind'', opt_str (e_subject_kind e)), (''subject_id'', opt_str (e_subject_id e)), (''type'', str (e_type e)),
     (''payload'', Cell (e_payload e)), (''created_at'', Time (e_created_at e)), (''note'', opt_str (e_note e))]"

definition delivery_cells :: "delivery \<Rightarrow> row" where
  "delivery_cells d = [(''id'', str (d_id d)), (''license_id'', opt_str (d_license_id d)), (''product_id'', opt_str (d_product_id d)),
     (''url'', str (d_url d)), (''secret'', str (d_secret d)), (''event_type'', str (d_event_type d)),
     (''payload_json'', str (d_payload_json d)), (''attempts'', Cell (JInt (int (d_attempts d)))),
     (''status'', str (delivery_text (d_status d))), (''next_attempt_at'', Time (d_next_attempt_at d)),
     (''last_attempt_at'', opt_time (d_last_attempt_at d)), (''delivered_at'', opt_time (d_delivered_at d)),
     (''last_error'', opt_str (d_last_error d)), (''response_status'', jnull_or JInt (d_response_status d)),
     (''response_excerpt'', opt_str (d_response_excerpt d)), (''created_at'', Time (d_created_at d))]"

definition stripe_cells :: "stripe_event \<Rightarrow> row" where
  "stripe_cells x = [(''id'', str (se_id x)), (''product_id'', opt_str (se_product_id x)), (''type'', str (se_type x)),
     (''processed_at'', Time (se_processed_at x))]"

definition mfa_cells :: "admin_mfa \<Rightarrow> row" where
  "mfa_cells m = [(''id'', Cell (JInt 1)), (''enabled'', Cell (JInt (if m_enabled m then 1 else 0))),
     (''secret_encrypted'', opt_str (m_secret_encrypted m)), (''recovery_codes_hashed'', opt_str (m_recovery_codes_hashed m)),
     (''created_at'', Time (m_created_at m)), (''last_used_at'', opt_time (m_last_used_at m))]"

text \<open>\<open>Base.metadata.sorted_tables\<close>: a table comes after the tables it refers to.\<close>

definition sorted_tables :: "(string \<times> (string \<times> bool) list) list" where
  "sorted_tables = [(''admin_mfa'', mfa_columns), (''customers'', customer_columns), (''products'', product_columns),
     (''feature_presets'', preset_columns), (''licenses'', license_columns), (''processed_stripe_events'', stripe_columns),
     (''events'', event_columns), (''installs'', install_columns), (''webhook_deliveries'', delivery_columns)]"

definition table_rows :: "'a tables_scheme \<Rightarrow> string \<Rightarrow> row list" where
  "table_rows t name = (case map_of [
     (''admin_mfa'', map mfa_cells (opt_list (mfa_row t))), (''customers'', map customer_cells (customers t)),
     (''products'', map product_cells (products t)), (''feature_presets'', map preset_cells (presets t)),
     (''licenses'', map license_cells (licenses t)), (''processed_stripe_events'', map stripe_cells (stripe_events t)),
     (''events'', map event_cells (events t)), (''installs'', map install_cells (installs t)),
     (''webhook_deliveries'', map delivery_cells (deliveries t))] name of Some rows \<Rightarrow> rows | None \<Rightarrow> [])"

section \<open>Export\<close>

fun encode_value :: "cell \<Rightarrow> json" where
  "encode_value (Time t) = JStr (isoformat t)"
| "encode_value (Cell j) = j"

definition row_line :: "row \<Rightarrow> string" where
  "row_line r = dumps_default (JDict (map (\<lambda>(k, v). (k, encode_value v)) r))"

definition table_file :: "string \<Rightarrow> string" where
  "table_file name = ''tables/'' @ name @ ''.jsonl''"

text \<open>\<open>json.dumps(v, indent=2)\<close>; the first argument is the depth.\<close>

definition indent :: "nat \<Rightarrow> string" where
  "indent n = newline # replicate (2 * n) CHR '' ''"

fun dumps_indent :: "nat \<Rightarrow> json \<Rightarrow> string"
  and indent_items :: "nat \<Rightarrow> json list \<Rightarrow> string"
  and indent_pairs :: "nat \<Rightarrow> (string \<times> json) list \<Rightarrow> string"
where
  "dumps_indent n (JList xs) = (if xs = [] then ''[]'' else CHR ''['' # indent_items (Suc n) xs @ indent n @ '']'')"
| "dumps_indent n (JDict ps) = (if ps = [] then ''{}'' else CHR ''{'' # indent_pairs (Suc n) ps @ indent n @ ''}'')"
| "dumps_indent n j = dumps_default j"
| "indent_items n [] = []"
| "indent_items n (x # xs) = indent n @ dumps_indent n x @ (if xs = [] then [] else '','' @ indent_items n xs)"
| "indent_pairs n [] = []"
| "indent_pairs n (p # ps) = indent n @ dump_str (fst p) @ '': '' @ dumps_indent n (snd p)
     @ (if ps = [] then [] else '','' @ indent_pairs n ps)"

definition utc_iso :: "datetime \<Rightarrow> string" where
  "utc_iso t = isoformat t @ ''+00:00''"

definition manifest_of :: "string option \<Rightarrow> session \<Rightarrow> json" where
  "manifest_of rv s = JDict [(''format'', JStr FORMAT_NAME), (''format_version'', JInt FORMAT_VERSION),
     (''app_version'', JStr APP_VERSION), (''alembic_version'', jopt rv), (''created_at'', JStr (utc_iso (now s))),
     (''tables'', JDict (map (\<lambda>(name, cols). (name, JInt (int (length (table_rows s name))))) sorted_tables))]"

definition archive_files :: "string option \<Rightarrow> session \<Rightarrow> (string \<times> string) list" where
  "archive_files rv s = (''manifest.json'', dumps_indent 0 (manifest_of rv s))
     # map (\<lambda>(name, cols). (table_file name, intercalate [newline] (map row_line (table_rows s name)))) sorted_tables"

definition export_archive :: "env \<Rightarrow> string option \<Rightarrow> session \<Rightarrow> string" where
  "export_archive E rv s = targz E (archive_files rv s)"

definition BACKUP_PREFIX :: string where "BACKUP_PREFIX = ''yg-ls-backup_''"
definition PRERESTORE_PREFIX :: string where "PRERESTORE_PREFIX = ''pre-restore_''"

text \<open>\<open>strftime("%Y%m%d-%H%M%S")\<close>.\<close>

definition file_stamp :: "datetime \<Rightarrow> string" where
  "file_stamp t = (let (y, m, d) = civil (t div day_us); sec = t div second_us in
     pad 4 y @ pad 2 (int m) @ pad 2 d @ ''-'' @ pad 2 (sec div 3600 mod 24) @ pad 2 (sec div 60 mod 60) @ pad 2 (sec mod 60))"

definition make_filename :: "datetime \<Rightarrow> bool \<Rightarrow> string \<Rightarrow> string" where
  "make_filename t encrypted prefix =
     prefix @ ''v'' @ APP_VERSION @ ''_'' @ file_stamp t @ ''.'' @ (if encrypted then ''lsbak'' else ''tar.gz'')"

section \<open>Import\<close>

definition the_default :: "'a \<Rightarrow> 'a option \<Rightarrow> 'a" where
  "the_default d x = (case x of None \<Rightarrow> d | Some y \<Rightarrow> y)"

text \<open>\<open>extractfile(name)\<close> on the archive's members.\<close>

definition extractfile :: "string \<Rightarrow> (string \<times> string) list \<Rightarrow> string res" where
  "extractfile name members = (case map_of members name of
      None \<Rightarrow> Inl (KeyError (''filename '' @ name @ '' not found'')) | Some b \<Rightarrow> Inr b)"

text \<open>
  \<open>tarfile.open\<close> fails with a \<open>TarError\<close> on most bytes, but with another exception on some
  (a compressed stream cut short raises \<open>EOFError\<close>), which the caller does not catch.
\<close>

definition tar_open :: "env \<Rightarrow> string \<Rightarrow> ((string \<times> string) list) res" where
  "tar_open E raw = untargz E raw"

fun unreadable_archive :: "exc \<Rightarrow> bool" where
  "unreadable_archive TarError = True"
| "unreadable_archive (KeyError m) = True"
| "unreadable_archive (ValueError m) = (m = ''JSONDecodeError'')"
| "unreadable_archive e = False"

definition not_recognized :: exc where
  "not_recognized = ValidationFailed ''not a recognized backup file''"

definition read_manifest :: "env \<Rightarrow> string \<Rightarrow> json res" where
  "read_manifest E data = rbind (unwrap E data) (\<lambda>raw.
     case rbind (tar_open E raw) (\<lambda>members. rbind (extractfile ''manifest.json'' members) loads) of
         Inl e \<Rightarrow> Inl (if unreadable_archive e then not_recognized else e)
       | Inr manifest \<Rightarrow>
           if \<not> is_dict manifest then Inl (AttributeError ''get'')
           else if \<not> json_eq (the_default JNull (jget manifest ''format'')) (JStr FORMAT_NAME) then Inl not_recognized
           else if \<not> json_eq (the_default JNull (jget manifest ''format_version'')) (JInt FORMAT_VERSION)
             then Inl (ValidationFailed ''unsupported backup format version'')
           else Inr manifest)"

definition decode_cell :: "bool \<Rightarrow> json \<Rightarrow> cell res" where
  "decode_cell is_time v = (if v \<noteq> JNull \<and> is_time then
       (case v of JStr t \<Rightarrow> (case fromisoformat t of
            None \<Rightarrow> Inl (ValueError ''Invalid isoformat string'') | Some (u, aware) \<Rightarrow> Inr (Time u))
        | _ \<Rightarrow> Inl (TypeError ''fromisoformat: argument must be str''))
     else Inr (Cell v))"

definition decode_row :: "(string \<times> bool) list \<Rightarrow> json \<Rightarrow> row res" where
  "decode_row cols j = (if is_dict j
     then map_res (\<lambda>(name, is_time). rbind (decode_cell is_time (the_default JNull (jget j name))) (\<lambda>v. Inr (name, v))) cols
     else Inl (AttributeError ''get''))"

text \<open>\<open>str.splitlines()\<close>; the accumulator is the current line.\<close>

definition line_end :: "char \<Rightarrow> bool" where
  "line_end c \<longleftrightarrow> code c \<in> {10, 11, 12, 13, 28, 29, 30, 133}"

fun split_lines :: "string \<Rightarrow> string \<Rightarrow> string list" where
  "split_lines acc [] = (if acc = [] then [] else [acc])"
| "split_lines acc (c # r) =
     (if \<not> line_end c then split_lines (acc @ [c]) r
      else acc # (case r of [] \<Rightarrow> [] | d # r' \<Rightarrow>
        if code c = 13 \<and> d = newline then split_lines [] r' else split_lines [] (d # r')))"

definition parse_rows :: "(string \<times> bool) list \<Rightarrow> string \<Rightarrow> (row list) res" where
  "parse_rows cols blob = map_res (\<lambda>line. rbind (loads line) (decode_row cols))
     (filter (\<lambda>line. strip line \<noteq> []) (split_lines [] blob))"

text \<open>\<open>set(manifest.get("tables", {}))\<close>.\<close>

definition archived_tables :: "json \<Rightarrow> (string list) res" where
  "archived_tables manifest = (case jget manifest ''tables'' of
      None \<Rightarrow> Inr []
    | Some (JDict kvs) \<Rightarrow> Inr (map fst kvs)
    | Some (JStr t) \<Rightarrow> Inr (map (\<lambda>c. [c]) t)
    | Some (JList xs) \<Rightarrow> if list_ex (\<lambda>j. case j of JList _ \<Rightarrow> True | JDict _ \<Rightarrow> True | _ \<Rightarrow> False) xs
        then Inl (TypeError ''unhashable type'')
        else Inr (map (\<lambda>j. case j of JStr t \<Rightarrow> t | _ \<Rightarrow> dumps_default j) xs)
    | Some _ \<Rightarrow> Inl (TypeError ''object is not iterable''))"

definition read_tables :: "string list \<Rightarrow> (string \<times> string) list \<Rightarrow> ((string \<times> row list) list) res" where
  "read_tables archived members = map_res (\<lambda>(name, cols).
     rbind (extractfile (table_file name) members) (\<lambda>blob.
     rbind (parse_rows cols blob) (\<lambda>rows. Inr (name, rows))))
     (filter (\<lambda>(name, cols). name \<in> set archived) sorted_tables)"

section \<open>Loading rows\<close>

text \<open>A column of a row to insert: \<open>None\<close> where a column is not nullable violates a constraint.\<close>

definition column :: "row \<Rightarrow> string \<Rightarrow> cell" where
  "column r k = the_default (Cell JNull) (map_of r k)"

definition bad_cell :: "cell \<Rightarrow> exc" where
  "bad_cell v = (if v = Cell JNull then IntegrityError else TypeError ''column type'')"

definition as_text :: "cell \<Rightarrow> string res" where
  "as_text v = (case v of Cell (JStr t) \<Rightarrow> Inr t | _ \<Rightarrow> Inl (bad_cell v))"

definition as_time :: "cell \<Rightarrow> datetime res" where
  "as_time v = (case v of Time t \<Rightarrow> Inr t | _ \<Rightarrow> Inl (bad_cell v))"

definition as_int :: "cell \<Rightarrow> int res" where
  "as_int v = (case v of Cell (JInt n) \<Rightarrow> Inr n | _ \<Rightarrow> Inl (bad_cell v))"

text \<open>An integer column that the program reads as a truth value.\<close>

definition as_flag :: "cell \<Rightarrow> bool res" where
  "as_flag v = rbind (as_int v) (\<lambda>n. Inr (n \<noteq> 0))"

definition as_json :: "cell \<Rightarrow> json res" where
  "as_json v = (case v of Cell j \<Rightarrow> Inr j | _ \<Rightarrow> Inl (bad_cell v))"

definition nullable :: "(cell \<Rightarrow> 'a res) \<Rightarrow> cell \<Rightarrow> ('a option) res" where
  "nullable f v = (if v = Cell JNull then Inr None else rbind (f v) (\<lambda>x. Inr (Some x)))"

text \<open>A column with a \<open>CHECK (column IN ...)\<close> constraint.\<close>

definition as_enum :: "('a \<times> string) list \<Rightarrow> cell \<Rightarrow> 'a res" where
  "as_enum names v = rbind (as_text v) (\<lambda>t. case find (\<lambda>(x, n). n = t) names of
      None \<Rightarrow> Inl IntegrityError | Some (x, n) \<Rightarrow> Inr x)"

definition load_product :: "row \<Rightarrow> product res" where
  "load_product r =
     rbind (as_text (column r ''id'')) (\<lambda>x0.
     rbind (as_text (column r ''slug'')) (\<lambda>x1.
     rbind (as_text (column r ''name'')) (\<lambda>x2.
     rbind (nullable as_text (column r ''description'')) (\<lambda>x3.
     rbind (as_text (column r ''public_key_pem'')) (\<lambda>x4.
     rbind (as_text (column r ''private_key_pem'')) (\<lambda>x5.
     rbind (as_text (column r ''key_prefix'')) (\<lambda>x6.
     rbind (nullable as_text (column r ''stripe_webhook_secret'')) (\<lambda>x7.
     rbind (nullable as_text (column r ''stripe_api_key'')) (\<lambda>x8.
     rbind (as_text (column r ''jwt_issuer'')) (\<lambda>x9.
     rbind (as_time (column r ''created_at'')) (\<lambda>x10.
          Inr \<lparr>p_id = x0, p_slug = x1, p_name = x2, p_description = x3, p_public_key_pem = x4,
       p_private_key_pem = x5, p_key_prefix = x6, p_stripe_webhook_secret = x7, p_stripe_api_key = x8,
       p_jwt_issuer = x9, p_created_at = x10\<rparr>)))))))))))"

definition load_customer :: "row \<Rightarrow> customer res" where
  "load_customer r =
     rbind (as_text (column r ''id'')) (\<lambda>x0.
     rbind (nullable as_text (column r ''stripe_customer_id'')) (\<lambda>x1.
     rbind (as_text (column r ''email'')) (\<lambda>x2.
     rbind (nullable as_text (column r ''name'')) (\<lambda>x3.
     rbind (as_time (column r ''created_at'')) (\<lambda>x4.
          Inr \<lparr>c_id = x0, c_stripe_customer_id = x1, c_email = x2, c_name = x3, c_created_at =
       x4\<rparr>)))))"

definition status_names :: "(license_status \<times> string) list" where
  "status_names = map (\<lambda>st. (st, status_text st)) [Active, Delinquent, Disabled, Revoked]"

definition source_names :: "(url_source \<times> string) list" where
  "source_names = map (\<lambda>u. (u, source_text u)) [Admin, Self]"

definition delivery_names :: "(delivery_status \<times> string) list" where
  "delivery_names = map (\<lambda>st. (st, delivery_text st)) [delivery_status.Pending, Delivered, Abandoned]"

definition load_license :: "row \<Rightarrow> license res" where
  "load_license r =
     rbind (as_text (column r ''id'')) (\<lambda>x0.
     rbind (as_text (column r ''product_id'')) (\<lambda>x1.
     rbind (as_text (column r ''customer_id'')) (\<lambda>x2.
     rbind (as_text (column r ''key'')) (\<lambda>x3.
     rbind (as_text (column r ''plan'')) (\<lambda>x4.
     rbind (as_int (column r ''max_users'')) (\<lambda>x5.
     rbind (as_json (column r ''features'')) (\<lambda>x6.
     rbind (as_time (column r ''valid_until'')) (\<lambda>x7.
     rbind (as_enum status_names (column r ''status'')) (\<lambda>x8.
     rbind (as_time (column r ''created_at'')) (\<lambda>x9.
     rbind (nullable as_text (column r ''webhook_url'')) (\<lambda>x10.
     rbind (nullable as_text (column r ''webhook_secret'')) (\<lambda>x11.
     rbind (as_enum source_names (column r ''webhook_url_source'')) (\<lambda>x12.
     rbind (as_flag (column r ''allow_http_webhook'')) (\<lambda>x13.
     rbind (as_text (column r ''key_hash'')) (\<lambda>x14.
     rbind (as_text (column r ''key_display'')) (\<lambda>x15.
          Inr \<lparr>l_id = x0, l_product_id = x1, l_customer_id = x2, l_key = x3, l_plan = x4,
       l_max_users = x5, l_features = x6, l_valid_until = x7, l_status = x8, l_created_at = x9,
       l_webhook_url = x10, l_webhook_secret = x11, l_webhook_url_source = x12, l_allow_http_webhook =
       x13, l_key_hash = x14, l_key_display = display_of x15\<rparr>))))))))))))))))"

definition load_preset :: "row \<Rightarrow> preset res" where
  "load_preset r =
     rbind (as_text (column r ''id'')) (\<lambda>x0.
     rbind (nullable as_text (column r ''product_id'')) (\<lambda>x1.
     rbind (as_text (column r ''key'')) (\<lambda>x2.
     rbind (as_text (column r ''value_type'')) (\<lambda>x3.
     rbind (as_json (column r ''default_value'')) (\<lambda>x4.
     rbind (as_time (column r ''created_at'')) (\<lambda>x5.
          Inr \<lparr>f_id = x0, f_product_id = x1, f_key = x2, f_value_type = x3, f_default_value = x4,
       f_created_at = x5\<rparr>))))))"

definition load_install :: "row \<Rightarrow> install res" where
  "load_install r =
     rbind (as_text (column r ''id'')) (\<lambda>x0.
     rbind (as_text (column r ''license_id'')) (\<lambda>x1.
     rbind (as_text (column r ''install_id'')) (\<lambda>x2.
     rbind (as_text (column r ''version'')) (\<lambda>x3.
     rbind (as_time (column r ''last_seen_at'')) (\<lambda>x4.
     rbind (nullable as_text (column r ''ip_addr_hash'')) (\<lambda>x5.
          Inr \<lparr>i_id = x0, i_license_id = x1, i_install_id = x2, i_version = x3, i_last_seen_at =
       x4, i_ip_addr_hash = x5\<rparr>))))))"

definition load_event :: "row \<Rightarrow> event res" where
  "load_event r =
     rbind (as_text (column r ''id'')) (\<lambda>x0.
     rbind (nullable as_text (column r ''license_id'')) (\<lambda>x1.
     rbind (nullable as_text (column r ''product_id'')) (\<lambda>x2.
     rbind (nullable as_text (column r ''subject_kind'')) (\<lambda>x3.
     rbind (nullable as_text (column r ''subject_id'')) (\<lambda>x4.
     rbind (as_text (column r ''type'')) (\<lambda>x5.
     rbind (as_json (column r ''payload'')) (\<lambda>x6.
     rbind (as_time (column r ''created_at'')) (\<lambda>x7.
     rbind (nullable as_text (column r ''note'')) (\<lambda>x8.
          Inr \<lparr>e_license_id = x1, e_product_id = x2, e_type = x5, e_payload = x6, e_note = x8,
       e_id = x0, e_created_at = x7, e_subject_kind = x3, e_subject_id = x4\<rparr>)))))))))"

definition load_delivery :: "row \<Rightarrow> delivery res" where
  "load_delivery r =
     rbind (as_text (column r ''id'')) (\<lambda>x0.
     rbind (nullable as_text (column r ''license_id'')) (\<lambda>x1.
     rbind (nullable as_text (column r ''product_id'')) (\<lambda>x2.
     rbind (as_text (column r ''url'')) (\<lambda>x3.
     rbind (as_text (column r ''secret'')) (\<lambda>x4.
     rbind (as_text (column r ''event_type'')) (\<lambda>x5.
     rbind (as_text (column r ''payload_json'')) (\<lambda>x6.
     rbind (as_int (column r ''attempts'')) (\<lambda>x7.
     rbind (as_enum delivery_names (column r ''status'')) (\<lambda>x8.
     rbind (as_time (column r ''next_attempt_at'')) (\<lambda>x9.
     rbind (nullable as_time (column r ''last_attempt_at'')) (\<lambda>x10.
     rbind (nullable as_time (column r ''delivered_at'')) (\<lambda>x11.
     rbind (nullable as_text (column r ''last_error'')) (\<lambda>x12.
     rbind (nullable as_int (column r ''response_status'')) (\<lambda>x13.
     rbind (nullable as_text (column r ''response_excerpt'')) (\<lambda>x14.
     rbind (as_time (column r ''created_at'')) (\<lambda>x15.
          Inr \<lparr>d_id = x0, d_license_id = x1, d_product_id = x2, d_url = x3, d_secret = x4,
       d_event_type = x5, d_payload_json = x6, d_attempts = nat x7, d_status = x8, d_next_attempt_at =
       x9, d_last_attempt_at = x10, d_delivered_at = x11, d_last_error = x12, d_response_status = x13,
       d_response_excerpt = x14, d_created_at = x15\<rparr>))))))))))))))))"

definition load_stripe :: "row \<Rightarrow> stripe_event res" where
  "load_stripe r =
     rbind (as_text (column r ''id'')) (\<lambda>x0.
     rbind (nullable as_text (column r ''product_id'')) (\<lambda>x1.
     rbind (as_text (column r ''type'')) (\<lambda>x2.
     rbind (as_time (column r ''processed_at'')) (\<lambda>x3.
     Inr \<lparr>se_id = x0, se_product_id = x1, se_type = x2, se_processed_at = x3\<rparr>))))"

text \<open>The second factor's table holds one row, of identifier 1.\<close>

definition load_mfa_row :: "row \<Rightarrow> admin_mfa res" where
  "load_mfa_row r =
     rbind (as_int (column r ''id'')) (\<lambda>x0.
     rbind (as_int (column r ''enabled'')) (\<lambda>x1.
     rbind (nullable as_text (column r ''secret_encrypted'')) (\<lambda>x2.
     rbind (nullable as_text (column r ''recovery_codes_hashed'')) (\<lambda>x3.
     rbind (as_time (column r ''created_at'')) (\<lambda>x4.
     rbind (nullable as_time (column r ''last_used_at'')) (\<lambda>x5.
          if x0 \<noteq> 1 then Inl IntegrityError else Inr \<lparr>m_enabled = (x1 \<noteq> 0), m_secret_encrypted = x2, m_recovery_codes_hashed = x3,
       m_created_at = x4, m_last_used_at = x5\<rparr>))))))"

definition load_mfa :: "row list \<Rightarrow> (admin_mfa option) res" where
  "load_mfa rows = (case rows of [] \<Rightarrow> Inr None
     | [r] \<Rightarrow> rbind (load_mfa_row r) (\<lambda>m. Inr (Some m))
     | _ \<Rightarrow> Inl IntegrityError)"

text \<open>The wipe and the load, in one transaction.\<close>

definition replace_all :: "env \<Rightarrow> (string \<times> row list) list \<Rightarrow> session \<Rightarrow> session res" where
  "replace_all E loaded s = (let rows = (\<lambda>name. the_default [] (map_of loaded name)) in
     rbind (load_mfa (rows ''admin_mfa'')) (\<lambda>mfa.
     rbind (map_res load_customer (rows ''customers'')) (\<lambda>cs.
     rbind (map_res load_product (rows ''products'')) (\<lambda>ps.
     rbind (map_res load_preset (rows ''feature_presets'')) (\<lambda>fs.
     rbind (map_res load_license (rows ''licenses'')) (\<lambda>ls.
     rbind (map_res load_stripe (rows ''processed_stripe_events'')) (\<lambda>xs.
     rbind (map_res load_event (rows ''events'')) (\<lambda>es.
     rbind (map_res load_install (rows ''installs'')) (\<lambda>is.
     rbind (map_res load_delivery (rows ''webhook_deliveries'')) (\<lambda>ds.
     commit E (s\<lparr>products := ps, customers := cs, licenses := ls, presets := fs, installs := is, events := es,
       deliveries := ds, stripe_events := xs, mfa_row := mfa\<rparr>)))))))))))"

definition import_archive :: "env \<Rightarrow> string option \<Rightarrow> string \<Rightarrow> session \<Rightarrow> (json \<times> session) res" where
  "import_archive E db_rev data s =
     rbind (read_manifest E data) (\<lambda>manifest.
     rbind (unwrap E data) (\<lambda>raw.
     let bak_rev = the_default JNull (jget manifest ''alembic_version'') in
     if truthy db_rev \<and> jtruthy bak_rev \<and> \<not> json_eq (jopt db_rev) bak_rev
     then Inl (ValidationFailed ''backup schema version mismatch'')
     else rbind (archived_tables manifest) (\<lambda>archived.
       if \<not> set archived \<subseteq> set (map fst sorted_tables) then Inl (ValidationFailed ''backup schema version mismatch'')
       else rbind (tar_open E raw) (\<lambda>members.
             rbind (read_tables archived members) (\<lambda>loaded.
             rbind (replace_all E loaded s) (\<lambda>s1. Inr (manifest, s1)))))))"

end
