(* ===== verification/ArchiveRoundtrip.thy ===== *)
theory ArchiveRoundtrip
  imports Archive
begin

text \<open>
  An archive restores what it was made from: each row's line is printable text that reads
  back as the row, the indented manifest reads back, and the loaded tables are the dumped
  ones. The facts about the outside (the archive format keeps its members, the cipher
  inverts) are \<open>archive_laws\<close>.
\<close>

section \<open>The codec of archives\<close>

definition archive_laws :: "env \<Rightarrow> bool" where
  "archive_laws E \<longleftrightarrow> fernet_inverse E \<and> (\<forall>k. fernet_key_ok E (backup_key_of E k)) \<and>
     (\<forall>fs. distinct (map fst fs) \<longrightarrow> untargz E (targz E fs) = Inr fs) \<and> (\<forall>fs. starts_with GZIP_MAGIC (targz E fs))"

lemma gzip_not_magic: "starts_with GZIP_MAGIC x \<Longrightarrow> \<not> starts_with ENCRYPTED_MAGIC x"
  by (cases x) (auto simp: starts_with_def GZIP_MAGIC_def ENCRYPTED_MAGIC_def)

interpretation archive: codec archive_laws "\<lambda>E n x. Inr (fst (wrap E n x))" unwrap "starts_with GZIP_MAGIC"
proof
  show "unwrap E y = Inr x"
    if "archive_laws E" "starts_with GZIP_MAGIC x" "Inr (fst (wrap E n x)) = Inr y" for E x n y
    using that by (auto simp: archive_laws_def fernet_inverse_def backup_fernet_def wrap_def unwrap_def Let_def
        starts_with_append dest: gzip_not_magic split: option.splits if_splits)
qed

lemma wrapped_export: "archive_laws E \<Longrightarrow> unwrap E (fst (wrap E n (targz E fs))) = Inr (targz E fs)"
  by (rule archive.unwrap_wrap) (simp_all add: archive_laws_def)

section \<open>Lines\<close>

definition printable :: "string \<Rightarrow> bool" where
  "printable t \<longleftrightarrow> (\<forall>c \<in> set t. 32 \<le> code c \<and> code c \<le> 126)"

lemma printable_simps [simp]:
  "printable []" "printable (c # t) \<longleftrightarrow> 32 \<le> code c \<and> code c \<le> 126 \<and> printable t"
  "printable (s @ t) \<longleftrightarrow> printable s \<and> printable t"
  by (auto simp: printable_def)

lemma printable_hex: "n < 16 \<Longrightarrow> 32 \<le> code (hex_digit n) \<and> code (hex_digit n) \<le> 126"
  by (simp add: hex_digit_def code_def)

lemma printable_esc: "printable (esc_char c)"
proof (cases "map_of escapes c")
  case None
  have "code (CHR ''u'') = 117" "code backslash = 92" by (simp_all add: code_def)
  with None show ?thesis by (simp add: esc_char_def hex4_def printable_hex)
next
  case (Some e)
  then have "e \<in> snd ` set escapes" by (force dest: map_of_SomeD)
  with Some show ?thesis by (auto simp: esc_char_def escapes_def code_def)
qed

lemma printable_str: "printable (dump_str s)"
  using printable_esc by (auto simp: dump_str_def printable_def code_def)

lemma printable_digits: "\<forall>c \<in> set t. is_digit c \<Longrightarrow> printable t"
  by (auto simp: printable_def is_digit_def code_def)

lemma printable_int: "printable (show_int n)"
  using printable_digits[OF show_nat_digits] by (simp add: show_int_def code_def)

lemma printable_float: "float_text t \<Longrightarrow> printable t"
proof -
  have d: "32 \<le> code c \<and> code c \<le> 126" if "is_digit c \<or> c \<in> set ''+-.eENaInfity''" for c
    using that by (auto simp: is_digit_def code_def)
  show "float_text t \<Longrightarrow> printable t" using d float_text_chars by (auto simp: printable_def)
qed

lemma printable_dumps:
  assumes "printable i" and "printable k"
  shows "plain j \<Longrightarrow> printable (dumps i k j)"
    and "plain_items xs \<Longrightarrow> printable (dumps_items i k xs)"
    and "plain_pairs ps \<Longrightarrow> printable (dumps_pairs i k ps)"
  by (induction j and xs and ps rule: fuel_of_fuel_items_fuel_pairs.induct)
    (use assms in \<open>auto simp: printable_int printable_str printable_float code_def\<close>)

lemma line_end_printable: "printable t \<Longrightarrow> c \<in> set t \<Longrightarrow> \<not> line_end c"
  by (auto simp: printable_def line_end_def)

lemma split_lines_line:
  "\<forall>c \<in> set l. \<not> line_end c \<Longrightarrow> split_lines acc (l @ newline # r) = (acc @ l) # split_lines [] r"
  by (induction l arbitrary: acc) (auto simp: line_end_def newline_def code_def split: list.splits)

lemma split_lines_last: "\<forall>c \<in> set l. \<not> line_end c \<Longrightarrow> acc @ l \<noteq> [] \<Longrightarrow> split_lines acc l = [acc @ l]"
  by (induction l arbitrary: acc) auto

lemma split_lines_join:
  "\<forall>l \<in> set ls. l \<noteq> [] \<and> printable l \<Longrightarrow> split_lines [] (intercalate [newline] ls) = ls"
proof (induction ls rule: induct_list012)
  case (3 x y zs)
  then have "\<forall>c \<in> set x. \<not> line_end c" using line_end_printable by auto
  with 3 show ?case by (simp add: split_lines_line)
qed (use line_end_printable in \<open>auto simp: split_lines_last\<close>)

lemma strip_nonempty: "c \<in> set l \<Longrightarrow> \<not> py_isspace c \<Longrightarrow> strip l \<noteq> []"
  by (induction l) (auto simp: strip_def lstrip_def rstrip_def dropWhile_eq_Nil_conv)

section \<open>Rows\<close>

fun cell_ok :: "bool \<Rightarrow> cell \<Rightarrow> bool" where
  "cell_ok is_time (Time t) = (is_time \<and> 0 \<le> t \<and> t \<le> datetime_max)"
| "cell_ok is_time (Cell j) = (plain j \<and> (is_time \<longrightarrow> j = JNull))"

definition row_ok :: "(string \<times> bool) list \<Rightarrow> row \<Rightarrow> bool" where
  "row_ok cols r \<longleftrightarrow> distinct (map fst cols) \<and> list_all2 (\<lambda>c v. fst v = fst c \<and> cell_ok (snd c) (snd v)) cols r"

lemma row_ok_names: "row_ok cols r \<Longrightarrow> map fst r = map fst cols"
  by (auto simp: row_ok_def list_all2_conv_all_nth intro: nth_equalityI)

lemma map_res_all: "list_all2 (\<lambda>x y. f x = Inr y) xs ys \<Longrightarrow> map_res f xs = Inr ys"
  by (induction rule: list_all2_induct) simp_all

lemma decode_cell_ok: "cell_ok is_time v \<Longrightarrow> decode_cell is_time (encode_value v) = Inr v"
  by (cases v) (auto simp: decode_cell_def isoformat_roundtrip)

definition row_json :: "row \<Rightarrow> json" where
  "row_json r = JDict (map (\<lambda>(k, v). (k, encode_value v)) r)"

lemma decode_row_ok:
  assumes "row_ok cols r"
  shows "decode_row cols (row_json r) = Inr r"
proof -
  have d: "distinct (map fst r)" using assms row_ok_names[OF assms] by (simp add: row_ok_def)
  have get: "jget (row_json r) (fst p) = Some (encode_value (snd p))" if "p \<in> set r" for p
  proof -
    have "map_of r (fst p) = Some (snd p)" using map_of_is_SomeI[OF d, of "fst p" "snd p"] that by simp
    then show ?thesis by (simp add: row_json_def map_of_map)
  qed
  let ?f = "\<lambda>(name, is_time). rbind (decode_cell is_time (the_default JNull (jget (row_json r) name))) (\<lambda>v. Inr (name, v))"
  have "list_all2 (\<lambda>c v. ?f c = Inr v) cols r"
  proof (rule list_all2_all_nthI)
    show "length cols = length r" using assms by (auto simp: row_ok_def dest: list_all2_lengthD)
    fix n assume "n < length cols"
    with assms have n: "n < length r" "fst (r ! n) = fst (cols ! n)" "cell_ok (snd (cols ! n)) (snd (r ! n))"
      by (auto simp: row_ok_def list_all2_conv_all_nth)
    with get[of "r ! n"] show "?f (cols ! n) = Inr (r ! n)"
      by (simp add: case_prod_beta the_default_def decode_cell_ok prod_eq_iff)
  qed
  then show ?thesis by (simp add: decode_row_def row_json_def map_res_all)
qed

lemma plain_pairs_iff: "plain_pairs ps \<longleftrightarrow> (\<forall>p \<in> set ps. plain (snd p))"
  by (induction ps) auto

lemma row_json_plain:
  assumes "row_ok cols r"
  shows "plain (row_json r)"
proof -
  have "plain (encode_value (snd p))" if "p \<in> set r" for p
  proof -
    have l: "list_all2 (\<lambda>c v. fst v = fst c \<and> cell_ok (snd c) (snd v)) cols r"
      using assms by (simp add: row_ok_def)
    obtain c where "cell_ok (snd c) (snd p)"
      using list_all2_setD2[OF l \<open>p \<in> set r\<close>] by auto
    then show ?thesis by (cases "snd p") auto
  qed
  moreover have "distinct (map fst r)" using assms row_ok_names[OF assms] by (simp add: row_ok_def)
  then have "distinct (map (fst \<circ> (\<lambda>(k, v). (k, encode_value v))) r)"
    by (subst map_cong[OF refl, of r _ fst]) auto
  ultimately show ?thesis by (auto simp: row_json_def plain_pairs_iff)
qed

lemma row_line_json: "row_line r = dumps_default (row_json r)"
  by (simp add: row_line_def row_json_def)

lemma row_line_text:
  assumes "row_ok cols r"
  shows "row_line r \<noteq> [] \<and> printable (row_line r) \<and> strip (row_line r) \<noteq> []"
proof -
  have "CHR ''{'' \<in> set (row_line r)"
    by (simp add: row_line_def dumps_default_def)
  then have "strip (row_line r) \<noteq> []" by (rule strip_nonempty) (simp add: py_isspace_def code_def)
  moreover have "printable (row_line r)"
    using printable_dumps(1) row_json_plain[OF assms] by (simp add: row_line_json dumps_default_def code_def)
  ultimately show ?thesis by (simp add: row_line_def dumps_default_def)
qed

lemma parse_rows_dump:
  assumes "\<forall>r \<in> set rows. row_ok cols r"
  shows "parse_rows cols (intercalate [newline] (map row_line rows)) = Inr rows"
proof -
  have t: "\<forall>l \<in> set (map row_line rows). l \<noteq> [] \<and> printable l \<and> strip l \<noteq> []"
    using assms row_line_text by auto
  then have "split_lines [] (intercalate [newline] (map row_line rows)) = map row_line rows"
    by (intro split_lines_join) auto
  moreover have "filter (\<lambda>l. strip l \<noteq> []) (map row_line rows) = map row_line rows"
    using t by (simp add: filter_id_conv)
  moreover have "rbind (loads (row_line r)) (decode_row cols) = Inr r" if "r \<in> set rows" for r
    using assms that row_json_plain[of cols r] decode_row_ok[of cols r]
    by (simp add: row_line_json loads_dumps_default)
  then have "map_res (\<lambda>line. rbind (loads line) (decode_row cols)) (map row_line rows) = Inr rows"
    by (intro map_res_all) (simp add: list_all2_conv_all_nth)
  ultimately show ?thesis by (simp add: parse_rows_def)
qed

section \<open>The manifest\<close>

text \<open>A text that reads as a value, whatever follows it, with fuel from \<open>b\<close> on.\<close>

definition reads :: "nat \<Rightarrow> json \<Rightarrow> string \<Rightarrow> bool" where
  "reads b v t \<longleftrightarrow> t \<noteq> [] \<and> \<not> json_ws (hd t) \<and>
     (\<forall>m r. b \<le> m \<longrightarrow> delim r \<longrightarrow> parse_value m (t @ r) = Some (v, r))"

lemma reads_dumps: "plain j \<Longrightarrow> reads (fuel_of j) j (dumps_default j)"
  using dumps_hd[of j] parse_dumps(1)[of "'', ''" "'' ''" "'': ''" "'' ''" j]
  by (simp add: reads_def dumps_default_def json_ws_def)

lemma reads_mono: "reads b v t \<Longrightarrow> b \<le> c \<Longrightarrow> reads c v t"
  by (auto simp: reads_def)

lemma skip_ws_hd: "list_all json_ws w \<Longrightarrow> t \<noteq> [] \<Longrightarrow> \<not> json_ws (hd t) \<Longrightarrow> skip_ws (w @ t @ r) = t @ r"
  by (simp add: skip_ws_append skip_ws_id)

definition member :: "string \<times> json \<times> string \<Rightarrow> string" where
  "member x = dump_str (fst x) @ '': '' @ snd (snd x)"

lemma parse_member:
  assumes "reads b v t" and "b \<le> n" and "delim r"
  shows "parse_members (Suc n) (member (key, v, t) @ r)
     = (case skip_ws r of [] \<Rightarrow> None
        | d # u \<Rightarrow> if d = CHR '','' then
              map_option (\<lambda>(ps, u). ((key, v) # ps, u)) (parse_members n (skip_ws u))
            else if d = CHR ''}'' then Some ([(key, v)], u) else None)"
proof -
  have "skip_ws (CHR '':'' # CHR '' '' # t @ r) = CHR '':'' # CHR '' '' # t @ r"
    by (simp add: skip_ws_def json_ws_def newline_def)
  moreover have "skip_ws (CHR '' '' # t @ r) = t @ r"
    using assms(1) skip_ws_hd[of "'' ''" t r] by (simp add: reads_def json_ws_def)
  moreover have "parse_value n (t @ r) = Some (v, r)" using assms by (simp add: reads_def)
  ultimately show ?thesis by (simp add: member_def dump_str_def parse_str_dump)
qed

lemma member_hd: "skip_ws (member x @ r) = member x @ r" "\<exists>t. member x @ r = quote # t"
  by (simp_all add: member_def dump_str_def skip_ws_delims)

lemma parse_members_texts:
  assumes w: "list_all json_ws w" "list_all json_ws wc"
    and "\<forall>x \<in> set xs. reads b (fst (snd x)) (snd (snd x))" and "xs \<noteq> []" and "b + length xs \<le> m"
  shows "parse_members m (intercalate (CHR '','' # w) (map member xs) @ wc @ CHR ''}'' # r)
     = Some (map (\<lambda>x. (fst x, fst (snd x))) xs, r)"
  using assms(3-5)
proof (induction xs arbitrary: m rule: induct_list012)
  case (2 x)
  then obtain n where m: "m = Suc n" "b \<le> n" by (cases m) auto
  obtain k v t where x: "x = (k, v, t)" by (cases x)
  have d: "delim (wc @ CHR ''}'' # r)"
    using w by (cases wc) (auto simp: delims delim_def json_ws_def newline_def is_digit_def code_def)
  have "skip_ws (wc @ CHR ''}'' # r) = CHR ''}'' # r" using w by (simp add: skip_ws_append skip_ws_delims)
  with parse_member[OF _ m(2) d, of v t k] 2 m x show ?case by (simp del: parse_members.simps)
next
  case (3 x y zs)
  then obtain n where m: "m = Suc n" "b \<le> n" "b + length (y # zs) \<le> n" by (cases m) auto
  obtain k v t where x: "x = (k, v, t)" by (cases x)
  let ?rest = "intercalate (CHR '','' # w) (map member (y # zs)) @ wc @ CHR ''}'' # r"
  have ih: "parse_members n ?rest = Some (map (\<lambda>x. (fst x, fst (snd x))) (y # zs), r)"
    using 3 m by simp
  have sk: "skip_ws (w @ ?rest) = ?rest"
    using w member_hd(1)[of y] by (cases zs) (simp_all add: skip_ws_append)
  have "parse_members m (member x @ CHR '','' # w @ ?rest) = Some ((k, v) # map (\<lambda>x. (fst x, fst (snd x))) (y # zs), r)"
    using parse_member[OF _ m(2) delims(1), of v t k "w @ ?rest"] 3 m x ih sk
    by (simp add: skip_ws_delims del: parse_members.simps)
  then show ?case using x by simp
qed simp

lemma indent_pairs_eq:
  "ps \<noteq> [] \<Longrightarrow> indent_pairs n ps = indent n
     @ intercalate (CHR '','' # indent n) (map (\<lambda>p. member (fst p, snd p, dumps_indent n (snd p))) ps)"
  by (induction ps rule: induct_list012) (simp_all add: member_def)

lemma indent_ws: "list_all json_ws (indent n)"
  by (auto simp: indent_def json_ws_def list_all_iff)

lemma reads_dict:
  assumes "\<forall>p \<in> set ps. reads b (snd p) (dumps_indent (Suc n) (snd p))" and "ps \<noteq> []" and "distinct (map fst ps)"
  shows "reads (Suc (b + length ps)) (JDict ps) (dumps_indent n (JDict ps))"
proof -
  let ?xs = "map (\<lambda>p. (fst p, snd p, dumps_indent (Suc n) (snd p))) ps"
  have "parse_value m (dumps_indent n (JDict ps) @ r) = Some (JDict ps, r)"
    if m: "Suc (b + length ps) \<le> m" for m r
  proof -
    obtain m' where m': "m = Suc m'" "b + length ?xs \<le> m'" using m by (cases m) auto
    let ?t = "intercalate (CHR '','' # indent (Suc n)) (map member ?xs) @ indent n @ CHR ''}'' # r"
    have t: "dumps_indent n (JDict ps) @ r = CHR ''{'' # indent (Suc n) @ ?t"
      using assms(2) by (simp add: indent_pairs_eq o_def)
    have "parse_members m' ?t = Some (map (\<lambda>x. (fst x, fst (snd x))) ?xs, r)"
      by (rule parse_members_texts) (use assms m' in \<open>simp_all add: indent_ws\<close>)
    then have pm: "parse_members m' ?t = Some (ps, r)" by (simp add: o_def)
    obtain x ys where xs: "?xs = x # ys" using assms(2) by (cases ps) auto
    have "\<exists>u. ?t = member x @ u" unfolding xs by (cases ys) simp_all
    then obtain u where u: "?t = member x @ u" ..
    then have sk: "skip_ws (indent (Suc n) @ ?t) = ?t"
      using member_hd(1)[of x u] by (simp add: skip_ws_append indent_ws)
    have hd: "hd ?t = quote" "?t \<noteq> []" using member_hd(2)[of x u] u by auto
    show ?thesis unfolding t m'(1) using sk hd pm assms(3) by (simp add: dict_of_distinct)
  qed
  then show ?thesis using assms(2) by (simp add: reads_def json_ws_def newline_def)
qed

lemma loads_reads: "reads b v t \<Longrightarrow> b \<le> 2 * length t + 2 \<Longrightarrow> loads t = Inr v"
  using delims(4) skip_ws_id[of t] by (force simp: loads_def reads_def skip_ws_def)

definition counts :: "session \<Rightarrow> (string \<times> json) list" where
  "counts s = map (\<lambda>(name, cols). (name, JInt (int (length (table_rows s name))))) sorted_tables"

lemma counts_names: "map fst (counts s) = map fst sorted_tables"
  by (simp add: counts_def sorted_tables_def)

lemma manifest_reads: "loads (dumps_indent 0 (manifest_of rv s)) = Inr (manifest_of rv s)"
proof -
  have c: "reads (Suc (1 + length (counts s))) (JDict (counts s)) (dumps_indent 1 (JDict (counts s)))"
  proof (rule reads_dict)
    show "\<forall>p \<in> set (counts s). reads 1 (snd p) (dumps_indent (Suc 1) (snd p))"
      using reads_dumps[of "JInt n" for n] by (auto simp: counts_def)
    show "distinct (map fst (counts s))" unfolding counts_names by (simp add: sorted_tables_def)
  qed (simp add: counts_def sorted_tables_def)
  have a: "reads 11 j (dumps_default j)" if "fuel_of j = 1" "plain j" for j
    using reads_mono[OF reads_dumps[OF that(2)], of 11] that(1) by simp
  have str: "reads 11 (JStr t) (dumps_default (JStr t))" for t by (rule a) simp_all
  have n: "reads 11 (JInt i) (dumps_default (JInt i))" for i by (rule a) simp_all
  have opt: "reads 11 (jopt x) (dumps_indent 1 (jopt x))" for x
    by (cases x) (simp_all add: jopt_def a)
  have "length (counts s) = 9" by (simp add: counts_def sorted_tables_def)
  with c have c': "reads 11 (JDict (counts s)) (dumps_indent 1 (JDict (counts s)))" by simp
  obtain ps where ps: "manifest_of rv s = JDict ps" and len: "length ps = 6"
    and m: "ps = [(''format'', JStr FORMAT_NAME), (''format_version'', JInt FORMAT_VERSION),
     (''app_version'', JStr APP_VERSION), (''alembic_version'', jopt rv), (''created_at'', JStr (utc_iso (now s))),
     (''tables'', JDict (counts s))]"
    by (simp add: manifest_of_def counts_def)
  have r: "reads (Suc (11 + length ps)) (JDict ps) (dumps_indent 0 (JDict ps))"
    by (rule reads_dict) (use c' str n opt in \<open>simp_all add: m\<close>)
  have "8 \<le> length (dumps_indent 0 (JDict ps))"
    by (simp add: m dump_str_def indent_def)
  with loads_reads[OF r] len show ?thesis by (simp add: ps)
qed

section \<open>Tables\<close>

lemma extract_member:
  assumes "c \<in> set sorted_tables"
  shows "extractfile (table_file (fst c)) (archive_files rv s)
    = Inr (intercalate [newline] (map row_line (table_rows s (fst c))))"
proof -
  have "distinct (map fst (archive_files rv s))"
    by (simp add: archive_files_def sorted_tables_def table_file_def)
  moreover have "(table_file (fst c), intercalate [newline] (map row_line (table_rows s (fst c)))) \<in> set (archive_files rv s)"
    using imageI[OF assms, of "\<lambda>(name, cols). (table_file name, intercalate [newline] (map row_line (table_rows s name)))"]
    by (simp add: archive_files_def case_prod_beta)
  ultimately show ?thesis by (simp add: extractfile_def)
qed

definition storable :: "session \<Rightarrow> bool" where
  "storable s \<longleftrightarrow> (\<forall>c \<in> set sorted_tables. \<forall>r \<in> set (table_rows s (fst c)). row_ok (snd c) r) \<and>
     (\<forall>l \<in> set (licenses s). Ch (CHR 0x85) \<notin> set (l_key_display l))"

definition dump :: "session \<Rightarrow> (string \<times> row list) list" where
  "dump s = map (\<lambda>c. (fst c, table_rows s (fst c))) sorted_tables"

lemma read_tables_dump:
  assumes "storable s"
  shows "read_tables (map fst sorted_tables) (archive_files rv s) = Inr (dump s)"
proof -
  have f: "filter (\<lambda>(name, cols). name \<in> set (map fst sorted_tables)) sorted_tables = sorted_tables"
    by (auto simp: filter_id_conv) force
  have "list_all2 (\<lambda>c y. (\<lambda>(name, cols). rbind (extractfile (table_file name) (archive_files rv s))
      (\<lambda>blob. rbind (parse_rows cols blob) (\<lambda>rows. Inr (name, rows)))) c = Inr y) sorted_tables (dump s)"
    unfolding dump_def list_all2_map2
    using assms by (auto simp: list_all2_same extract_member[of "(a, b)" for a b, simplified] storable_def parse_rows_dump)
  then show ?thesis unfolding read_tables_def f by (rule map_res_all)
qed

lemmas load_simps = column_def the_default_def as_text_def as_time_def as_int_def as_flag_def as_json_def
  nullable_def jnull_or_def opt_time_def

lemma load_product_cells: "load_product (product_cells p) = Inr p"
  by (simp add: load_product_def product_cells_def load_simps split: option.splits)

lemma load_customer_cells: "load_customer (customer_cells c) = Inr c"
  by (simp add: load_customer_def customer_cells_def load_simps split: option.splits)

lemma display_roundtrip: "Ch (CHR 0x85) \<notin> set gs \<Longrightarrow> display_of (display_text gs) = gs"
  by (induction gs) (auto simp: display_of_def display_text_def split: glyph.splits)

lemma as_enum_status: "as_enum status_names (str (status_text st)) = Inr st"
  by (cases st) (simp_all add: as_enum_def as_text_def status_names_def)

lemma as_enum_source: "as_enum source_names (str (source_text u)) = Inr u"
  by (cases u) (simp_all add: as_enum_def as_text_def source_names_def source_text_def)

lemma as_enum_delivery: "as_enum delivery_names (str (delivery_text st)) = Inr st"
  by (cases st) (simp_all add: as_enum_def as_text_def delivery_names_def delivery_text_def)

lemma load_license_cells: "Ch (CHR 0x85) \<notin> set (l_key_display l) \<Longrightarrow> load_license (license_cells l) = Inr l"
  by (simp add: load_license_def license_cells_def load_simps as_enum_status as_enum_source display_roundtrip
      split: option.splits)

lemma load_preset_cells: "load_preset (preset_cells f) = Inr f"
  by (simp add: load_preset_def preset_cells_def load_simps split: option.splits)

lemma load_install_cells: "load_install (install_cells i) = Inr i"
  by (simp add: load_install_def install_cells_def load_simps split: option.splits)

lemma load_event_cells: "load_event (event_cells e) = Inr e"
  by (simp add: load_event_def event_cells_def load_simps split: option.splits)

lemma load_delivery_cells: "load_delivery (delivery_cells d) = Inr d"
  by (simp add: load_delivery_def delivery_cells_def load_simps as_enum_delivery split: option.splits)

lemma load_stripe_cells: "load_stripe (stripe_cells x) = Inr x"
  by (simp add: load_stripe_def stripe_cells_def load_simps split: option.splits)

lemma load_mfa_cells: "load_mfa (map mfa_cells (opt_list m)) = Inr m"
  by (cases m) (simp_all add: load_mfa_def load_mfa_row_def mfa_cells_def load_simps split: option.splits)

lemma map_res_map: "(\<And>x. x \<in> set xs \<Longrightarrow> f (g x) = Inr x) \<Longrightarrow> map_res f (map g xs) = Inr xs"
  by (induction xs) simp_all

text \<open>The tables of one session, with everything else of another.\<close>

definition with_tables :: "session \<Rightarrow> session \<Rightarrow> session" where
  "with_tables s s0 = s0\<lparr>products := products s, customers := customers s, licenses := licenses s,
     presets := presets s, installs := installs s, events := events s, deliveries := deliveries s,
     stripe_events := stripe_events s, mfa_row := mfa_row s\<rparr>"

lemma replace_all_dump:
  assumes "storable s"
  shows "replace_all E (dump s) s0 = commit E (with_tables s s0)"
proof -
  have ls: "map_res load_license (map license_cells (licenses s)) = Inr (licenses s)"
    using assms by (intro map_res_map load_license_cells) (simp add: storable_def)
  show ?thesis
    by (simp add: replace_all_def dump_def sorted_tables_def table_rows_def the_default_def with_tables_def ls
        load_mfa_cells map_res_map load_product_cells load_customer_cells load_preset_cells load_install_cells
        load_event_cells load_delivery_cells load_stripe_cells)
qed

section \<open>The whole archive\<close>

lemma export_members:
  assumes "archive_laws E"
  shows "untargz E (export_archive E rv s) = Inr (archive_files rv s)"
proof -
  have "distinct (map fst (archive_files rv s))"
    by (simp add: archive_files_def sorted_tables_def table_file_def)
  with assms show ?thesis by (simp add: archive_laws_def export_archive_def)
qed

lemma unwrap_export:
  "archive_laws E \<Longrightarrow> unwrap E (fst (wrap E n (export_archive E rv s))) = Inr (export_archive E rv s)"
  by (simp add: export_archive_def wrapped_export)

lemma read_manifest_export:
  assumes "archive_laws E"
  shows "read_manifest E (fst (wrap E n (export_archive E rv s))) = Inr (manifest_of rv s)"
proof -
  have m: "rbind (extractfile ''manifest.json'' (archive_files rv s)) loads = Inr (manifest_of rv s)"
    by (simp add: extractfile_def archive_files_def manifest_reads)
  have f: "jget (manifest_of rv s) ''format'' = Some (JStr FORMAT_NAME)"
    "jget (manifest_of rv s) ''format_version'' = Some (JInt 1)" "is_dict (manifest_of rv s)"
    by (simp_all add: manifest_of_def FORMAT_VERSION_def)
  have "json_eq (JInt 1) (JInt FORMAT_VERSION)" by (simp add: FORMAT_VERSION_def num_eq_def same_decimal_def)
  with m f show ?thesis
    by (simp add: read_manifest_def unwrap_export[OF assms] tar_open_def export_members[OF assms] the_default_def)
qed

lemma archived_tables_manifest: "archived_tables (manifest_of rv s) = Inr (map fst sorted_tables)"
  by (simp add: archived_tables_def manifest_of_def o_def case_prod_beta)

lemma import_export_lemma:
  assumes "archive_laws E" and "storable s" and "\<not> (truthy db_rev \<and> truthy rv \<and> db_rev \<noteq> rv)"
  shows "import_archive E db_rev (fst (wrap E n (export_archive E rv s))) s0
    = rbind (commit E (with_tables s s0)) (\<lambda>s1. Inr (manifest_of rv s, s1))"
proof -
  have r: "the_default JNull (jget (manifest_of rv s) ''alembic_version'') = jopt rv"
    by (simp add: manifest_of_def the_default_def)
  have c: "(truthy db_rev \<and> jtruthy (jopt rv) \<and> \<not> json_eq (jopt db_rev) (jopt rv)) = False"
    using assms(3) by (auto simp: jopt_def truthy_iff split: option.splits)
  show ?thesis
    unfolding import_archive_def Let_def
    by (simp add: read_manifest_export[OF assms(1)] unwrap_export[OF assms(1)] r c archived_tables_manifest
        tar_open_def export_members[OF assms(1)] read_tables_dump[OF assms(2)] replace_all_dump[OF assms(2)]
        del: json_eq.simps)
qed

end
