(* ===== verification/Backups.thy ===== *)
theory Backups
  imports ArchiveRoundtrip
begin

text \<open>
  Where archives are kept and what is done with them: the backup directory, the bucket of
  an object store and the retention policy (\<^verbatim>\<open>app/backup.py\<close>, \<^verbatim>\<open>app/backup_s3.py\<close>), backup and
  restore as services (\<^verbatim>\<open>app/services/backups.py\<close>), the scheduled job
  (\<^verbatim>\<open>app/scripts/run_backup.py\<close>) and the administrator's pages
  (\<^verbatim>\<open>app/routers/admin_ui/backups.py\<close>). An operation that can fail half-way yields its result
  and the state it left: a file that was written stays. Writing to the directory always
  succeeds here; the upload to the bucket may fail.
\<close>

section \<open>Files\<close>

record archive_file =
  a_name :: string
  a_data :: string
  a_mtime :: datetime

text \<open>
  The machine around the database: its stamped schema revision, the working directory, the
  files of the backup directory, the objects of the bucket by key, and whether the bucket
  answers a listing.
\<close>

record site =
  st_alembic :: "string option"
  st_cwd :: string
  st_files :: "archive_file list"
  st_bucket :: "archive_file list"
  st_bucket_up :: bool

definition put_file :: "archive_file \<Rightarrow> archive_file list \<Rightarrow> archive_file list" where
  "put_file f fs = filter (\<lambda>g. a_name g \<noteq> a_name f) fs @ [f]"

definition remove_file :: "string \<Rightarrow> archive_file list \<Rightarrow> archive_file list" where
  "remove_file n fs = filter (\<lambda>g. a_name g \<noteq> n) fs"

definition find_file :: "string \<Rightarrow> archive_file list \<Rightarrow> archive_file option" where
  "find_file n fs = find (\<lambda>g. a_name g = n) fs"

text \<open>\<open>Path.resolve()\<close>, without symbolic links.\<close>

definition path_step :: "string list \<Rightarrow> string \<Rightarrow> string list" where
  "path_step acc seg = (if seg = [] \<or> seg = ''.'' then acc else if seg = ''..'' then butlast acc else acc @ [seg])"

definition resolve_path :: "string \<Rightarrow> string \<Rightarrow> string list" where
  "resolve_path cwd p = foldl path_step [] (split_on CHR ''/'' (if starts_with ''/'' p then p else cwd @ ''/'' @ p))"

definition join_path :: "string \<Rightarrow> string \<Rightarrow> string" where
  "join_path d n = (if d = [] then n else d @ ''/'' @ n)"

definition filename_ok :: "string \<Rightarrow> bool" where
  "filename_ok = re_match_dollar (re_class (\<lambda>c. is_alpha c \<or> is_digit c \<or> c \<in> set ''._-'') 1 128)"

definition backup_name :: "string \<Rightarrow> bool" where
  "backup_name n \<longleftrightarrow> starts_with BACKUP_PREFIX n \<or> starts_with PRERESTORE_PREFIX n"

definition invalid_filename :: exc where
  "invalid_filename = ValidationFailed ''invalid backup filename''"

text \<open>The resolved path, as its segments; its last segment names the file in the directory.\<close>

definition safe_backup_path :: "env \<Rightarrow> site \<Rightarrow> string \<Rightarrow> (string list) res" where
  "safe_backup_path E k name =
    (if \<not> filename_ok name \<or> \<not> backup_name name then Inl invalid_filename
     else let p = resolve_path (st_cwd k) (join_path (backup_dir_cfg (cfg E)) name) in
       if butlast p \<noteq> resolve_path (st_cwd k) (backup_dir_cfg (cfg E)) then Inl invalid_filename else Inr p)"

section \<open>Listing and retention\<close>

definition is_pre_restore :: "archive_file \<Rightarrow> bool" where
  "is_pre_restore f \<longleftrightarrow> starts_with PRERESTORE_PREFIX (a_name f)"

definition list_local_backups :: "site \<Rightarrow> archive_file list" where
  "list_local_backups k = order_by_desc a_mtime (filter (\<lambda>f. backup_name (a_name f)) (st_files k))"

text \<open>The policy both destinations share: what the count and the age drop of the files, newest first.\<close>

definition retention_drop :: "int \<Rightarrow> int \<Rightarrow> datetime \<Rightarrow> archive_file list \<Rightarrow> archive_file list" where
  "retention_drop keep_count max_age_days t fs =
     (let keep = (if keep_count > 0 then take (nat keep_count) fs else fs);
          drp = (if keep_count > 0 then drop (nat keep_count) fs else [])
      in drp @ (if max_age_days > 0 then filter (\<lambda>b. a_mtime b < t - max_age_days * day_us) keep else []))"

definition apply_local_retention :: "int \<Rightarrow> int \<Rightarrow> datetime \<Rightarrow> site \<Rightarrow> string list \<times> site" where
  "apply_local_retention keep_count max_age_days t k =
     (let drp = retention_drop keep_count max_age_days t (filter (\<lambda>b. \<not> is_pre_restore b) (list_local_backups k));
          names = map a_name drp
      in (names, k\<lparr>st_files := foldl (\<lambda>fs n. remove_file n fs) (st_files k) names\<rparr>))"

section \<open>The object store\<close>

definition s3_enabled :: "env \<Rightarrow> bool" where
  "s3_enabled E \<longleftrightarrow> backup_s3_bucket (cfg E) \<noteq> []"

definition s3_key :: "env \<Rightarrow> string \<Rightarrow> string" where
  "s3_key E name = (let prefix = strip_char CHR ''/'' (backup_s3_prefix (cfg E))
     in if prefix \<noteq> [] then prefix @ ''/'' @ name else name)"

text \<open>The object's key, or the text of the exception.\<close>

definition upload :: "env \<Rightarrow> string \<Rightarrow> string \<Rightarrow> datetime \<Rightarrow> site \<Rightarrow> (string + string) \<times> site" where
  "upload E name data t k = (let key = s3_key E name in
     case s3_put E key data of
       Some err \<Rightarrow> (Inl err, k)
     | None \<Rightarrow> (Inr key, k\<lparr>st_bucket := put_file \<lparr>a_name = key, a_data = data, a_mtime = t\<rparr> (st_bucket k)\<rparr>))"

definition list_backups :: "env \<Rightarrow> string \<Rightarrow> site \<Rightarrow> archive_file list" where
  "list_backups E prefix k = order_by_desc a_mtime (filter (\<lambda>f. starts_with (s3_key E prefix) (a_name f)) (st_bucket k))"

definition delete_keys :: "string list \<Rightarrow> site \<Rightarrow> site" where
  "delete_keys keys k = k\<lparr>st_bucket := filter (\<lambda>f. a_name f \<notin> set keys) (st_bucket k)\<rparr>"

definition object_name :: "archive_file \<Rightarrow> string" where
  "object_name f = (let (h, _, r) = rpartition CHR ''/'' (a_name f) in r)"

definition apply_s3_retention :: "env \<Rightarrow> int \<Rightarrow> int \<Rightarrow> string \<Rightarrow> datetime \<Rightarrow> site \<Rightarrow> string list \<times> site" where
  "apply_s3_retention E keep_count max_age_days prefix t k =
     (let drp = retention_drop keep_count max_age_days t (list_backups E prefix k)
      in (map object_name drp, delete_keys (map a_name drp) k))"

section \<open>Backup and restore\<close>

definition RESTORE_PHRASE :: string where "RESTORE_PHRASE = ''RESTORE LICENSE SERVER''"

record backup_result =
  br_filename :: string
  br_size :: nat
  br_encrypted :: bool
  br_s3_key :: "string option"
  br_s3_error :: "string option"

type_synonym 'a run = "'a res \<times> site \<times> session"

definition create_backup :: "env \<Rightarrow> string \<Rightarrow> string \<Rightarrow> site \<Rightarrow> session \<Rightarrow> backup_result run" where
  "create_backup E prefix nt k s =
     (let raw = export_archive E (st_alembic k) s;
          (data, encrypted) = wrap E (n_rand s) raw;
          s1 = s\<lparr>n_rand := Suc (n_rand s)\<rparr>;
          filename = make_filename (now s) encrypted prefix;
          k1 = k\<lparr>st_files := put_file \<lparr>a_name = filename, a_data = data, a_mtime = now s\<rparr> (st_files k)\<rparr>;
          (key, err, k2) = (if s3_enabled E then
              (case upload E filename data (now s) k1 of (Inl e, k') \<Rightarrow> (None, Some e, k') | (Inr o', k') \<Rightarrow> (Some o', None, k'))
            else (None, None, k1));
          s2 = audit None None ''backup:created'' (JDict [(''file'', JStr filename), (''size'', JInt (int (length data))),
            (''encrypted'', JBool encrypted), (''s3_key'', jopt key), (''s3_error'', jopt err)]) (Some nt) s1
      in case commit E s2 of
           Inl e \<Rightarrow> (Inl e, k2, s1)
         | Inr s3 \<Rightarrow> (Inr \<lparr>br_filename = filename, br_size = length data, br_encrypted = encrypted,
             br_s3_key = key, br_s3_error = err\<rparr>, k2, s3))"

definition apply_retention :: "env \<Rightarrow> datetime \<Rightarrow> site \<Rightarrow> (string list \<times> string list) \<times> site" where
  "apply_retention E t k =
     (let (loc, k1) = apply_local_retention (backup_retention_count (cfg E)) (backup_retention_days (cfg E)) t k;
          (rem, k2) = (if s3_enabled E \<and> st_bucket_up k1 then
              apply_s3_retention E (backup_retention_count (cfg E)) (backup_retention_days (cfg E)) BACKUP_PREFIX t k1
            else ([], k1))
      in ((loc, rem), k2))"

definition restored_payload :: "string \<Rightarrow> json \<Rightarrow> string \<Rightarrow> json" where
  "restored_payload source manifest snapshot = JDict [(''source'', JStr source),
     (''backup_created_at'', the_default JNull (jget manifest ''created_at'')),
     (''backup_app_version'', the_default JNull (jget manifest ''app_version'')),
     (''pre_restore_snapshot'', JStr snapshot)]"

definition restore_backup :: "env \<Rightarrow> string \<Rightarrow> string \<Rightarrow> string \<Rightarrow> string \<Rightarrow> site \<Rightarrow> session \<Rightarrow> json run" where
  "restore_backup E data phrase source nt k s =
    (if strip phrase \<noteq> RESTORE_PHRASE then (Inl (ValidationFailed ''restore confirmation mismatch''), k, s)
     else (case read_manifest E data of
       Inl e \<Rightarrow> (Inl e, k, s)
     | Inr m0 \<Rightarrow> (case create_backup E PRERESTORE_PREFIX ''service/pre-restore'' k s of
         (Inl e, k1, s1) \<Rightarrow> (Inl e, k1, s1)
       | (Inr safety, k1, s1) \<Rightarrow> (case import_archive E (st_alembic k1) data s1 of
           Inl e \<Rightarrow> (Inl e, k1, s1)
         | Inr (manifest, s2) \<Rightarrow>
             (case commit E (audit None None ''backup:restored'' (restored_payload source manifest (br_filename safety)) (Some nt) s2) of
                Inl e \<Rightarrow> (Inl e, k1, s2) | Inr s3 \<Rightarrow> (Inr manifest, k1, s3))))))"

section \<open>The scheduled job\<close>

text \<open>\<open>run\<close> of the script: the exit code.\<close>

definition run_backup :: "env \<Rightarrow> bool \<Rightarrow> bool \<Rightarrow> site \<Rightarrow> session \<Rightarrow> int \<times> site \<times> session" where
  "run_backup E retention dry_run k s =
    (if dry_run then (0, k, s)
     else (case create_backup E BACKUP_PREFIX ''script/scheduled'' k s of
       (Inl e, k1, s1) \<Rightarrow> (1, k1, s1)
     | (Inr result, k1, s1) \<Rightarrow>
         let k2 = (if retention then snd (apply_retention E (now s1) k1) else k1)
         in (if truthy (br_s3_error result) then 2 else 0, k2, s1)))"

section \<open>The administrator's pages\<close>

definition MAX_UPLOAD_BYTES :: int where "MAX_UPLOAD_BYTES = 200 * 1024 * 1024"

definition backups_url :: "string \<Rightarrow> response" where
  "backups_url query = redirect (''/admin/backups?'' @ query)"

definition backups_page :: "env \<Rightarrow> request \<Rightarrow> site \<Rightarrow> session \<Rightarrow> response res" where
  "backups_page E req k s = rbind (require_login E (now s) req) (\<lambda>_.
     Inr (show_page (BackupsPage (map (\<lambda>f. (a_name f, length (a_data f))) (list_local_backups k))
       (backup_dir_cfg (cfg E)) (s3_enabled E) (backup_s3_bucket (cfg E)) (key_encryption_key (cfg E) \<noteq> [])
       (backup_retention_count (cfg E)) (backup_retention_days (cfg E)) RESTORE_PHRASE)))"

text \<open>A guard that raises leaves everything as it was.\<close>

definition guarded :: "env \<Rightarrow> request \<Rightarrow> string \<Rightarrow> site \<Rightarrow> session \<Rightarrow> 'a run \<Rightarrow> 'a run" where
  "guarded E req csrf k s r = (case form_guard E (now s) req csrf of Inl e \<Rightarrow> (Inl e, k, s) | Inr _ \<Rightarrow> r)"

definition backup_create :: "env \<Rightarrow> request \<Rightarrow> string \<Rightarrow> site \<Rightarrow> session \<Rightarrow> response run" where
  "backup_create E req csrf k s = guarded E req csrf k s
     (case create_backup E BACKUP_PREFIX ''ui/backup'' k s of
        (Inl e, k1, s1) \<Rightarrow> (Inl e, k1, s1)
      | (Inr result, k1, s1) \<Rightarrow> (Inr (backups_url (''created='' @ br_filename result
           @ (if truthy (br_s3_error result) then ''&s3_failed=1'' else []))), k1, s1))"

definition backup_download :: "env \<Rightarrow> request \<Rightarrow> string \<Rightarrow> site \<Rightarrow> session \<Rightarrow> response res" where
  "backup_download E req name k s = rbind (require_login E (now s) req) (\<lambda>_.
     case safe_backup_path E k name of
       Inl e \<Rightarrow> Inl http_404
     | Inr p \<Rightarrow> (case find_file (last p) (st_files k) of
         None \<Rightarrow> Inl http_404 | Some f \<Rightarrow> Inr (attachment name (a_data f))))"

definition restore_answer :: "json run \<Rightarrow> response run" where
  "restore_answer r = (case r of
      (Inl e, k, s) \<Rightarrow> (if is_invalid e then Inr (backups_url (''error='' @ err_code e)) else Inl e, k, s)
    | (Inr m, k, s) \<Rightarrow> (Inr (backups_url ''restored=1''), k, s))"

definition backup_restore_local ::
  "env \<Rightarrow> request \<Rightarrow> string \<Rightarrow> string \<Rightarrow> string \<Rightarrow> site \<Rightarrow> session \<Rightarrow> response run" where
  "backup_restore_local E req name phrase csrf k s = guarded E req csrf k s
     (case safe_backup_path E k name of
        Inl e \<Rightarrow> (Inr (backups_url (''error='' @ err_code e)), k, s)
      | Inr p \<Rightarrow> (case find_file (last p) (st_files k) of
          None \<Rightarrow> (Inl http_404, k, s)
        | Some f \<Rightarrow> restore_answer (restore_backup E (a_data f) phrase (''local:'' @ name) ''ui/restore'' k s)))"

definition backup_restore_upload ::
  "env \<Rightarrow> request \<Rightarrow> string \<Rightarrow> string \<Rightarrow> string \<Rightarrow> string \<Rightarrow> site \<Rightarrow> session \<Rightarrow> response run" where
  "backup_restore_upload E req filename data phrase csrf k s = guarded E req csrf k s
     (if int (length data) > MAX_UPLOAD_BYTES then (Inr (backups_url ''error=backup+too+large''), k, s)
      else restore_answer (restore_backup E data phrase (''upload:'' @ filename) ''ui/restore-upload'' k s))"

definition backup_delete_one :: "env \<Rightarrow> request \<Rightarrow> string \<Rightarrow> string \<Rightarrow> site \<Rightarrow> session \<Rightarrow> response run" where
  "backup_delete_one E req name csrf k s = guarded E req csrf k s
     (case safe_backup_path E k name of
        Inl e \<Rightarrow> (Inl http_404, k, s)
      | Inr p \<Rightarrow> (Inr (backups_url ''deleted=1''), k\<lparr>st_files := remove_file (last p) (st_files k)\<rparr>, s))"

fun delete_backups :: "env \<Rightarrow> string list \<Rightarrow> nat \<Rightarrow> site \<Rightarrow> nat \<times> site" where
  "delete_backups E [] n k = (n, k)"
| "delete_backups E (name # names) n k = (case safe_backup_path E k name of
      Inl e \<Rightarrow> delete_backups E names n k
    | Inr p \<Rightarrow> if find_file (last p) (st_files k) = None then delete_backups E names n k
        else delete_backups E names (Suc n) (k\<lparr>st_files := remove_file (last p) (st_files k)\<rparr>))"

definition backups_bulk_delete :: "env \<Rightarrow> request \<Rightarrow> string list \<Rightarrow> string \<Rightarrow> site \<Rightarrow> session \<Rightarrow> response run" where
  "backups_bulk_delete E req backup_names csrf k s = guarded E req csrf k s
     (if backup_names = [] then (Inr (backups_url ''error=no+backups+selected''), k, s)
      else let (n, k1) = delete_backups E backup_names 0 k in (Inr (backups_url (''deleted='' @ show_nat n)), k1, s))"

section \<open>What an archive restores\<close>

lemma constraints_with_tables: "constraints_ok (with_tables s s0) = constraints_ok s"
  by (simp add: with_tables_def constraints_ok_def)

lemma restore_any:
  assumes "archive_laws E" and "storable s" and "constraints_ok s" and "new_events s0 = []"
  shows "import_archive E rv (fst (wrap E n (export_archive E rv s))) s0 = Inr (manifest_of rv s, with_tables s s0)"
proof -
  have "new_events (with_tables s s0) = []" using assms(4) by (simp add: with_tables_def)
  then have "commit E (with_tables s s0) = Inr (with_tables s s0)"
    using assms(3) by (simp add: commit_Inr flush_events_none constraints_with_tables)
  with assms show ?thesis by (simp add: import_export_lemma)
qed


lemma a_name_put: "f \<in> set (put_file f fs)"
  by (simp add: put_file_def)

lemma create_backup_file:
  assumes "create_backup E prefix nt k s = (r, k1, s1)"
  shows "\<exists>f \<in> set (st_files k1). a_name f = make_filename (now s) (snd (wrap E (n_rand s) (export_archive E (st_alembic k) s))) prefix
      \<and> a_data f = fst (wrap E (n_rand s) (export_archive E (st_alembic k) s))" (is "?file k1")
    and "st_alembic k1 = st_alembic k"
    and "\<And>g. g \<in> set (st_files k) \<Longrightarrow> a_name g \<noteq> make_filename (now s)
        (snd (wrap E (n_rand s) (export_archive E (st_alembic k) s))) prefix \<Longrightarrow> g \<in> set (st_files k1)"
proof -
  define data where "data = fst (wrap E (n_rand s) (export_archive E (st_alembic k) s))"
  define fn where "fn = make_filename (now s) (snd (wrap E (n_rand s) (export_archive E (st_alembic k) s))) prefix"
  have k1: "st_files k1 = put_file \<lparr>a_name = fn, a_data = data, a_mtime = now s\<rparr> (st_files k) \<and> st_alembic k1 = st_alembic k"
    using assms unfolding create_backup_def data_def fn_def
    by (auto simp: Let_def upload_def split: prod.splits sum.splits option.splits if_splits)
  then show "?file k1" unfolding data_def[symmetric] fn_def[symmetric]
    by (intro bexI[of _ "\<lparr>a_name = fn, a_data = data, a_mtime = now s\<rparr>"]) (simp_all add: a_name_put)
  from k1 show "st_alembic k1 = st_alembic k" by simp
  show "g \<in> set (st_files k1)" if "g \<in> set (st_files k)" "a_name g \<noteq> make_filename (now s)
        (snd (wrap E (n_rand s) (export_archive E (st_alembic k) s))) prefix" for g
    using k1 that by (simp add: put_file_def fn_def)
qed

text \<open>
  C9: a restore that does anything first saves the database: either the phrase or the
  archive was refused and nothing changed, or the directory holds a pre-restore file from
  which the tables of before come back, whatever state the restore ended in.
\<close>

theorem restore_undo:
  assumes "restore_backup E data phrase source nt k s = (r, k1, s1)"
    and "archive_laws E" and "good E s" and "storable s"
  shows "(k1 = k \<and> s1 = s \<and> \<not> is_ok r \<and> (strip phrase \<noteq> RESTORE_PHRASE \<or> \<not> is_ok (read_manifest E data)))
    \<or> (strip phrase = RESTORE_PHRASE \<and> is_ok (read_manifest E data) \<and> (\<exists>f \<in> set (st_files k1). is_pre_restore f
         \<and> (\<forall>s0. new_events s0 = [] \<longrightarrow> import_archive E (st_alembic k) (a_data f) s0
              = Inr (manifest_of (st_alembic k) s, with_tables s s0))))"
proof -
  obtain r0 k0 s0 where c: "create_backup E PRERESTORE_PREFIX ''service/pre-restore'' k s = (r0, k0, s0)"
    by (cases "create_backup E PRERESTORE_PREFIX ''service/pre-restore'' k s")
  then obtain f where f: "f \<in> set (st_files k0)"
    and n: "a_name f = make_filename (now s) (snd (wrap E (n_rand s) (export_archive E (st_alembic k) s))) PRERESTORE_PREFIX"
    and d: "a_data f = fst (wrap E (n_rand s) (export_archive E (st_alembic k) s))"
    using create_backup_file(1) by blast
  have "is_pre_restore f" using n by (simp add: is_pre_restore_def make_filename_def starts_with_append)
  moreover have "import_archive E (st_alembic k) (a_data f) t = Inr (manifest_of (st_alembic k) s, with_tables s t)"
    if "new_events t = []" for t
    using d that assms restore_any by (simp add: good_def)
  moreover have "(k1 = k \<and> s1 = s \<and> \<not> is_ok r \<and> (strip phrase \<noteq> RESTORE_PHRASE \<or> \<not> is_ok (read_manifest E data)))
      \<or> (strip phrase = RESTORE_PHRASE \<and> is_ok (read_manifest E data) \<and> k1 = k0)"
  proof (cases "read_manifest E data")
    case (Inl e)
    then have "\<not> is_ok (read_manifest E data)" by simp
    with Inl assms(1) show ?thesis by (cases "strip phrase = RESTORE_PHRASE") (auto simp: restore_backup_def)
  next
    case (Inr m)
    with assms(1) c show ?thesis by (auto simp: restore_backup_def split: if_splits sum.splits prod.splits)
  qed
  ultimately show ?thesis using f by blast
qed

section \<open>Retention\<close>

lemma retention_drop_set: "set (retention_drop n d t fs) \<subseteq> set fs"
  by (auto simp: retention_drop_def Let_def split: if_splits dest: in_set_takeD in_set_dropD)

lemma in_retention_drop: "x \<in> set (retention_drop n d t fs) \<longleftrightarrow>
    (n > 0 \<and> x \<in> set (drop (nat n) fs)) \<or>
    (d > 0 \<and> a_mtime x < t - d * day_us \<and> x \<in> set (if n > 0 then take (nat n) fs else fs))"
  by (simp add: retention_drop_def Let_def conj_commute)

lemma retention_drop_older:
  assumes "sorted_wrt (\<lambda>x y. a_mtime y \<le> a_mtime x) fs" and "x \<in> set (retention_drop n d t fs)"
    and "y \<in> set fs" and "y \<notin> set (retention_drop n d t fs)"
  shows "a_mtime x \<le> a_mtime y"
proof -
  have k: "a_mtime v \<le> a_mtime u" if "u \<in> set (take m fs)" "v \<in> set (drop m fs)" for u v m
  proof -
    have "sorted_wrt (\<lambda>x y. a_mtime y \<le> a_mtime x) (take m fs @ drop m fs)" using assms(1) by simp
    with that show ?thesis by (simp only: sorted_wrt_append)
  qed
  have y: "y \<in> set (if n > 0 then take (nat n) fs else fs)" and d: "\<not> (d > 0 \<and> a_mtime y < t - d * day_us)"
  proof -
    have "y \<in> set (take (nat n) fs @ drop (nat n) fs)" using assms(3) by (simp only: append_take_drop_id)
    then have "y \<in> set (take (nat n) fs) \<or> y \<in> set (drop (nat n) fs)" by (simp only: set_append Un_iff)
    with assms(3,4) show y: "y \<in> set (if n > 0 then take (nat n) fs else fs)"
      unfolding in_retention_drop by (cases "n > 0") simp_all
    with assms(4) show "\<not> (d > 0 \<and> a_mtime y < t - d * day_us)" unfolding in_retention_drop by simp
  qed
  from assms(2) show ?thesis unfolding in_retention_drop
  proof (elim disjE conjE)
    assume "n > 0" "x \<in> set (drop (nat n) fs)"
    with k[of y "nat n" x] y show ?thesis by simp
  next
    assume "d > 0" "a_mtime x < t - d * day_us"
    with d show ?thesis by linarith
  qed
qed

lemma foldl_remove: "foldl (\<lambda>fs n. remove_file n fs) fs ns = filter (\<lambda>f. a_name f \<notin> set ns) fs"
  by (induction ns arbitrary: fs) (auto simp: remove_file_def intro: filter_cong)

text \<open>
  C25: retention removes from the directory exactly the files it names; those are scheduled
  backups, never a pre-restore snapshot or another file, none newer than a scheduled backup
  that stays; and with no age limit the newest files, up to the count, stay.
\<close>

theorem retention_safe:
  assumes "apply_local_retention keep_count max_age_days t k = (names, k1)"
    and "distinct (map a_name (st_files k))"
  shows "st_files k1 = filter (\<lambda>f. a_name f \<notin> set names) (st_files k)
    \<and> (\<forall>f \<in> set (st_files k). a_name f \<in> set names \<longrightarrow> starts_with BACKUP_PREFIX (a_name f) \<and> \<not> is_pre_restore f)
    \<and> (\<forall>f \<in> set (st_files k). \<forall>g \<in> set (st_files k1). a_name f \<in> set names \<longrightarrow> backup_name (a_name g) \<longrightarrow>
         \<not> is_pre_restore g \<longrightarrow> a_mtime f \<le> a_mtime g)
    \<and> (max_age_days \<le> 0 \<longrightarrow> keep_count > 0 \<longrightarrow>
         length (filter (\<lambda>f. backup_name (a_name f) \<and> \<not> is_pre_restore f) (st_files k)) \<le> nat keep_count \<longrightarrow> names = [])"
proof -
  define fs where "fs = filter (\<lambda>b. \<not> is_pre_restore b) (list_local_backups k)"
  define drp where "drp = retention_drop keep_count max_age_days t fs"
  have a: "names = map a_name drp" "st_files k1 = filter (\<lambda>f. a_name f \<notin> set names) (st_files k)"
    using assms(1) by (auto simp: apply_local_retention_def Let_def fs_def drp_def foldl_remove)
  have mem: "f \<in> set drp \<longleftrightarrow> a_name f \<in> set names" if "f \<in> set (st_files k)" for f
  proof
    assume "a_name f \<in> set names"
    then obtain g where "g \<in> set drp" "a_name g = a_name f" using a(1) by auto
    moreover have "g \<in> set (st_files k)"
      using \<open>g \<in> set drp\<close> retention_drop_set[of keep_count max_age_days t fs]
      by (auto simp: drp_def fs_def list_local_backups_def table_simps)
    ultimately show "f \<in> set drp" using that assms(2) by (metis distinct_map inj_onD)
  qed (auto simp: a(1))
  have fs: "f \<in> set fs \<longleftrightarrow> f \<in> set (st_files k) \<and> backup_name (a_name f) \<and> \<not> is_pre_restore f" for f
    by (auto simp: fs_def list_local_backups_def table_simps)
  have sub: "f \<in> set drp \<Longrightarrow> f \<in> set fs" for f using retention_drop_set[of keep_count max_age_days t fs] by (auto simp: drp_def)
  have sorted: "sorted_wrt (\<lambda>x y. a_mtime y \<le> a_mtime x) fs"
    unfolding fs_def list_local_backups_def by (rule sorted_wrt_filter) (rule sorted_order_by_desc)
  have len: "length fs = length (filter (\<lambda>f. backup_name (a_name f) \<and> \<not> is_pre_restore f) (st_files k))"
    unfolding fs_def list_local_backups_def order_by_desc_def
    by (simp add: filter_sort filter_filter conj_commute)
  have older: "a_mtime f \<le> a_mtime g" if "f \<in> set (st_files k)" "g \<in> set (st_files k1)" "a_name f \<in> set names"
    "backup_name (a_name g)" "\<not> is_pre_restore g" for f g
    using that a(2) mem fs retention_drop_older[OF sorted, of f keep_count max_age_days t g] by (auto simp: drp_def)
  have few: "drp = []" if "max_age_days \<le> 0" "keep_count > 0" "length fs \<le> nat keep_count"
    using that by (simp add: drp_def retention_drop_def Let_def)
  show ?thesis
  proof (intro conjI ballI impI)
    show "starts_with BACKUP_PREFIX (a_name f)" "\<not> is_pre_restore f" if "f \<in> set (st_files k)" "a_name f \<in> set names" for f
      using that mem[of f] sub[of f] fs[of f] by (auto simp: backup_name_def is_pre_restore_def)
    show "names = []" if "max_age_days \<le> 0" "keep_count > 0"
        "length (filter (\<lambda>f. backup_name (a_name f) \<and> \<not> is_pre_restore f) (st_files k)) \<le> nat keep_count"
      using few that len a(1) by simp
  qed (use a(2) older in simp_all)
qed

section \<open>Paths\<close>

lemma split_on_sep: "split_on c (a @ c # b) = split_on c a @ split_on c b"
proof (induction a)
  case (Cons x a)
  obtain y ys where "split_on c a = y # ys" using split_on_nonempty[of c a] by (cases "split_on c a") auto
  with Cons show ?case by simp
qed simp

lemma filename_ok_segment:
  assumes "filename_ok name" and "backup_name name"
  shows "CHR ''/'' \<notin> set name" and "path_step acc name = acc @ [name]"
proof -
  let ?ok = "\<lambda>c. is_alpha c \<or> is_digit c \<or> c \<in> set ''._-''"
  have "list_all ?ok name \<or> list_all ?ok (butlast name) \<and> name \<noteq> [] \<and> last name = newline"
    using assms(1) by (auto simp: filename_ok_def re_match_dollar_def re_class_def)
  moreover have "\<not> ?ok CHR ''/''" "newline \<noteq> CHR ''/''"
    by (simp_all add: is_alpha_def is_digit_def code_def newline_def is_lower_def is_upper_def)
  ultimately show "CHR ''/'' \<notin> set name"
    by (metis (no_types, lifting) append_butlast_last_id list_all_iff rotate1.simps(2) set_ConsD set_rotate1)
  have "name \<noteq> []" "hd name = CHR ''y'' \<or> hd name = CHR ''p''"
    using assms(2) by (cases name; auto simp: backup_name_def starts_with_def BACKUP_PREFIX_def PRERESTORE_PREFIX_def)+
  then show "path_step acc name = acc @ [name]" by (auto simp: path_step_def)
qed

lemma resolve_join:
  assumes "filename_ok name" and "backup_name name"
  shows "resolve_path cwd (join_path d name) = resolve_path cwd d @ [name]"
proof -
  note n = filename_ok_segment[OF assms]
  have one: "split_on CHR ''/'' (x @ CHR ''/'' # name) = split_on CHR ''/'' x @ [name]" for x
    using n(1) by (simp add: split_on_sep split_on_absent)
  show ?thesis
  proof (cases d)
    case Nil
    have "\<not> starts_with ''/'' name" using n(1) by (cases name) (auto simp: starts_with_def)
    moreover have "split_on CHR ''/'' (cwd @ ''/'') = split_on CHR ''/'' cwd @ [[]]"
      using split_on_sep[of "CHR ''/''" cwd "[]"] by simp
    ultimately show ?thesis using Nil one[of cwd] n(2)
      by (simp add: resolve_path_def join_path_def starts_with_def path_step_def)
  next
    case (Cons x d')
    then have "starts_with ''/'' (join_path d name) = starts_with ''/'' d"
      by (simp add: join_path_def starts_with_def)
    with Cons one[of d] one[of "cwd @ CHR ''/'' # d"] n(2) show ?thesis
      by (simp add: resolve_path_def join_path_def)
  qed
qed

text \<open>
  C26: a name that the directory accepts has no separator and resolves to the file of that
  name directly in the backup directory, wherever that directory is; so no form can read,
  restore or delete a file elsewhere.
\<close>

theorem backup_path_confined:
  assumes "safe_backup_path E k name = Inr p"
  shows "CHR ''/'' \<notin> set name \<and> backup_name name \<and> p = resolve_path (st_cwd k) (backup_dir_cfg (cfg E)) @ [name]"
  using assms filename_ok_segment(1) resolve_join
  by (auto simp: safe_backup_path_def Let_def split: if_splits)

section \<open>Examples\<close>

lemma sample_archive_laws: "archive_laws (sample_env c)"
proof -
  have "untargz (sample_env c) (targz (sample_env c) fs) = Inr fs" if "distinct (map fst fs)" for fs
  proof -
    have "plain (JDict (map (\<lambda>(n, b). (n, JStr b)) fs))"
      using that by (auto simp: plain_pairs_iff o_def case_prod_beta)
    then show ?thesis by (simp add: sample_env_def loads_dumps_compact o_def case_prod_beta)
  qed
  then show ?thesis using sample_fernet_inverse
    by (simp add: archive_laws_def sample_env_def starts_with_def GZIP_MAGIC_def)
qed

lemma shop_laws: "archive_laws shop_env"
  by (simp add: shop_env_def sample_archive_laws)

lemma shop_storable: "storable shop" by code_simp


definition empty_site :: site where
  "empty_site = \<lparr>st_alembic = None, st_cwd = ''/srv'', st_files = [], st_bucket = [], st_bucket_up = True\<rparr>"

theorem restore_undo_witness:
  "\<exists>r k1 s1. restore_backup shop_env (fst (wrap shop_env 0 (export_archive shop_env None empty_session)))
       RESTORE_PHRASE ''local:a'' ''ui/restore'' empty_site shop = (r, k1, s1) \<and>
     (\<exists>f \<in> set (st_files k1). is_pre_restore f \<and>
        import_archive shop_env None (a_data f) empty_session = Inr (manifest_of None shop, with_tables shop empty_session))"
proof -
  let ?d = "fst (wrap shop_env 0 (export_archive shop_env None empty_session))"
  obtain r k1 s1 where r: "restore_backup shop_env ?d RESTORE_PHRASE ''local:a'' ''ui/restore'' empty_site shop = (r, k1, s1)"
    by (cases "restore_backup shop_env ?d RESTORE_PHRASE ''local:a'' ''ui/restore'' empty_site shop")
  have "strip RESTORE_PHRASE = RESTORE_PHRASE" by code_simp
  moreover have "is_ok (read_manifest shop_env ?d)" by (simp add: read_manifest_export[OF shop_laws])
  ultimately have "\<exists>f \<in> set (st_files k1). is_pre_restore f
      \<and> (\<forall>s0. new_events s0 = [] \<longrightarrow> import_archive shop_env (st_alembic empty_site) (a_data f) s0
           = Inr (manifest_of (st_alembic empty_site) shop, with_tables shop s0))"
    using restore_undo[OF r shop_laws shop_good shop_storable] by simp
  then show ?thesis using r by (fastforce simp: empty_site_def empty_session_def)
qed

definition full_site :: site where
  "full_site = empty_site\<lparr>st_files := [
     \<lparr>a_name = ''yg-ls-backup_a'', a_data = [], a_mtime = 1\<rparr>, \<lparr>a_name = ''pre-restore_a'', a_data = [], a_mtime = 2\<rparr>,
     \<lparr>a_name = ''yg-ls-backup_b'', a_data = [], a_mtime = 3\<rparr>, \<lparr>a_name = ''notes'', a_data = [], a_mtime = 0\<rparr>]\<rparr>"

theorem retention_safe_witness:
  "fst (apply_local_retention 1 0 5 full_site) = [''yg-ls-backup_a'']
     \<and> map a_name (st_files (snd (apply_local_retention 1 0 5 full_site))) = [''pre-restore_a'', ''yg-ls-backup_b'', ''notes'']"
proof -
  have n: "fst (apply_local_retention 1 0 5 full_site) = [''yg-ls-backup_a'']" by code_simp
  obtain k1 where k1: "apply_local_retention 1 0 5 full_site = ([''yg-ls-backup_a''], k1)"
    using n by (cases "apply_local_retention 1 0 5 full_site") simp
  have "distinct (map a_name (st_files full_site))" by code_simp
  from retention_safe[OF k1 this]
  have "st_files k1 = filter (\<lambda>f. a_name f \<notin> set [''yg-ls-backup_a'']) (st_files full_site)" by simp
  then show ?thesis using k1 n by (simp add: full_site_def)
qed

theorem backup_path_confined_witness:
  "safe_backup_path shop_env empty_site ''yg-ls-backup_a'' = Inr [''srv'', ''backups'', ''yg-ls-backup_a'']
     \<and> CHR ''/'' \<notin> set ''yg-ls-backup_a''"
proof -
  have s: "safe_backup_path shop_env empty_site ''yg-ls-backup_a'' = Inr [''srv'', ''backups'', ''yg-ls-backup_a'']"
    by code_simp
  from backup_path_confined[OF s] s show ?thesis by simp
qed

end
