(* ===== verification/Exports.thy ===== *)
theory Exports
  imports Archive
begin

text \<open>
  The CSV downloads (\<^verbatim>\<open>app/routers/exports.py\<close>, \<^verbatim>\<open>app/routers/admin_ui/events.py\<close>): the guard
  against spreadsheet formulas, the \<^verbatim>\<open>csv\<close> module's writer, and the four exports. A
  streamed response is the concatenation of its chunks; the ellipsis of a displayed key is
  its three UTF-8 bytes.
\<close>

section \<open>Writing\<close>

definition unsafe_prefix :: string where
  "unsafe_prefix = ''=+-@'' @ [CHR 0x09, CHR 0x0D]"

definition csv_safe :: "string \<Rightarrow> string" where
  "csv_safe v = (if v \<noteq> [] \<and> hd v \<in> set unsafe_prefix then CHR 0x27 # v else v)"

abbreviation carriage :: char where "carriage \<equiv> CHR 0x0D"

text \<open>\<open>csv.writer(buf).writerow(cells)\<close> in the default dialect.\<close>

definition csv_special :: "char \<Rightarrow> bool" where
  "csv_special c \<longleftrightarrow> c = CHR '','' \<or> c = quote \<or> c = carriage \<or> c = newline"

definition csv_quoted :: "string \<Rightarrow> string" where
  "csv_quoted v = quote # concat (map (\<lambda>c. if c = quote then [quote, quote] else [c]) v) @ [quote]"

definition csv_field :: "string \<Rightarrow> string" where
  "csv_field v = (if list_ex csv_special v then csv_quoted v else v)"

definition csv_row :: "string list \<Rightarrow> string" where
  "csv_row cells = (if cells = [[]] then csv_quoted [] else intercalate '','' (map csv_field cells)) @ [carriage, newline]"

definition csv_stream :: "string list \<Rightarrow> string list list \<Rightarrow> string" where
  "csv_stream header rows = csv_row header @ concat (map (\<lambda>r. csv_row (map csv_safe r)) rows)"

definition streaming_csv :: "string \<Rightarrow> string list \<Rightarrow> string list list \<Rightarrow> response" where
  "streaming_csv filename header rows = attachment filename (csv_stream header rows)"

definition or_empty :: "string option \<Rightarrow> string" where
  "or_empty x = (case x of Some t \<Rightarrow> t | None \<Rightarrow> [])"

definition display_utf8 :: "glyph list \<Rightarrow> string" where
  "display_utf8 gs = concat (map (\<lambda>g. case g of Ch c \<Rightarrow> [c] | Ellipsis \<Rightarrow> [CHR 0xE2, CHR 0x80, CHR 0xA6]) gs)"

definition payload_text :: "event \<Rightarrow> string" where
  "payload_text e = dumps_compact (if jtruthy (e_payload e) then e_payload e else JDict [])"

section \<open>The exports\<close>

definition export_customers :: "env \<Rightarrow> request \<Rightarrow> session \<Rightarrow> response res" where
  "export_customers E req s = rbind (require_admin E req) (\<lambda>_.
     Inr (streaming_csv ''customers.csv'' [''id'', ''email'', ''name'', ''stripe_customer_id'', ''license_count'', ''created_at'']
       (map (\<lambda>c. [c_id c, c_email c, or_empty (c_name c), or_empty (c_stripe_customer_id c),
          show_nat (length (customer_licenses s c)), isoformat (c_created_at c)]) (customers_desc s))))"

definition license_csv :: "session \<Rightarrow> license \<Rightarrow> string list" where
  "license_csv s r = (let c = customer_of s r in
     [l_id r, display_utf8 (l_key_display r), l_plan r, status_text (l_status r), show_int (l_max_users r),
      isoformat (l_valid_until r), (case c of Some x \<Rightarrow> c_email x | None \<Rightarrow> []),
      (case c of Some x \<Rightarrow> or_empty (c_name x) | None \<Rightarrow> []), or_empty (l_webhook_url r), isoformat (l_created_at r)])"

definition export_licenses :: "env \<Rightarrow> request \<Rightarrow> string \<Rightarrow> session \<Rightarrow> response res" where
  "export_licenses E req slug s = rbind (require_admin E req) (\<lambda>_.
     rbind (product_or_404 slug s) (\<lambda>p.
     Inr (streaming_csv (slug @ ''-licenses.csv'')
       [''id'', ''key'', ''plan'', ''status'', ''max_users'', ''valid_until'', ''customer_email'', ''customer_name'',
        ''webhook_url'', ''created_at''] (map (license_csv s) (licenses_desc p s)))))"

definition event_csv :: "event \<Rightarrow> string list" where
  "event_csv e = [e_id e, isoformat (e_created_at e), e_type e, or_empty (e_subject_kind e), or_empty (e_subject_id e),
     or_empty (e_license_id e), payload_text e, or_empty (e_note e)]"

definition export_events :: "env \<Rightarrow> request \<Rightarrow> string \<Rightarrow> session \<Rightarrow> response res" where
  "export_events E req slug s = rbind (require_admin E req) (\<lambda>_.
     rbind (product_or_404 slug s) (\<lambda>p.
     Inr (streaming_csv (slug @ ''-events.csv'')
       [''id'', ''created_at'', ''type'', ''subject_kind'', ''subject_id'', ''license_id'', ''payload'', ''note'']
       (map event_csv (order_by_desc (\<lambda>e. (e_created_at e, e_id e))
          (filter (\<lambda>e. e_product_id e = Some (p_id p)) (events s)))))))"

text \<open>\<open>strftime("%Y-%m-%d %H:%M:%S")\<close>.\<close>

definition when_text :: "datetime \<Rightarrow> string" where
  "when_text t = (let sec = t div second_us in date_iso t @ '' '' @ pad 2 (sec div 3600 mod 24) @ '':''
     @ pad 2 (sec div 60 mod 60) @ '':'' @ pad 2 (sec mod 60))"

definition log_csv :: "event \<Rightarrow> string list" where
  "log_csv e = [when_text (e_created_at e), e_type e, or_empty (e_license_id e), or_empty (e_product_id e),
     or_empty (e_note e), payload_text e]"

definition events_csv :: "env \<Rightarrow> request \<Rightarrow> session \<Rightarrow> response res" where
  "events_csv E req s = rbind (require_login E (now s) req) (\<lambda>_.
     Inr (attachment (''events-'' @ file_stamp (now s) @ ''.csv'')
       (csv_stream [''when'', ''type'', ''license_id'', ''product_id'', ''note'', ''payload'']
          (map log_csv (recent_events 5000 s)))))"

section \<open>Reading a CSV text\<close>

text \<open>
  What a reader of the format makes of a text (RFC 4180): the specification the writer is
  checked against. \<open>None\<close> is a malformed text.
\<close>

fun read_quoted :: "string \<Rightarrow> (string \<times> string) option" where
  "read_quoted [] = None"
| "read_quoted (c # r) = (if c \<noteq> quote then map_option (\<lambda>(v, t). (c # v, t)) (read_quoted r)
     else (case r of [] \<Rightarrow> Some ([], [])
       | d # r' \<Rightarrow> if d = quote then map_option (\<lambda>(v, t). (quote # v, t)) (read_quoted r') else Some ([], d # r')))"

definition read_field :: "string \<Rightarrow> (string \<times> string) option" where
  "read_field t = (if t \<noteq> [] \<and> hd t = quote then read_quoted (tl t)
     else Some (takeWhile (\<lambda>c. \<not> csv_special c) t, dropWhile (\<lambda>c. \<not> csv_special c) t))"

fun read_record :: "nat \<Rightarrow> string \<Rightarrow> (string list \<times> string) option" where
  "read_record 0 t = None"
| "read_record (Suc n) t = (case read_field t of None \<Rightarrow> None
    | Some (v, r) \<Rightarrow> if starts_with '','' r then map_option (\<lambda>(vs, u). (v # vs, u)) (read_record n (tl r))
        else if starts_with [carriage, newline] r then Some ([v], drop 2 r) else None)"

fun read_csv :: "nat \<Rightarrow> string \<Rightarrow> (string list list) option" where
  "read_csv 0 t = None"
| "read_csv (Suc n) t = (if t = [] then Some []
     else (case read_record (length t) t of None \<Rightarrow> None
       | Some (vs, r) \<Rightarrow> map_option (\<lambda>rs. vs # rs) (read_csv n r)))"

lemma read_quoted_text:
  "read_quoted (concat (map (\<lambda>c. if c = quote then [quote, quote] else [c]) v) @ quote # r)
     = (case r of [] \<Rightarrow> Some (v, []) | d # r' \<Rightarrow> if d = quote then
          map_option (\<lambda>(w, t). (v @ quote # w, t)) (read_quoted r') else Some (v, r))"
  by (induction v) (auto split: list.splits simp: option.map_comp o_def case_prod_beta intro!: map_option_cong)

lemma read_csv_field:
  assumes "x = CHR '','' \<or> x = carriage"
  shows "read_field (csv_field v @ x # r) = Some (v, x # r)"
proof (cases "list_ex csv_special v")
  case True
  with assms read_quoted_text[of v "x # r"] show ?thesis by (auto simp: csv_field_def csv_quoted_def read_field_def)
next
  case False
  then have v: "\<forall>c \<in> set v. \<not> csv_special c" by (simp add: list_ex_iff)
  have x: "csv_special x" "x \<noteq> quote" using assms by (auto simp: csv_special_def)
  have "hd (v @ x # r) \<noteq> quote" using v x(2) by (cases v) (auto simp: csv_special_def)
  with False v x show ?thesis by (simp add: csv_field_def read_field_def takeWhile_append2 dropWhile_append2)
qed

lemma read_record_row:
  assumes "cells \<noteq> []" and "length cells \<le> n"
  shows "read_record n (intercalate '','' (map csv_field cells) @ [carriage, newline] @ r) = Some (cells, r)"
  using assms
proof (induction cells arbitrary: n rule: induct_list012)
  case (2 v)
  then obtain m where "n = Suc m" by (cases n) auto
  then show ?case using read_csv_field[of carriage v "newline # r"] by (simp add: starts_with_def)
next
  case (3 v w vs)
  then obtain m where m: "n = Suc m" "length (w # vs) \<le> m" by (cases n) auto
  let ?rest = "intercalate '','' (map csv_field (w # vs)) @ [carriage, newline] @ r"
  have "read_field (csv_field v @ CHR '','' # ?rest) = Some (v, CHR '','' # ?rest)" by (rule read_csv_field) simp
  with 3 m show ?case by (simp add: starts_with_def)
qed simp

lemma csv_row_read:
  assumes "cells \<noteq> []" and "length cells \<le> n"
  shows "read_record n (csv_row cells @ r) = Some (cells, r)"
proof (cases "cells = [[]]")
  case True
  with assms obtain m where m: "n = Suc m" by (cases n) auto
  have "read_field (csv_quoted [] @ [carriage, newline] @ r) = Some ([], [carriage, newline] @ r)"
    by (simp add: read_field_def csv_quoted_def)
  with True m show ?thesis by (simp add: csv_row_def starts_with_def)
next
  case False
  with read_record_row[OF assms, of r] show ?thesis by (simp add: csv_row_def)
qed

lemma csv_row_length: "length cells < length (csv_row cells)"
proof -
  have "length cells \<le> Suc (length (intercalate '','' (map csv_field cells)))"
    by (induction cells rule: induct_list012) auto
  then show ?thesis by (simp add: csv_row_def)
qed

lemma read_csv_rows:
  assumes "\<forall>r \<in> set rows. r \<noteq> []" and "length rows < n"
  shows "read_csv n (concat (map csv_row rows)) = Some rows"
  using assms
proof (induction rows arbitrary: n)
  case (Cons x xs)
  then obtain m where m: "n = Suc m" "length xs < m" by (cases n) auto
  have "csv_row x \<noteq> []" by (simp add: csv_row_def)
  moreover have "read_record (length (csv_row x @ concat (map csv_row xs))) (csv_row x @ concat (map csv_row xs))
      = Some (x, concat (map csv_row xs))"
    using Cons csv_row_length[of x] by (intro csv_row_read) simp_all
  ultimately show ?case using Cons m by simp
qed (auto simp: gr0_conv_Suc)

lemma csv_safe_hd: "csv_safe v = [] \<or> hd (csv_safe v) \<notin> set unsafe_prefix"
  by (auto simp: csv_safe_def unsafe_prefix_def)

lemma stream_read:
  assumes "header \<noteq> []" and "\<forall>r \<in> set rows. r \<noteq> []"
  shows "read_csv (length rows + 2) (csv_stream header rows) = Some (header # map (map csv_safe) rows)"
proof -
  have "csv_stream header rows = concat (map csv_row (header # map (map csv_safe) rows))"
    by (simp add: csv_stream_def o_def)
  with assms show ?thesis by (simp only:) (rule read_csv_rows, auto)
qed

definition csv_of :: "response \<Rightarrow> string" where
  "csv_of r = (case rs_body r of TextBody t \<Rightarrow> t | _ \<Rightarrow> [])"

lemma csv_of_attachment [simp]: "csv_of (attachment f t) = t" "csv_of (streaming_csv f h rows) = csv_stream h rows"
  by (simp_all add: csv_of_def attachment_def streaming_csv_def)

text \<open>
  C27: a downloaded licence list is a well-formed CSV text whose records are the header and
  one record per licence of the product, newest first, with every column as stored except
  that a cell that a spreadsheet would read as a formula has an apostrophe before it: no
  cell of a record starts with a formula character.
\<close>

theorem export_licenses_safe:
  assumes "export_licenses E req slug s = Inr resp"
  shows "\<exists>p header. get_product slug s = Inr p
    \<and> read_csv (length (product_licenses p s) + 2) (csv_of resp)
        = Some (header # map (\<lambda>l. map csv_safe (license_csv s l)) (licenses_desc p s))
    \<and> set (licenses_desc p s) = set (product_licenses p s)
    \<and> (\<forall>l \<in> set (licenses_desc p s). \<forall>v \<in> set (map csv_safe (license_csv s l)). v = [] \<or> hd v \<notin> set unsafe_prefix)"
proof -
  obtain p where p: "product_or_404 slug s = Inr p" and r: "resp = streaming_csv (slug @ ''-licenses.csv'')
       [''id'', ''key'', ''plan'', ''status'', ''max_users'', ''valid_until'', ''customer_email'', ''customer_name'',
        ''webhook_url'', ''created_at''] (map (license_csv s) (licenses_desc p s))" (is "_ = streaming_csv _ ?h ?rows")
    using assms by (auto simp: export_licenses_def rbind_Inr_iff)
  have f: "get_product slug s = Inr p" using p by (auto simp: product_or_404_def split: sum.splits)
  have len: "length (licenses_desc p s) = length (product_licenses p s)" by (simp add: licenses_desc_def table_simps)
  have "read_csv (length ?rows + 2) (csv_stream ?h ?rows) = Some (?h # map (map csv_safe) ?rows)"
    by (rule stream_read) (auto simp: license_csv_def Let_def)
  then have "read_csv (length (product_licenses p s) + 2) (csv_of resp) = Some (?h # map (\<lambda>l. map csv_safe (license_csv s l)) (licenses_desc p s))"
    by (simp add: r len o_def del: read_csv.simps)
  with f csv_safe_hd show ?thesis by (auto simp: licenses_desc_def table_simps)
qed

definition admin_request :: request where
  "admin_request = \<lparr>q_cookies = [], q_authorization = Some ''Bearer adm'', q_client = None, q_forwarded = None\<rparr>"

definition admin_env :: env where
  "admin_env = sample_env (default_settings\<lparr>admin_token := ''adm''\<rparr>)"

theorem export_licenses_safe_witness:
  "\<exists>resp p header. export_licenses admin_env admin_request ''demo'' shop = Inr resp \<and>
     read_csv (length (product_licenses p shop) + 2) (csv_of resp)
       = Some (header # map (\<lambda>l. map csv_safe (license_csv shop l)) (licenses_desc p shop))"
proof -
  have "is_ok (export_licenses admin_env admin_request ''demo'' shop)" by code_simp
  then obtain resp where r: "export_licenses admin_env admin_request ''demo'' shop = Inr resp" using is_okE by blast
  from export_licenses_safe[OF r] r show ?thesis by blast
qed

end
