(* ===== verification/Scripts.thy ===== *)
theory Scripts
  imports Check Email
begin

text \<open>
  The maintenance jobs (\<^verbatim>\<open>app/scripts/prune_events.py\<close>,
  \<^verbatim>\<open>app/scripts/send_expiry_warnings.py\<close>): pruning old events of given types, and warning the
  customers of licences about to expire, once per licence and threshold. A job yields its
  exit code and the state. The days a licence has left are kept as exact microseconds: the
  program's double differs from a whole number of days by more than its rounding, unless it
  is that number.
\<close>

section \<open>Pruning events\<close>

definition DEFAULT_TYPES :: "string list" where "DEFAULT_TYPES = [''heartbeat'']"
definition DEFAULT_OLDER_THAN_DAYS :: int where "DEFAULT_OLDER_THAN_DAYS = 90"

definition prunable :: "string list \<Rightarrow> datetime \<Rightarrow> event \<Rightarrow> bool" where
  "prunable types cutoff e \<longleftrightarrow> e_type e \<in> set types \<and> e_created_at e < cutoff"

definition prune_run :: "env \<Rightarrow> int \<Rightarrow> string list \<Rightarrow> bool \<Rightarrow> session \<Rightarrow> (int \<times> session) res" where
  "prune_run E older_than_days types dry_run s =
    (if older_than_days \<le> 0 then Inr (2, s)
     else if types = [] then Inr (2, s)
     else rbind (add_delta (now s) (- older_than_days * day_us)) (\<lambda>cutoff.
       if length (filter (prunable types cutoff) (events s)) = 0 \<or> dry_run then Inr (0, s)
       else (case commit E (s\<lparr>events := delete_where (prunable types cutoff) (events s)\<rparr>) of
           Inl e \<Rightarrow> Inr (1, s) | Inr s1 \<Rightarrow> Inr (0, s1))))"

text \<open>\<open>main\<close>: the types are a comma-separated option.\<close>

definition prune_types :: "string \<Rightarrow> string list" where
  "prune_types arg = filter (\<lambda>t. t \<noteq> []) (map strip (split_on CHR '','' arg))"

definition prune_main :: "env \<Rightarrow> int \<Rightarrow> string \<Rightarrow> bool \<Rightarrow> session \<Rightarrow> (int \<times> session) res" where
  "prune_main E older_than_days types_arg dry_run s = prune_run E older_than_days (prune_types types_arg) dry_run s"

text \<open>
  A pruning pass keeps every event of another type and every event that is not older
  than the given days, removes the others exactly when it is a real run that succeeds, and
  touches no other table; refused arguments and dry runs change nothing.
\<close>

theorem prune_scope:
  assumes "prune_run E days types dry s = Inr (rc, s1)" and "good E s"
  shows "(rc = 0 \<and> \<not> dry \<longrightarrow> events s1 = filter (\<lambda>e. \<not> (e_type e \<in> set types \<and> e_created_at e < now s - days * day_us)) (events s))
    \<and> (rc \<noteq> 0 \<or> dry \<longrightarrow> s1 = s) \<and> s1 = s\<lparr>events := events s1\<rparr> \<and> (days \<le> 0 \<or> types = [] \<longrightarrow> rc = 2)"
proof -
  have ne: "new_events s = []" using assms(2) by (simp add: good_def)
  show ?thesis
  proof (cases "days \<le> 0 \<or> types = []")
    case True
    then show ?thesis using assms(1) by (auto simp: prune_run_def split: if_splits)
  next
    case False
    then obtain cut where c: "add_delta (now s) (- days * day_us) = Inr cut"
      using assms(1) by (auto simp: prune_run_def rbind_Inr_iff)
    then have cut: "cut = now s - days * day_us" by (simp add: add_delta_Inr)
    let ?d = "s\<lparr>events := delete_where (prunable types cut) (events s)\<rparr>"
    have fe: "flush_events E ?d = ?d" using ne by (simp add: flush_events_none)
    have run: "(if filter (prunable types cut) (events s) = [] \<or> dry then Inr (0, s)
        else case commit E ?d of Inl e \<Rightarrow> Inr (1, s) | Inr s1 \<Rightarrow> Inr (0, s1)) = (Inr (rc, s1) :: (int \<times> session) res)"
      using assms(1) False c by (simp add: prune_run_def)
    show ?thesis
    proof (cases "filter (prunable types cut) (events s) = [] \<or> dry")
      case True
      then have "s1 = s" "rc = 0" using run by simp_all
      moreover have "filter (\<lambda>e. \<not> (e_type e \<in> set types \<and> e_created_at e < now s - days * day_us)) (events s) = events s"
        if "\<not> dry" using True that by (auto simp: filter_empty_conv filter_id_conv prunable_def cut)
      ultimately show ?thesis using False by auto
    next
      case nf: False
      then show ?thesis using run False fe
        by (auto simp: commit_Inr delete_where_def prunable_def cut split: sum.splits)
    qed
  qed
qed

section \<open>Expiry warnings\<close>

definition DEFAULT_THRESHOLDS :: "int list" where "DEFAULT_THRESHOLDS = [30, 14, 7]"

definition warning_type :: "int \<Rightarrow> string" where
  "warning_type threshold_days = ''expiry_warning:'' @ show_int threshold_days"

definition already_warned :: "session \<Rightarrow> uid \<Rightarrow> int \<Rightarrow> bool" where
  "already_warned s lid t = list_ex (\<lambda>e. e_license_id e = Some lid \<and> e_type e = warning_type t) (events s)"

definition pick_threshold :: "int \<Rightarrow> int list \<Rightarrow> int option" where
  "pick_threshold left thresholds = find (\<lambda>t. left \<le> t * day_us) (sort thresholds)"

text \<open>\<open>round(x)\<close> on a quotient of integers: to the nearest whole number, ties to the even one.\<close>

definition round_div :: "int \<Rightarrow> int \<Rightarrow> int" where
  "round_div a b = (let q = a div b; r = a mod b in
     if 2 * r < b then q else if 2 * r > b then q + 1 else if even q then q else q + 1)"

definition expiring :: "session \<Rightarrow> datetime \<Rightarrow> license list" where
  "expiring s window_end = filter (\<lambda>l. l_status l = Active \<and> l_valid_until l \<le> window_end \<and> l_valid_until l > now s) (licenses s)"

text \<open>One licence of the loop: whether the pass goes on, and the state; an exception ends it.\<close>

definition warn_license :: "env \<Rightarrow> int list \<Rightarrow> bool \<Rightarrow> license \<Rightarrow> session \<Rightarrow> bool \<times> session" where
  "warn_license E thresholds dry_run lic s =
    (let left = l_valid_until lic - now s in
     case pick_threshold left thresholds of
       None \<Rightarrow> (True, s)
     | Some t \<Rightarrow>
         if already_warned s (l_id lic) t then (True, s)
         else (case customer_of s lic of
           None \<Rightarrow> (True, s)
         | Some c \<Rightarrow>
             if c_email c = [] then (True, s)
             else if dry_run then (True, s)
             else (case product_of s lic of
               None \<Rightarrow> (False, s)
             | Some p \<Rightarrow>
                 let (ok, s1) = send_expiry_warning_email E (c_email c) (l_key lic) (p_name p)
                       (round_div left day_us) (date_iso (l_valid_until lic)) s
                 in if \<not> ok then (True, s1)
                    else (case commit E (audit (Some (l_id lic)) (Some (l_product_id lic)) (warning_type t)
                            (JDict [(''days_left'', JFloat (days_text E left)), (''threshold'', JInt t)])
                            (Some ''auto/expiry-warning'') s1) of
                        Inl e \<Rightarrow> (False, rollback s1 s1)
                      | Inr s2 \<Rightarrow> (True, s2)))))"

fun warn_all :: "env \<Rightarrow> int list \<Rightarrow> bool \<Rightarrow> license list \<Rightarrow> session \<Rightarrow> int \<times> session" where
  "warn_all E thresholds dry_run [] s = (0, s)"
| "warn_all E thresholds dry_run (lic # lics) s =
     (let (ok, s1) = warn_license E thresholds dry_run lic s
      in if ok then warn_all E thresholds dry_run lics s1 else (1, s1))"

definition expiry_run :: "env \<Rightarrow> int list \<Rightarrow> bool \<Rightarrow> session \<Rightarrow> (int \<times> session) res" where
  "expiry_run E thresholds dry_run s =
    (if resend_api_key (cfg E) = [] then Inr (0, s)
     else if thresholds = [] then Inl (ValueError ''max() arg is an empty sequence'')
     else rbind (add_delta (now s) (fold max (tl thresholds) (hd thresholds) * day_us)) (\<lambda>window_end.
       Inr (warn_all E thresholds dry_run (expiring s window_end) s)))"

definition parse_thresholds :: "string \<Rightarrow> (int list) res" where
  "parse_thresholds arg = rbind (foldr (\<lambda>t r. rbind r (\<lambda>ns. rbind (py_int t) (\<lambda>n. Inr (n # ns))))
     (filter (\<lambda>t. t \<noteq> []) (map strip (split_on CHR '','' arg))) (Inr [])) (\<lambda>ns. Inr (sort (remdups ns)))"

definition expiry_main :: "env \<Rightarrow> string \<Rightarrow> bool \<Rightarrow> session \<Rightarrow> (int \<times> session) res" where
  "expiry_main E arg dry_run s = rbind (parse_thresholds arg) (\<lambda>thresholds.
     if thresholds = [] then Inr (2, s) else expiry_run E thresholds dry_run s)"

section \<open>No customer is warned twice\<close>

lemma subseq_distinct_keys: "xs \<in> set (subseqs ys) \<Longrightarrow> distinct (map k ys) \<Longrightarrow> distinct (map k xs)"
proof (induction ys arbitrary: xs)
  case (Cons y ys)
  have d: "distinct (map k ys)" "k y \<notin> k ` set ys" using Cons.prems(2) by simp_all
  consider "xs \<in> set (subseqs ys)" | zs where "xs = y # zs" "zs \<in> set (subseqs ys)"
    using Cons.prems(1) by (auto simp: Let_def)
  then show ?case
  proof cases
    case (2 zs)
    have "set zs \<in> Pow (set ys)" unfolding subseqs_powset[symmetric] using 2(2) by (rule imageI)
    then have "k y \<notin> k ` set zs" using d(2) by blast
    with Cons.IH[OF 2(2) d(1)] 2(1) show ?thesis by simp
  qed (rule Cons.IH[OF _ d(1)])
qed simp

lemma filter_key_at_most_one: "distinct (map k xs) \<Longrightarrow> length (filter (\<lambda>x. k x = a \<and> P x) xs) \<le> 1"
proof (induction xs)
  case (Cons x xs)
  have "k x = a \<Longrightarrow> filter (\<lambda>x. k x = a \<and> P x) xs = []" using Cons.prems by (force simp: filter_empty_conv image_iff)
  with Cons show ?case by auto
qed simp

text \<open>The mail for a licence, the event that records it, and the provider's acceptance.\<close>

definition warning_mail :: "env \<Rightarrow> session \<Rightarrow> license \<Rightarrow> http_request" where
  "warning_mail E s lic = (let nm = p_name (the (product_of s lic)); n = round_div (l_valid_until lic - now s) day_us in
     email_request E (email_payload E (c_email (the (customer_of s lic))) nm
        (''Your '' @ nm @ '' license expires in '' @ show_int n @ '' day'' @ plural n)
        (''Your '' @ nm @ '' license expires on '' @ date_iso (l_valid_until lic) @ ''.'' @ [newline, newline]
         @ ''License key (for reference, do not share):'' @ [newline] @ ''  '' @ l_key lic @ [newline, newline]
         @ ''That's '' @ show_int n @ '' day'' @ plural n @ '' from today. ''
         @ ''Reply to this email to renew or extend.'' @ [newline])))"

definition warning_event :: "env \<Rightarrow> datetime \<Rightarrow> license \<times> int \<Rightarrow> new_event" where
  "warning_event E t0 w = (case w of (lic, t) \<Rightarrow> \<lparr>e_license_id = Some (l_id lic), e_product_id = Some (l_product_id lic),
     e_type = warning_type t, e_payload = JDict [(''days_left'', JFloat (days_text E (l_valid_until lic - t0))),
       (''threshold'', JInt t)], e_note = Some ''auto/expiry-warning''\<rparr>)"

definition mail_accepted :: "env \<Rightarrow> nat \<Rightarrow> http_request \<Rightarrow> bool" where
  "mail_accepted E n req = (case http_post E n req of Response st txt \<Rightarrow> 200 \<le> st \<and> st < 300 | _ \<Rightarrow> False)"

text \<open>The attempts among the given ones that the provider accepted, the first being the \<open>n\<close>-th request.\<close>

fun accepted_ones :: "env \<Rightarrow> session \<Rightarrow> nat \<Rightarrow> (license \<times> int) list \<Rightarrow> (license \<times> int) list" where
  "accepted_ones E s n [] = []"
| "accepted_ones E s n (w # ws) = (if mail_accepted E n (warning_mail E s (fst w))
     then w # accepted_ones E s (Suc n) ws else accepted_ones E s (Suc n) ws)"

definition same_base :: "session \<Rightarrow> session \<Rightarrow> bool" where
  "same_base s s' \<longleftrightarrow> licenses s' = licenses s \<and> customers s' = customers s \<and> products s' = products s
     \<and> presets s' = presets s \<and> installs s' = installs s \<and> deliveries s' = deliveries s
     \<and> stripe_events s' = stripe_events s \<and> mfa_row s' = mfa_row s \<and> now s' = now s \<and> new_events s' = []"

lemma same_base_trans: "same_base s t \<Longrightarrow> same_base t u \<Longrightarrow> same_base s u"
  by (simp add: same_base_def)

lemma same_base_reads:
  assumes "same_base s t"
  shows "customer_of t l = customer_of s l" and "product_of t l = product_of s l"
    and "warning_mail E t = warning_mail E s" and "accepted_ones E t n ws = accepted_ones E s n ws"
proof -
  show c: "customer_of t l = customer_of s l" and p: "product_of t l = product_of s l" for l
    using assms by (simp_all add: same_base_def customer_of_def product_of_def)
  show m: "warning_mail E t = warning_mail E s" using c p assms by (simp add: warning_mail_def fun_eq_iff same_base_def)
  show "accepted_ones E t n ws = accepted_ones E s n ws" by (induction ws arbitrary: n) (simp_all add: m)
qed

lemma send_warning:
  assumes "resend_api_key (cfg E) \<noteq> []" and "customer_of s lic = Some c" and "product_of s lic = Some p"
  shows "send_expiry_warning_email E (c_email c) (l_key lic) (p_name p)
     (round_div (l_valid_until lic - now s) day_us) (date_iso (l_valid_until lic)) s
   = (mail_accepted E (length (outbox s)) (warning_mail E s lic), s\<lparr>outbox := outbox s @ [warning_mail E s lic]\<rparr>)"
  using assms by (simp add: send_expiry_warning_email_def send_email_def warning_mail_def mail_accepted_def Let_def)

lemma warned_core: "already_warned s lid t
    \<longleftrightarrow> (\<exists>ev \<in> set (map event_core (events s)). e_license_id ev = Some lid \<and> e_type ev = warning_type t)"
proof -
  have "e_type (event_core e) = e_type e" for e :: event by (simp add: event_core_def new_event.defs)
  then show ?thesis by (auto simp: already_warned_def list_ex_iff)
qed

text \<open>What one licence's turn does: nothing, or one mail and, when it was accepted, its event.\<close>

lemma warn_license_turn:
  assumes "warn_license E ths dry lic s = (ok, s1)" and "resend_api_key (cfg E) \<noteq> []" and "new_events s = []"
  obtains (quiet) "s1 = s"
  | (mailed) t sent where "\<not> dry" "pick_threshold (l_valid_until lic - now s) ths = Some t"
      "\<not> already_warned s (l_id lic) t" "same_base s s1" "outbox s1 = outbox s @ [warning_mail E s lic]"
      "map event_core (events s1) = map event_core (events s) @ (if sent then [warning_event E (now s) (lic, t)] else [])"
      "sent \<longrightarrow> mail_accepted E (length (outbox s)) (warning_mail E s lic)"
      "ok \<longrightarrow> sent = mail_accepted E (length (outbox s)) (warning_mail E s lic)"
proof (cases "s1 = s")
  case False
  then obtain t c p where t: "pick_threshold (l_valid_until lic - now s) ths = Some t"
    and c: "customer_of s lic = Some c" "c_email c \<noteq> []" and p: "product_of s lic = Some p"
    and w: "\<not> already_warned s (l_id lic) t" and d: "\<not> dry"
    using assms(1) by (auto simp: warn_license_def Let_def split: option.splits if_splits)
  note send = send_warning[OF assms(2) c(1) p]
  let ?s = "s\<lparr>outbox := outbox s @ [warning_mail E s lic]\<rparr>"
  let ?a = "audit (Some (l_id lic)) (Some (l_product_id lic)) (warning_type t)
      (JDict [(''days_left'', JFloat (days_text E (l_valid_until lic - now s))), (''threshold'', JInt t)])
      (Some ''auto/expiry-warning'') ?s"
  have r: "(ok, s1) = (if \<not> mail_accepted E (length (outbox s)) (warning_mail E s lic) then (True, ?s)
      else (case commit E ?a of Inl e \<Rightarrow> (False, rollback ?s ?s) | Inr s2 \<Rightarrow> (True, s2)))"
    using assms(1) t c p w d send by (simp add: warn_license_def Let_def)
  have n: "new_events ?s = []" using assms(3) by simp
  have "same_base s s1 \<and> outbox s1 = outbox s @ [warning_mail E s lic]"
    using r n by (auto simp: same_base_def rollback_def commit_Inr table_simps split: if_splits sum.splits)
  moreover have "\<exists>sent. map event_core (events s1) = map event_core (events s) @ (if sent then [warning_event E (now s) (lic, t)] else [])
      \<and> (sent \<longrightarrow> mail_accepted E (length (outbox s)) (warning_mail E s lic))
      \<and> (ok \<longrightarrow> sent = mail_accepted E (length (outbox s)) (warning_mail E s lic))"
  proof (cases "commit E ?a")
    case (Inl e)
    with r show ?thesis by (intro exI[of _ False]) (auto simp: rollback_def split: if_splits)
  next
    case (Inr s2)
    then have "map event_core (events s2) = map event_core (events s) @ [warning_event E (now s) (lic, t)]"
      using n by (simp add: commit_Inr flush_events_log table_simps warning_event_def)
    with r Inr show ?thesis
      by (intro exI[of _ "mail_accepted E (length (outbox s)) (warning_mail E s lic)"]) (auto split: if_splits)
  qed
  ultimately show ?thesis using mailed t w d by blast
qed (use quiet in blast)

lemma warn_all_turns:
  assumes "warn_all E ths dry lics s = (rc, s1)" and "resend_api_key (cfg E) \<noteq> []" and "new_events s = []"
    and "distinct (map l_id lics)"
  shows "\<exists>ws. map fst ws \<in> set (subseqs lics) \<and> (dry \<longrightarrow> ws = []) \<and> same_base s s1
     \<and> outbox s1 = outbox s @ map (warning_mail E s \<circ> fst) ws
     \<and> (\<forall>(l, t) \<in> set ws. pick_threshold (l_valid_until l - now s) ths = Some t \<and> \<not> already_warned s (l_id l) t)
     \<and> (\<exists>sent. set sent \<subseteq> set ws \<and> distinct (map (l_id \<circ> fst) sent)
          \<and> map event_core (events s1) = map event_core (events s) @ map (warning_event E (now s)) sent
          \<and> (rc = 0 \<longrightarrow> sent = accepted_ones E s (length (outbox s)) ws))"
  using assms(1,3,4)
proof (induction lics arbitrary: s)
  case Nil
  then show ?case by (intro exI[of _ "[]"]) (simp add: same_base_def)
next
  case (Cons lic lics)
  obtain ok s2 where w: "warn_license E ths dry lic s = (ok, s2)" by (cases "warn_license E ths dry lic s")
  have nil: "[] \<in> set (subseqs xs)" for xs :: "license list" by (induction xs) (simp_all add: Let_def)
  have dt: "distinct (map l_id lics)" using Cons.prems(3) by simp
  from w assms(2) Cons.prems(2) show ?case
  proof (cases rule: warn_license_turn)
    case quiet
    show ?thesis
    proof (cases ok)
      case True
      with Cons.prems(1) w quiet have "warn_all E ths dry lics s = (rc, s1)" by simp
      from Cons.IH[OF this Cons.prems(2) dt] obtain ws where
        "map fst ws \<in> set (subseqs lics)" and rest: "(dry \<longrightarrow> ws = []) \<and> same_base s s1
     \<and> outbox s1 = outbox s @ map (warning_mail E s \<circ> fst) ws
     \<and> (\<forall>(l, t) \<in> set ws. pick_threshold (l_valid_until l - now s) ths = Some t \<and> \<not> already_warned s (l_id l) t)
     \<and> (\<exists>sent. set sent \<subseteq> set ws \<and> distinct (map (l_id \<circ> fst) sent)
          \<and> map event_core (events s1) = map event_core (events s) @ map (warning_event E (now s)) sent
          \<and> (rc = 0 \<longrightarrow> sent = accepted_ones E s (length (outbox s)) ws))" by blast
      then have "map fst ws \<in> set (subseqs (lic # lics))" by (simp add: Let_def)
      with rest show ?thesis by blast
    next
      case False
      with Cons.prems(1) w quiet have "rc = 1" "s1 = s" by auto
      with Cons.prems(2) nil show ?thesis by (intro exI[of _ "[]"]) (simp add: same_base_def Let_def)
    qed
  next
    case (mailed t sent)
    show ?thesis
    proof (cases ok)
      case False
      with Cons.prems(1) w have e: "rc = 1" "s1 = s2" by auto
      have "[lic] \<in> set (subseqs (lic # lics))" using nil by (auto simp: Let_def)
      with mailed e show ?thesis
        by (intro exI[of _ "[(lic, t)]"]) (auto intro: exI[of _ "if sent then [(lic, t)] else []"])
    next
      case True
      with Cons.prems(1) w have a: "warn_all E ths dry lics s2 = (rc, s1)" by simp
      note same = same_base_reads[OF mailed(4)]
      have "new_events s2 = []" "now s2 = now s" using mailed(4) by (simp_all add: same_base_def)
      from Cons.IH[OF a this(1) dt, unfolded this(2)] obtain ws sent' where
        ws: "map fst ws \<in> set (subseqs lics)" "same_base s2 s1" "outbox s1 = outbox s2 @ map (warning_mail E s2 \<circ> fst) ws"
          "\<forall>(l, t) \<in> set ws. pick_threshold (l_valid_until l - now s) ths = Some t \<and> \<not> already_warned s2 (l_id l) t"
        and sn: "set sent' \<subseteq> set ws" "distinct (map (l_id \<circ> fst) sent')"
          "map event_core (events s1) = map event_core (events s2) @ map (warning_event E (now s)) sent'"
          "rc = 0 \<longrightarrow> sent' = accepted_ones E s2 (length (outbox s2)) ws" by blast
      have "set (map fst ws) \<in> Pow (set lics)" unfolding subseqs_powset[symmetric] using ws(1) by (rule imageI)
      then have sub: "fst ` set ws \<subseteq> set lics" by simp
      then have other: "l_id l \<noteq> l_id lic" if "(l, u) \<in> set ws" for l u
        using that Cons.prems(3) by (force simp: image_iff)
      let ?new = "if sent then [(lic, t)] else []"
      have "\<not> already_warned s (l_id l) u" if "(l, u) \<in> set ws" for l u
        using that ws(4) mailed(6) by (auto simp: warned_core)
      with ws(4) mailed(2,3) have old: "\<forall>(l, u) \<in> set ((lic, t) # ws). pick_threshold (l_valid_until l - now s) ths = Some u
          \<and> \<not> already_warned s (l_id l) u" by auto
      have "map fst ((lic, t) # ws) \<in> set (subseqs (lic # lics))" using ws(1) by (simp add: Let_def)
      moreover have "same_base s s1" using same_base_trans[OF mailed(4) ws(2)] .
      moreover have "outbox s1 = outbox s @ map (warning_mail E s \<circ> fst) ((lic, t) # ws)"
        using ws(3) mailed(5) by (simp add: same)
      moreover have "set (?new @ sent') \<subseteq> set ((lic, t) # ws)" using sn(1) by auto
      moreover have "distinct (map (l_id \<circ> fst) (?new @ sent'))" 
      proof -
        have "l_id (fst w) \<noteq> l_id lic" if "w \<in> set sent'" for w using that sn(1) other[of "fst w" "snd w"] by auto
        then have "l_id lic \<notin> (l_id \<circ> fst) ` set sent'" by (metis comp_apply imageE)
        then show ?thesis using sn(2) by simp
      qed
      moreover have "map event_core (events s1) = map event_core (events s) @ map (warning_event E (now s)) (?new @ sent')"
        using sn(3) mailed(6) by simp
      moreover have "rc = 0 \<longrightarrow> ?new @ sent' = accepted_ones E s (length (outbox s)) ((lic, t) # ws)"
        using sn(4) mailed(5,8) True by (simp add: same)
      ultimately show ?thesis using old mailed(1) by blast
    qed
  qed
qed

text \<open>How many warnings of a type the trail holds for a licence.\<close>

definition warnings :: "session \<Rightarrow> uid \<Rightarrow> int \<Rightarrow> nat" where
  "warnings s lid t = length (filter (\<lambda>ev. e_license_id ev = Some lid \<and> e_type ev = warning_type t) (map event_core (events s)))"


section \<open>Examples\<close>

definition mail_env :: env where
  "mail_env = sample_env (default_settings\<lparr>license_key_pepper := ''pepper'', resend_api_key := ''re_1''\<rparr>)"

definition old_shop :: session where
  "old_shop = shop\<lparr>now := 63838368000000000 - 10 * day_us,
     events := [\<lparr>e_license_id = Some ''l1'', e_product_id = None, e_type = ''heartbeat'', e_payload = JDict [],
       e_note = None, e_id = ''e1'', e_created_at = 0, e_subject_kind = None, e_subject_id = None\<rparr>]\<rparr>"

lemma old_shop_good: "good mail_env old_shop"
proof -
  have "license_wf mail_env sample_license" unfolding license_wf_def webhook_wf_def
    by (intro conjI impI) code_simp+
  moreover have "placed old_shop sample_license" by code_simp
  moreover have "constraints_ok old_shop" "new_events old_shop = []" by code_simp+
  ultimately show ?thesis
    by (simp add: good_def rows_ok_def placed_def old_shop_def shop_def empty_session_def)
qed

theorem prune_scope_witness:
  "\<exists>s1. prune_run mail_env 90 [''heartbeat''] False old_shop = Inr (0, s1) \<and> events s1 = [] \<and> events old_shop \<noteq> []"
proof -
  have "is_ok (prune_run mail_env 90 [''heartbeat''] False old_shop)
      \<and> (case prune_run mail_env 90 [''heartbeat''] False old_shop of Inr (rc, s1) \<Rightarrow> rc = 0 | _ \<Rightarrow> False)"
    by code_simp
  then obtain s1 where r: "prune_run mail_env 90 [''heartbeat''] False old_shop = Inr (0, s1)"
    by (auto split: sum.splits prod.splits)
  have "filter (\<lambda>e. \<not> (e_type e \<in> set [''heartbeat''] \<and> e_created_at e < now old_shop - 90 * day_us)) (events old_shop) = []"
    "events old_shop \<noteq> []" by code_simp+
  with prune_scope[OF r old_shop_good] r show ?thesis by simp
qed



end
