(* ===== verification/Stripe.thy ===== *)
theory Stripe
  imports Products Check
begin

text \<open>
  The payment provider's webhook of a product (\<^verbatim>\<open>app/stripe_webhook.py\<close>): the signed event is
  claimed by its identifier, then extends or creates a licence or changes the status of the
  customer's licences. The provider's signature check is a parameter: from the body, the
  header and the secret it yields the event, or nothing when it raises. Identifiers in an
  event are strings; another value is read as its text.
\<close>

section \<open>Reading an event\<close>

text \<open>\<open>x[k]\<close> and \<open>x.get(k)\<close> on a decoded value.\<close>

definition item :: "json \<Rightarrow> string \<Rightarrow> json res" where
  "item x k = (case x of
      JDict kvs \<Rightarrow> (case map_of kvs k of Some v \<Rightarrow> Inr v | None \<Rightarrow> Inl (KeyError k))
    | _ \<Rightarrow> Inl (TypeError ''indices''))"

definition get_attr :: "json \<Rightarrow> string \<Rightarrow> (json option) res" where
  "get_attr x k = (case x of JDict kvs \<Rightarrow> Inr (map_of kvs k) | _ \<Rightarrow> Inl (AttributeError ''get''))"

definition text_or_none :: "json option \<Rightarrow> string option" where
  "text_or_none x = (case x of Some j \<Rightarrow> if jtruthy j then Some (payload_str j) else None | None \<Rightarrow> None)"

definition event_object :: "json \<Rightarrow> json res" where
  "event_object ev = rbind (item ev ''data'') (\<lambda>d. item d ''object'')"

section \<open>Effects\<close>

definition stripe_customer :: "string \<Rightarrow> session \<Rightarrow> (customer option) res" where
  "stripe_customer cid s = one_or_none (\<lambda>c. c_stripe_customer_id c = Some cid) (customers s)"

definition add_stripe_customer :: "env \<Rightarrow> string \<Rightarrow> string \<Rightarrow> session \<Rightarrow> (customer \<times> session) res" where
  "add_stripe_customer E cid email s =
     (let (i, s1) = fresh_id E s;
          c = \<lparr>c_id = i, c_stripe_customer_id = Some cid, c_email = email, c_name = None, c_created_at = now s1\<rparr>
      in rbind (flush E (s1\<lparr>customers := customers s1 @ [c]\<rparr>)) (\<lambda>s2. Inr (c, s2)))"

definition latest_license :: "product \<Rightarrow> customer \<Rightarrow> session \<Rightarrow> license option" where
  "latest_license p c s =
     (case order_by_desc l_created_at
         (filter (\<lambda>l. l_customer_id l = c_id c \<and> l_product_id l = p_id p) (licenses s)) of
        [] \<Rightarrow> None | l # _ \<Rightarrow> Some l)"

definition extend_license :: "product \<Rightarrow> license \<Rightarrow> session \<Rightarrow> session res" where
  "extend_license p lic s =
     rbind (add_delta (max (l_valid_until lic) (now s)) (30 * day_us)) (\<lambda>vu.
     Inr (audit (Some (l_id lic)) (Some (p_id p)) ''extended''
       (JDict [(''new_valid_until'', JStr (isoformat vu))]) None
       (put_license (lic\<lparr>l_valid_until := vu, l_status := Active\<rparr>) s)))"

text \<open>The event is built before the licence is flushed; the mail is sent before the commit.\<close>

definition create_paid_license :: "env \<Rightarrow> product \<Rightarrow> customer \<Rightarrow> session \<Rightarrow> session res" where
  "create_paid_license E p c s =
     rbind (new_license E p c ''standard'' 10 30 (JDict []) None False s) (\<lambda>(lic, s1).
     Inr (snd (send_license_email E (c_email c) (l_key lic) (p_name p)
       (audit None (Some (p_id p)) ''issued'' (JDict []) (Some ''stripe invoice.paid'')
         (s1\<lparr>licenses := licenses s1 @ [lic]\<rparr>)))))"

definition extend_or_create ::
  "env \<Rightarrow> product \<Rightarrow> string option \<Rightarrow> string option \<Rightarrow> session \<Rightarrow> session res" where
  "extend_or_create E p customer_id email s = (case customer_id of
      None \<Rightarrow> Inr s
    | Some cid \<Rightarrow>
        rbind (stripe_customer cid s) (\<lambda>found.
        rbind (case found of
            Some c \<Rightarrow> Inr (Some c, s)
          | None \<Rightarrow> (case email of
              None \<Rightarrow> Inr (None, s)
            | Some m \<Rightarrow> rbind (add_stripe_customer E cid m s) (\<lambda>(c, s1). Inr (Some c, s1)))) (\<lambda>(cust, s1).
        case cust of
          None \<Rightarrow> Inr s1
        | Some c \<Rightarrow> (case latest_license p c s1 of
              None \<Rightarrow> create_paid_license E p c s1
            | Some lic \<Rightarrow> extend_license p lic s1))))"

definition mark_license :: "product \<Rightarrow> license_status \<Rightarrow> string \<Rightarrow> license \<Rightarrow> session \<Rightarrow> session" where
  "mark_license p st note lic s =
    (if l_product_id lic \<noteq> p_id p then s
     else audit (Some (l_id lic)) (Some (p_id p)) (''status:'' @ status_text st) (JDict []) (Some note)
       (put_license (lic\<lparr>l_status := st\<rparr>) s))"

definition mark_status ::
  "product \<Rightarrow> string option \<Rightarrow> license_status \<Rightarrow> string \<Rightarrow> session \<Rightarrow> session res" where
  "mark_status p customer_id st note s = (case customer_id of
      None \<Rightarrow> Inr s
    | Some cid \<Rightarrow> rbind (stripe_customer cid s) (\<lambda>found. case found of
          None \<Rightarrow> Inr s
        | Some c \<Rightarrow> Inr (fold (mark_license p st note)
            (filter (\<lambda>l. l_customer_id l = c_id c) (licenses s)) s)))"

definition on_invoice_paid :: "env \<Rightarrow> product \<Rightarrow> json \<Rightarrow> session \<Rightarrow> session res" where
  "on_invoice_paid E p ev s = rbind (event_object ev) (\<lambda>obj. rbind (get_attr obj ''customer'') (\<lambda>c.
     rbind (get_attr obj ''customer_email'') (\<lambda>m.
     extend_or_create E p (text_or_none c) (text_or_none m) s)))"

definition on_status_event :: "license_status \<Rightarrow> product \<Rightarrow> json \<Rightarrow> session \<Rightarrow> session res" where
  "on_status_event st p ev s = rbind (event_object ev) (\<lambda>obj. rbind (get_attr obj ''customer'') (\<lambda>c.
     rbind (item ev ''type'') (\<lambda>t. mark_status p (text_or_none c) st (payload_str t) s)))"

text \<open>The registered handlers; an unknown type has none and does nothing.\<close>

definition handle_event :: "env \<Rightarrow> product \<Rightarrow> string \<Rightarrow> json \<Rightarrow> session \<Rightarrow> session res" where
  "handle_event E p ty ev s =
    (if ty = ''invoice.paid'' then on_invoice_paid E p ev s
     else if ty = ''invoice.payment_failed'' then on_status_event Delinquent p ev s
     else if ty = ''customer.subscription.deleted'' then on_status_event Revoked p ev s
     else Inr s)"

section \<open>The endpoint\<close>

definition received :: "string \<Rightarrow> string \<Rightarrow> bool \<Rightarrow> json" where
  "received ty slug duplicate = JDict ([(''received'', JBool True), (''type'', JStr ty), (''product'', JStr slug)]
     @ (if duplicate then [(''duplicate'', JBool True)] else []))"

text \<open>The product, its readable secret and the verified event.\<close>

definition unreadable :: "exc \<Rightarrow> exc" where
  "unreadable e = (case e of RuntimeError m \<Rightarrow> HTTPException 503 ''webhook secret unreadable'' | _ \<Rightarrow> e)"

definition signed_event :: "env \<Rightarrow> string \<Rightarrow> string \<Rightarrow> string \<Rightarrow> session \<Rightarrow> (product \<times> json) res" where
  "signed_event E slug body sig s =
     rbind (find_product slug s) (\<lambda>found. case found of
       None \<Rightarrow> Inl (HTTPException 404 ''product not found'')
     | Some p \<Rightarrow>
        if \<not> truthy (p_stripe_webhook_secret p)
        then Inl (HTTPException 503 ''webhook secret not configured for product'')
        else (case decrypt_secret E (p_stripe_webhook_secret p) of
            Inl e \<Rightarrow> Inl (unreadable e)
          | Inr secret \<Rightarrow> (case stripe_event_of E (now s) body sig (the secret) of
              None \<Rightarrow> Inl (HTTPException 400 ''invalid signature'')
            | Some ev \<Rightarrow> Inr (p, ev))))"

text \<open>Claiming the event: \<open>None\<close> when it was claimed before.\<close>

definition claim_event :: "env \<Rightarrow> product \<Rightarrow> string option \<Rightarrow> string \<Rightarrow> session \<Rightarrow> (session option) res" where
  "claim_event E p event_id ty s = (case event_id of
      None \<Rightarrow> Inr (Some s)
    | Some i \<Rightarrow> rbind (one_or_none (\<lambda>x. se_id x = i) (stripe_events s)) (\<lambda>found.
        if found \<noteq> None then Inr None
        else (case flush E (s\<lparr>stripe_events := stripe_events s @ [\<lparr>se_id = i, se_product_id = Some (p_id p),
                se_type = ty, se_processed_at = now s\<rparr>]\<rparr>) of
            Inl _ \<Rightarrow> Inr None
          | Inr s' \<Rightarrow> Inr (Some s'))))"

definition stripe_webhook :: "env \<Rightarrow> string \<Rightarrow> string \<Rightarrow> string \<Rightarrow> session \<Rightarrow> (json \<times> session) res" where
  "stripe_webhook E slug body sig s =
     rbind (signed_event E slug body sig s) (\<lambda>(p, ev).
     rbind (get_attr ev ''id'') (\<lambda>i.
     rbind (item ev ''type'') (\<lambda>t.
     rbind (claim_event E p (text_or_none i) (payload_str t) s) (\<lambda>claimed. case claimed of
       None \<Rightarrow> Inr (received (payload_str t) slug True, s)
     | Some s1 \<Rightarrow> rbind (handle_event E p (payload_str t) ev s1) (\<lambda>s2.
         rbind (commit E s2) (\<lambda>s3. Inr (received (payload_str t) slug False, s3)))))))"

section \<open>What an event can change\<close>

text \<open>The validity may be prolonged and the status set; everything else of the licence stays.\<close>

definition terms_only :: "uid \<Rightarrow> license \<Rightarrow> license \<Rightarrow> bool" where
  "terms_only pid l l' \<longleftrightarrow> l' = l\<lparr>l_status := l_status l', l_valid_until := l_valid_until l'\<rparr>
     \<and> l_valid_until l \<le> l_valid_until l' \<and> (l_product_id l \<noteq> pid \<longrightarrow> l' = l)"

lemma terms_only_refl [simp]: "terms_only pid l l"
  by (cases l) (simp add: terms_only_def)

lemma terms_only_trans: "terms_only pid a b \<Longrightarrow> terms_only pid b c \<Longrightarrow> terms_only pid a c"
  by (cases a; cases b; cases c) (auto simp: terms_only_def)

lemma terms_only_identity: "terms_only pid l l' \<Longrightarrow> same_identity l l' \<and> (webhook_wf l \<longrightarrow> webhook_wf l')"
  by (cases l; cases l') (auto simp: terms_only_def same_identity_def webhook_wf_def)

text \<open>The licences after an event: the old ones with new terms, and at most one new one.\<close>

definition stripe_change :: "env \<Rightarrow> product \<Rightarrow> session \<Rightarrow> session \<Rightarrow> bool" where
  "stripe_change E p s s' \<longleftrightarrow> (\<exists>ls new. licenses s' = ls @ new \<and> list_all2 (terms_only (p_id p)) (licenses s) ls
       \<and> length new \<le> 1 \<and> (\<forall>l \<in> set new. l_product_id l = p_id p \<and> l_status l = Active
            \<and> l_valid_until l = now s + 30 * day_us \<and> l_webhook_url l = None))
     \<and> products s' = products s \<and> presets s' = presets s \<and> installs s' = installs s
     \<and> deliveries s' = deliveries s \<and> stripe_events s' = stripe_events s \<and> tasks s' = tasks s
     \<and> mfa_row s' = mfa_row s \<and> now s' = now s \<and> (rows_ok E s \<longrightarrow> rows_ok E s')"

lemma stripe_change_refl [simp]: "stripe_change E p s s"
  unfolding stripe_change_def
  by (intro conjI exI[of _ "licenses s"] exI[of _ "[]"]) (simp_all add: list.rel_refl)

lemma put_license_all2:
  assumes "lic \<in> set (licenses s)" and "distinct (map l_id (licenses s))" and "terms_only pid lic lic'"
  shows "list_all2 (terms_only pid) (licenses s) (licenses (put_license lic' s))"
proof -
  have id: "l_id lic' = l_id lic" using terms_only_identity[OF assms(3)] by (simp add: same_identity_def)
  have "terms_only pid x (if l_id x = l_id lic' then lic' else x)" if "x \<in> set (licenses s)" for x
    using that assms id by (auto simp: distinct_map dest: inj_onD)
  then show ?thesis
    by (simp add: put_license_def update_where_def list.rel_map list_all2_same)
qed

lemma put_license_change:
  assumes "lic \<in> set (licenses s)" and "distinct (map l_id (licenses s))" and "terms_only (p_id p) lic lic'"
  shows "stripe_change E p s (audit l q ty pl nt (put_license lic' s))"
proof -
  have "rows_ok E s \<Longrightarrow> rows_ok E (put_license lic' s)"
    using assms(1) terms_only_identity[OF assms(3)] rows_ok_license[of E s lic]
    by (intro rows_ok_put_license) (auto simp: license_wf_def)
  then show ?thesis unfolding stripe_change_def
    using put_license_all2[OF assms]
    by (intro conjI exI[of _ "licenses (put_license lic' s)"] exI[of _ "[]"]) (simp_all add: table_simps)
qed

lemma mark_license_change:
  assumes "lic \<in> set (licenses s)" and "distinct (map l_id (licenses s))"
  shows "stripe_change E p s (mark_license p st nt lic s)"
    and "set (licenses (mark_license p st nt lic s)) \<supseteq> {x \<in> set (licenses s). l_id x \<noteq> l_id lic}"
    and "map l_id (licenses (mark_license p st nt lic s)) = map l_id (licenses s)"
  using assms put_license_change[OF assms, of p "lic\<lparr>l_status := st\<rparr>" E] license_store.keys_put
    license_store.put_other
  by (auto simp: mark_license_def terms_only_def table_simps)

text \<open>Two changes that add no licence compose.\<close>

lemma stripe_change_trans:
  assumes "stripe_change E p s s'" and "stripe_change E p s' s''" and "length (licenses s') = length (licenses s)"
  shows "stripe_change E p s s''"
proof -
  obtain ls new where l: "licenses s' = ls @ new" "list_all2 (terms_only (p_id p)) (licenses s) ls"
    using assms(1) unfolding stripe_change_def by blast
  with assms(3) have "new = []" by (auto dest: list_all2_lengthD)
  obtain ms extra where m: "licenses s'' = ms @ extra" "list_all2 (terms_only (p_id p)) (licenses s') ms" "length extra \<le> 1"
      "\<forall>l \<in> set extra. l_product_id l = p_id p \<and> l_status l = Active
            \<and> l_valid_until l = now s + 30 * day_us \<and> l_webhook_url l = None"
    using assms(1,2) unfolding stripe_change_def by force
  have "list_all2 (terms_only (p_id p)) (licenses s) ms"
    by (rule list_all2_trans[of "terms_only (p_id p)" "terms_only (p_id p)", OF terms_only_trans])
      (use l m \<open>new = []\<close> in simp_all)
  with m assms(1,2) show ?thesis unfolding stripe_change_def by auto
qed

lemma mark_all_change:
  assumes "set ls \<subseteq> set (licenses s)" and "distinct (map l_id ls)" and "distinct (map l_id (licenses s))"
  shows "stripe_change E p s (fold (mark_license p st nt) ls s)
    \<and> map l_id (licenses (fold (mark_license p st nt) ls s)) = map l_id (licenses s)"
  using assms
proof (induction ls arbitrary: s)
  case (Cons l ls)
  let ?s = "mark_license p st nt l s"
  have l: "l \<in> set (licenses s)" and d: "distinct (map l_id (licenses s))" using Cons.prems by auto
  note m = mark_license_change[OF l d, where p = p and st = st and nt = nt]
  have "set ls \<subseteq> set (licenses ?s)"
    using Cons.prems m(2) by (force simp: image_iff)
  then have ih: "stripe_change E p ?s (fold (mark_license p st nt) ls ?s)
    \<and> map l_id (licenses (fold (mark_license p st nt) ls ?s)) = map l_id (licenses ?s)"
    using Cons.IH[of ?s] Cons.prems(2,3) m(3) by simp
  have "length (licenses ?s) = length (licenses s)" using m(3) by (metis length_map)
  with ih m(1,3) show ?case by (auto intro: stripe_change_trans)
qed simp

lemma latest_license_Some:
  assumes "latest_license p c s = Some l"
  shows "l \<in> set (licenses s) \<and> l_customer_id l = c_id c \<and> l_product_id l = p_id p
    \<and> (\<forall>x \<in> set (licenses s). l_customer_id x = c_id c \<and> l_product_id x = p_id p \<longrightarrow> l_created_at x \<le> l_created_at l)"
proof -
  let ?t = "order_by_desc l_created_at (filter (\<lambda>l. l_customer_id l = c_id c \<and> l_product_id l = p_id p) (licenses s))"
  obtain ls where t: "?t = l # ls"
    using assms by (auto simp: latest_license_def split: list.splits)
  have s: "set ?t = {l \<in> set (licenses s). l_customer_id l = c_id c \<and> l_product_id l = p_id p}"
    by (simp add: table_simps)
  have "\<forall>x \<in> set ls. l_created_at x \<le> l_created_at l"
    using sorted_order_by_desc[of l_created_at] t by (metis sorted_wrt.simps(2))
  with s show ?thesis unfolding t by auto
qed

lemma extend_license_change:
  assumes "extend_license p lic s = Inr s'" and "lic \<in> set (licenses s)" and "l_product_id lic = p_id p"
    and "distinct (map l_id (licenses s))"
  shows "stripe_change E p s s'"
proof -
  obtain vu where vu: "add_delta (max (l_valid_until lic) (now s)) (30 * day_us) = Inr vu"
    and s': "s' = audit (Some (l_id lic)) (Some (p_id p)) ''extended''
       (JDict [(''new_valid_until'', JStr (isoformat vu))]) None
       (put_license (lic\<lparr>l_valid_until := vu, l_status := Active\<rparr>) s)"
    using assms(1) by (auto simp: extend_license_def rbind_Inr_iff)
  have "l_valid_until lic \<le> vu" using vu by (auto simp: add_delta_Inr us_defs)
  then have "terms_only (p_id p) lic (lic\<lparr>l_valid_until := vu, l_status := Active\<rparr>)"
    using assms(3) by (cases lic) (simp add: terms_only_def)
  then show ?thesis unfolding s' by (rule put_license_change[OF assms(2,4)])
qed

lemma create_paid_license_change:
  assumes "create_paid_license E p c s = Inr s'" and "p \<in> set (products s)" and "c \<in> set (customers s)"
  shows "stripe_change E p s s'"
proof -
  obtain lic s1 where n: "new_license E p c ''standard'' 10 30 (JDict []) None False s = Inr (lic, s1)"
    and s': "s' = snd (send_license_email E (c_email c) (l_key lic) (p_name p)
       (audit None (Some (p_id p)) ''issued'' (JDict []) (Some ''stripe invoice.paid'')
         (s1\<lparr>licenses := licenses s1 @ [lic]\<rparr>)))"
    using assms(1) by (auto simp: create_paid_license_def rbind_Inr_iff)
  let ?s2 = "audit None (Some (p_id p)) ''issued'' (JDict []) (Some ''stripe invoice.paid'')
         (s1\<lparr>licenses := licenses s1 @ [lic]\<rparr>)"
  obtain ob where o: "s' = ?s2\<lparr>outbox := ob\<rparr>" using s' send_license_email_frame by blast
  obtain j k where s1: "s1 = s\<lparr>n_rand := k, n_uuid := j\<rparr>" using new_license_Inr(4)[OF n] by blast
  note l = new_license_Inr(1,3)[OF n]
  have "rows_ok E (s1\<lparr>licenses := licenses s1 @ [lic]\<rparr>)" if "rows_ok E s"
  proof (rule rows_ok_add_license)
    show "rows_ok E s1" using that by (simp add: s1 rows_ok_def placed_def)
    show "license_wf E lic" using l by (simp add: license_wf_def webhook_wf_def)
    show "placed s1 lic" using l assms(2,3) by (simp add: placed_def s1)
  qed
  then have "rows_ok E s \<longrightarrow> rows_ok E s'" by (simp add: o table_simps)
  then show ?thesis unfolding stripe_change_def
    using l by (intro conjI exI[of _ "licenses s"] exI[of _ "[lic]"]) (simp_all add: o s1 table_simps list.rel_refl)
qed

text \<open>The customers: the old ones, and at most the one the event names.\<close>

lemma extend_or_create_change:
  assumes "extend_or_create E p cid email s = Inr s'" and "p \<in> set (products s)"
    and "distinct (map l_id (licenses s))" and "new_events s = []"
  shows "stripe_change E p s s' \<and> (customers s' = customers s \<or> (\<exists>c. customers s' = customers s @ [c]
    \<and> c_stripe_customer_id c = cid \<and> Some (c_email c) = email))"
proof (cases cid)
  case None
  with assms show ?thesis by (simp add: extend_or_create_def)
next
  case (Some i)
  obtain found where f: "stripe_customer i s = Inr found"
    using assms(1) Some by (auto simp: extend_or_create_def rbind_Inr_iff)
  have main: "stripe_change E p s1 s' \<and> customers s' = customers s1"
    if r: "(case latest_license p c s1 of None \<Rightarrow> create_paid_license E p c s1
            | Some lic \<Rightarrow> extend_license p lic s1) = Inr s'"
      and c: "c \<in> set (customers s1)" and p: "p \<in> set (products s1)" and d: "distinct (map l_id (licenses s1))"
    for c s1
  proof (cases "latest_license p c s1")
    case None
    with r have "create_paid_license E p c s1 = Inr s'" by simp
    moreover have "customers s' = customers s1"
      using calculation new_license_Inr(4)
      by (auto simp: create_paid_license_def rbind_Inr_iff send_license_email_def send_email_frame table_simps
          dest!: new_license_Inr(4))
    ultimately show ?thesis using create_paid_license_change c p by blast
  next
    case (Some l)
    with r have e: "extend_license p l s1 = Inr s'" by simp
    then have "customers s' = customers s1" by (auto simp: extend_license_def rbind_Inr_iff table_simps)
    with extend_license_change[OF e] latest_license_Some[OF Some] d show ?thesis by blast
  qed
  show ?thesis
  proof (cases found)
    case (Some c)
    then have "c \<in> set (customers s)" using f by (auto simp: stripe_customer_def dest: one_or_none_SomeD(1,2))
    moreover have "(case latest_license p c s of None \<Rightarrow> create_paid_license E p c s
            | Some lic \<Rightarrow> extend_license p lic s) = Inr s'"
      using assms(1) \<open>cid = Some i\<close> f Some by (simp add: extend_or_create_def)
    ultimately show ?thesis using main assms(2,3) by blast
  next
    case None
    show ?thesis
    proof (cases email)
      case None
      then show ?thesis using assms(1) \<open>cid = Some i\<close> f \<open>found = None\<close> by (simp add: extend_or_create_def)
    next
      case (Some m)
      obtain c s1 where a: "add_stripe_customer E i m s = Inr (c, s1)"
        and r: "(case latest_license p c s1 of None \<Rightarrow> create_paid_license E p c s1
            | Some lic \<Rightarrow> extend_license p lic s1) = Inr s'"
        using assms(1) \<open>cid = Some i\<close> f \<open>found = None\<close> Some
        by (auto simp: extend_or_create_def rbind_Inr_iff)
      have c: "c_stripe_customer_id c = Some i" "c_email c = m"
        and s1: "s1 = flush_events E (s\<lparr>n_uuid := Suc (n_uuid s), customers := customers s @ [c]\<rparr>)"
        using a by (auto simp: add_stripe_customer_def fresh_id_def rbind_Inr_iff flush_Inr Let_def)
      have m: "stripe_change E p s1 s' \<and> customers s' = customers s1"
        using s1 assms(2,3) by (intro main[OF r]) (simp_all add: table_simps)
      have "stripe_change E p s s1" unfolding stripe_change_def
        by (intro conjI exI[of _ "licenses s"] exI[of _ "[]"])
          (auto simp: s1 table_simps list.rel_refl rows_ok_def placed_def)
      moreover have "length (licenses s1) = length (licenses s)" by (simp add: s1 table_simps)
      ultimately have "stripe_change E p s s'" using m stripe_change_trans by blast
      moreover have "customers s' = customers s @ [c]" using m s1 by (simp add: table_simps)
      moreover have "c_stripe_customer_id c = cid \<and> Some (c_email c) = email"
        using c \<open>cid = Some i\<close> Some by simp
      ultimately show ?thesis by blast
    qed
  qed
qed

lemma mark_status_change:
  assumes "mark_status p cid st nt s = Inr s'" and "distinct (map l_id (licenses s))"
  shows "stripe_change E p s s' \<and> customers s' = customers s"
proof -
  have c: "customers (fold (mark_license p st nt) ls t) = customers t" for ls t
    by (induction ls arbitrary: t) (simp_all add: mark_license_def table_simps)
  have "stripe_change E p s (fold (mark_license p st nt) (filter P (licenses s)) s)" for P
    using mark_all_change[of "filter P (licenses s)" s E p st nt] assms(2) by (simp add: distinct_map_filter)
  with c assms(1) show ?thesis
    by (auto simp: mark_status_def rbind_Inr_iff split: option.splits)
qed

lemma handle_event_change:
  assumes "handle_event E p ty ev s = Inr s'" and "p \<in> set (products s)"
    and "distinct (map l_id (licenses s))" and "new_events s = []"
  shows "stripe_change E p s s' \<and> (customers s' = customers s \<or> (\<exists>c. customers s' = customers s @ [c]))"
proof -
  have "(\<exists>cid m. extend_or_create E p cid m s = Inr s') \<or> (\<exists>cid st nt. mark_status p cid st nt s = Inr s') \<or> s' = s"
    using assms(1) unfolding handle_event_def on_invoice_paid_def on_status_event_def
    by (auto simp: rbind_Inr_iff split: if_splits)
  then show ?thesis
    using extend_or_create_change[OF _ assms(2-4)] mark_status_change[OF _ assms(3)] by fastforce
qed

section \<open>The endpoint's guarantees\<close>

lemma stripe_webhook_cases:
  assumes "stripe_webhook E slug body sig s = Inr (r, s')"
  obtains (duplicate) p ev i t where "signed_event E slug body sig s = Inr (p, ev)" "get_attr ev ''id'' = Inr i"
      "item ev ''type'' = Inr t" "claim_event E p (text_or_none i) (payload_str t) s = Inr None"
      "r = received (payload_str t) slug True" "s' = s"
  | (handled) p ev i t s1 s2 where "signed_event E slug body sig s = Inr (p, ev)" "get_attr ev ''id'' = Inr i"
      "item ev ''type'' = Inr t" "claim_event E p (text_or_none i) (payload_str t) s = Inr (Some s1)"
      "handle_event E p (payload_str t) ev s1 = Inr s2" "commit E s2 = Inr s'"
      "r = received (payload_str t) slug False"
proof -
  obtain p ev i t c where a: "signed_event E slug body sig s = Inr (p, ev)" "get_attr ev ''id'' = Inr i"
      "item ev ''type'' = Inr t" "claim_event E p (text_or_none i) (payload_str t) s = Inr c"
    and r: "(case c of None \<Rightarrow> Inr (received (payload_str t) slug True, s)
     | Some s1 \<Rightarrow> rbind (handle_event E p (payload_str t) ev s1) (\<lambda>s2.
         rbind (commit E s2) (\<lambda>s3. Inr (received (payload_str t) slug False, s3)))) = Inr (r, s')"
    using assms unfolding stripe_webhook_def by (auto simp: rbind_Inr_iff)
  show ?thesis
  proof (cases c)
    case None
    with a r show ?thesis by (intro duplicate) auto
  next
    case (Some s1)
    with r obtain s2 where "handle_event E p (payload_str t) ev s1 = Inr s2" "commit E s2 = Inr s'"
        "r = received (payload_str t) slug False" by (auto simp: rbind_Inr_iff)
    with a Some show ?thesis by (intro handled) auto
  qed
qed

lemma signed_event_Inr:
  assumes "signed_event E slug body sig s = Inr (p, ev)"
  shows "p \<in> set (products s) \<and> p_slug p = slug
    \<and> (\<exists>k. decrypt_secret E (p_stripe_webhook_secret p) = Inr k \<and> stripe_event_of E (now s) body sig (the k) = Some ev)"
proof -
  obtain found where f: "find_product slug s = Inr found"
    using assms by (auto simp: signed_event_def rbind_Inr_iff)
  then obtain q where q: "found = Some q" using assms by (cases found) (auto simp: signed_event_def)
  obtain k where k: "decrypt_secret E (p_stripe_webhook_secret q) = Inr k"
    using assms f q by (auto simp: signed_event_def split: if_splits sum.splits)
  have "p = q" "stripe_event_of E (now s) body sig (the k) = Some ev"
    using assms f q k by (auto simp: signed_event_def split: if_splits option.splits)
  moreover have "q \<in> set (products s)" "p_slug q = slug"
    using f q unfolding find_product_def by (auto dest: one_or_none_SomeD(1,2))
  ultimately show ?thesis using k by blast
qed

lemma signed_event_cong:
  assumes "products t = products s" and "now t = now s"
  shows "signed_event E slug body sig t = signed_event E slug body sig s"
  unfolding signed_event_def find_product_def assms ..

lemma claim_event_Some:
  assumes "claim_event E p i ty s = Inr (Some s1)" and "new_events s = []"
  shows "\<exists>row. s1 = s\<lparr>stripe_events := stripe_events s @ row\<rparr> \<and> se_id ` set row = set_option i
    \<and> (\<forall>k. i = Some k \<longrightarrow> (\<forall>x \<in> set (stripe_events s). se_id x \<noteq> k))"
proof (cases i)
  case None
  with assms show ?thesis by (intro exI[of _ "[]"]) (simp add: claim_event_def)
next
  case (Some k)
  let ?r = "\<lparr>se_id = k, se_product_id = Some (p_id p), se_type = ty, se_processed_at = now s\<rparr>"
  from assms(1) Some have "one_or_none (\<lambda>x. se_id x = k) (stripe_events s) = Inr None"
    and "flush E (s\<lparr>stripe_events := stripe_events s @ [?r]\<rparr>) = Inr s1"
    by (auto simp: claim_event_def rbind_Inr_iff split: if_splits sum.splits)
  with assms(2) Some show ?thesis
    by (intro exI[of _ "[?r]"]) (auto simp: flush_Inr flush_events_none one_or_none_None)
qed

lemma stripe_webhook_change:
  assumes "stripe_webhook E slug body sig s = Inr (r, s')" and "good E s"
  obtains p ev i t row where "signed_event E slug body sig s = Inr (p, ev)" "get_attr ev ''id'' = Inr i"
    "item ev ''type'' = Inr t"
    "stripe_change E p (s\<lparr>stripe_events := stripe_events s @ row\<rparr>) s'"
    "customers s' = customers s \<or> (\<exists>c. customers s' = customers s @ [c])"
    "\<forall>k. text_or_none i = Some k \<longrightarrow> k \<in> se_id ` set (stripe_events s')" "good E s'"
  using assms(1)
proof (cases rule: stripe_webhook_cases)
  case (duplicate p ev i t)
  have "k \<in> se_id ` set (stripe_events s)" if "text_or_none i = Some k" for k
  proof (rule ccontr)
    let ?r = "\<lparr>se_id = k, se_product_id = Some (p_id p), se_type = payload_str t, se_processed_at = now s\<rparr>"
    assume n: "\<not> ?thesis"
    then have "one_or_none (\<lambda>x. se_id x = k) (stripe_events s) = Inr None" by (auto simp: one_or_none_None)
    moreover have "constraints_ok (s\<lparr>stripe_events := stripe_events s @ [?r]\<rparr>)"
      using assms(2) n by (auto simp: good_def constraints_ok_def)
    moreover have "new_events s = []" using assms(2) by (simp add: good_def)
    ultimately show False using duplicate(4) that
      by (simp add: claim_event_def flush_def flush_events_none Let_def)
  qed
  then show ?thesis using duplicate assms(2) by (intro that[of p ev i t "[]"]) auto
next
  case (handled p ev i t s1 s2)
  have ne: "new_events s = []" and d: "distinct (map l_id (licenses s))"
    using assms(2) by (simp_all add: good_def constraints_ok_def)
  from claim_event_Some[OF handled(4) ne] obtain row where
    s1: "s1 = s\<lparr>stripe_events := stripe_events s @ row\<rparr>" and row: "se_id ` set row = set_option (text_or_none i)"
    by blast
  have p: "p \<in> set (products s1)" using signed_event_Inr[OF handled(1)] s1 by simp
  have h: "stripe_change E p s1 s2 \<and> (customers s2 = customers s1 \<or> (\<exists>c. customers s2 = customers s1 @ [c]))"
    by (rule handle_event_change[OF handled(5) p]) (use d ne s1 in simp_all)
  have s': "s' = flush_events E s2" using handled(6) by (simp add: commit_Inr)
  have f: "stripe_change E p s2 s'" unfolding stripe_change_def s'
    by (intro conjI exI[of _ "licenses s2"] exI[of _ "[]"]) (simp_all add: table_simps list.rel_refl)
  have "stripe_change E p s1 s'" using h unfolding stripe_change_def s' by (simp add: table_simps)
  moreover have "rows_ok E s2"
    using h assms(2) s1 unfolding stripe_change_def by (simp add: good_def table_simps)
  then have "good E s'" using handled(6) by (rule good_commit[rotated])
  moreover have "stripe_events s' = stripe_events s1" using calculation(1) by (simp add: stripe_change_def)
  ultimately show ?thesis using handled s1 row h s' by (intro that[of p ev i t row]) (auto simp: table_simps)
qed

lemma stripe_webhook_good:
  "stripe_webhook E slug body sig s = Inr (r, s') \<Longrightarrow> good E s \<Longrightarrow> good E s'"
  by (blast elim: stripe_webhook_change)

text \<open>
  C4: an event is applied once. After the endpoint has accepted an event that has an
  identifier, every later delivery that carries a valid event of the same identifier, at
  whatever time, freshly signed or not, with whatever body and for whichever product, to any
  state that still holds the claimed identifiers, changes nothing and is answered as a duplicate.
  (A delivery whose signature is no longer accepted is refused, and changes nothing either.)
\<close>

theorem stripe_exactly_once:
  assumes "stripe_webhook E slug body sig s = Inr (r, s')" and "good E s"
    and "signed_event E slug body sig s = Inr (p, ev)" and "get_attr ev ''id'' = Inr i" and "text_or_none i = Some k"
    and "set (stripe_events s') \<subseteq> set (stripe_events t)" and "distinct (map se_id (stripe_events t))"
    and "signed_event E slug' body' sig' t = Inr (q, ev')" and "get_attr ev' ''id'' = Inr i'"
    and "text_or_none i' = Some k" and "item ev' ''type'' = Inr ty"
  shows "stripe_webhook E slug' body' sig' t = Inr (received (payload_str ty) slug' True, t)"
  using assms(1,2)
proof (rule stripe_webhook_change)
  fix p2 ev2 i2
  assume e: "signed_event E slug body sig s = Inr (p2, ev2)" "get_attr ev2 ''id'' = Inr i2"
    and k: "\<forall>k. text_or_none i2 = Some k \<longrightarrow> k \<in> se_id ` set (stripe_events s')"
  have "k \<in> se_id ` set (stripe_events s')" using e k assms(3-5) by simp
  then obtain x where x: "x \<in> set (stripe_events t)" "se_id x = k" using assms(6) by blast
  have "one_or_none (\<lambda>x. se_id x = k) (stripe_events t) = Inr (Some x)"
    using one_or_none_key[OF assms(7) x(1)] x(2) by simp
  then have "claim_event E q (text_or_none i') (payload_str ty) t = Inr None"
    by (simp add: claim_event_def assms(10))
  then show ?thesis using assms(8,9,11) by (simp add: stripe_webhook_def)
qed

text \<open>
  C15: an accepted event carries a valid signature under the secret of the product it is
  addressed to, and only reaches that product: no other product's licence, no key, no
  webhook setting, no delivery and no install changes, the validity of a licence is never
  shortened, and at most one licence (active, thirty days, without a webhook) is added.
\<close>

theorem stripe_isolation:
  assumes "stripe_webhook E slug body sig s = Inr (r, s')" and "good E s"
  shows "\<exists>p \<in> set (products s). \<exists>ev k ls new. p_slug p = slug
    \<and> decrypt_secret E (p_stripe_webhook_secret p) = Inr k \<and> stripe_event_of E (now s) body sig (the k) = Some ev
    \<and> licenses s' = ls @ new \<and> list_all2 (terms_only (p_id p)) (licenses s) ls \<and> length new \<le> 1
    \<and> (\<forall>l \<in> set new. l_product_id l = p_id p \<and> l_status l = Active \<and> l_webhook_url l = None
         \<and> l_valid_until l = now s + 30 * day_us)
    \<and> products s' = products s \<and> installs s' = installs s \<and> deliveries s' = deliveries s
    \<and> presets s' = presets s \<and> mfa_row s' = mfa_row s \<and> good E s'"
  using assms
proof (rule stripe_webhook_change)
  fix p ev i ty row
  assume e: "signed_event E slug body sig s = Inr (p, ev)"
    and c: "stripe_change E p (s\<lparr>stripe_events := stripe_events s @ row\<rparr>) s'" and g: "good E s'"
  from c obtain ls new where "licenses s' = ls @ new" "list_all2 (terms_only (p_id p)) (licenses s) ls"
    "length new \<le> 1" "\<forall>l \<in> set new. l_product_id l = p_id p \<and> l_status l = Active
            \<and> l_valid_until l = now s + 30 * day_us \<and> l_webhook_url l = None"
    unfolding stripe_change_def by auto
  moreover have "products s' = products s \<and> installs s' = installs s \<and> deliveries s' = deliveries s
    \<and> presets s' = presets s \<and> mfa_row s' = mfa_row s" using c by (simp add: stripe_change_def)
  ultimately show ?thesis using signed_event_Inr[OF e] g by blast
qed

text \<open>
  A status event sets the status of every licence the customer has of the product, whatever
  it was: a failed payment makes a revoked or disabled licence delinquent, which the licence check admits.
\<close>

lemma mark_licenses:
  assumes "set ls \<subseteq> set (licenses s)" and "distinct (map l_id ls)" and "distinct (map l_id (licenses s))"
  shows "licenses (fold (mark_license p st nt) ls s) =
    map (\<lambda>x. if x \<in> set ls \<and> l_product_id x = p_id p then x\<lparr>l_status := st\<rparr> else x) (licenses s)"
  using assms
proof (induction ls arbitrary: s)
  case (Cons l ls)
  let ?t = "mark_license p st nt l s"
  have same: "x = l" if "x \<in> set (licenses s)" "l_id x = l_id l" for x
    using that Cons.prems(1,3) by (auto simp: distinct_map inj_on_def)
  have t: "licenses ?t = map (\<lambda>x. if x = l \<and> l_product_id x = p_id p then x\<lparr>l_status := st\<rparr> else x) (licenses s)"
    using same by (auto simp: mark_license_def table_simps put_license_def update_where_def intro!: map_idI[symmetric])
  have other: "l_id x \<noteq> l_id l" if "x \<in> set ls" for x using that Cons.prems(2) by (metis distinct.simps(2) image_eqI list.set_map list.simps(9))
  have "set ls \<subseteq> set (licenses ?t)"
  proof
    fix x assume x: "x \<in> set ls"
    with Cons.prems(1) have "x \<in> set (licenses s)" by auto
    moreover have "x \<noteq> l" using other[OF x] by auto
    ultimately show "x \<in> set (licenses ?t)" unfolding t by force
  qed
  moreover have "distinct (map l_id (licenses ?t))"
  proof -
    have "l_id \<circ> (\<lambda>x. if x = l \<and> l_product_id x = p_id p then x\<lparr>l_status := st\<rparr> else x) = l_id" by (rule ext) simp
    then show ?thesis using Cons.prems(3) by (simp add: t)
  qed
  ultimately have "licenses (fold (mark_license p st nt) ls ?t) =
      map (\<lambda>x. if x \<in> set ls \<and> l_product_id x = p_id p then x\<lparr>l_status := st\<rparr> else x) (licenses ?t)"
    using Cons.IH Cons.prems(2) by simp
  moreover have "l\<lparr>l_status := st\<rparr> \<notin> set ls" using other by force
  ultimately show ?case by (auto simp: t dest: other)
qed simp

lemma mark_status_exact:
  assumes "mark_status p (Some cid) st nt s = Inr s'" and "stripe_customer cid s = Inr (Some c)"
    and "distinct (map l_id (licenses s))"
  shows "licenses s' = map (\<lambda>x. if l_customer_id x = c_id c \<and> l_product_id x = p_id p then x\<lparr>l_status := st\<rparr> else x) (licenses s)"
proof -
  have "s' = fold (mark_license p st nt) (filter (\<lambda>l. l_customer_id l = c_id c) (licenses s)) s"
    using assms(1,2) by (simp add: mark_status_def)
  then show ?thesis using mark_licenses[of "filter (\<lambda>l. l_customer_id l = c_id c) (licenses s)" s] assms(3)
    by (auto simp: distinct_map_filter)
qed

text \<open>
  C35: a paid invoice of a known customer extends the customer's latest licence of the
  product by thirty days from now or from its end, whichever is later, and makes it active
  whatever its status was: a revoked licence comes back.
\<close>

theorem invoice_paid_renews:
  assumes "extend_or_create E p (Some cid) m s = Inr s'" and "stripe_customer cid s = Inr (Some c)"
    and "latest_license p c s = Some lic"
  shows "set (licenses s') = insert (lic\<lparr>l_valid_until := max (l_valid_until lic) (now s) + 30 * day_us, l_status := Active\<rparr>)
      {x \<in> set (licenses s). l_id x \<noteq> l_id lic} \<and> customers s' = customers s"
proof -
  have "extend_license p lic s = Inr s'" using assms by (simp add: extend_or_create_def)
  then obtain vu where vu: "add_delta (max (l_valid_until lic) (now s)) (30 * day_us) = Inr vu"
    and s': "s' = audit (Some (l_id lic)) (Some (p_id p)) ''extended''
       (JDict [(''new_valid_until'', JStr (isoformat vu))]) None
       (put_license (lic\<lparr>l_valid_until := vu, l_status := Active\<rparr>) s)"
    by (auto simp: extend_license_def rbind_Inr_iff)
  have l: "lic \<in> set (licenses s)" using latest_license_Some[OF assms(3)] by simp
  have v: "vu = max (l_valid_until lic) (now s) + 30 * day_us" using vu by (simp add: add_delta_Inr)
  have "set (licenses (put_license (lic\<lparr>l_valid_until := vu, l_status := Active\<rparr>) s))
      = insert (lic\<lparr>l_valid_until := vu, l_status := Active\<rparr>) {x \<in> set (licenses s). l_id x \<noteq> l_id lic}"
    using license_store.put_rows[OF l, of "lic\<lparr>l_valid_until := vu, l_status := Active\<rparr>"] by simp
  then show ?thesis unfolding s' v[symmetric] by (simp add: table_simps)
qed

section \<open>Examples\<close>

definition paid_event :: json where
  "paid_event = JDict [(''id'', JStr ''evt_1''), (''type'', JStr ''invoice.paid''),
     (''data'', JDict [(''object'', JDict [(''customer'', JStr ''cus_1''), (''customer_email'', JStr ''a@example.com'')])])]"

definition paid_body :: string where "paid_body = dumps_compact paid_event"

definition paid_sig :: string where "paid_sig = ''t=1702771200,v1=sig:whsec''"

lemma paid_accepted: "\<exists>r s'. stripe_webhook shop_env ''demo'' paid_body paid_sig shop = Inr (r, s')"
proof -
  have "\<exists>x. stripe_webhook shop_env ''demo'' paid_body paid_sig shop = Inr x" by (rule is_okE) code_simp
  then show ?thesis by force
qed

lemma paid_signed: "signed_event shop_env ''demo'' paid_body paid_sig shop = Inr (sample_product, paid_event)"
  by code_simp

text \<open>The same event, signed again a thousand seconds later.\<close>

definition later_sig :: string where "later_sig = ''t=1702772200,v1=sig:whsec''"

theorem stripe_exactly_once_witness:
  "\<exists>r s'. stripe_webhook shop_env ''demo'' paid_body paid_sig shop = Inr (r, s')
    \<and> signed_event shop_env ''demo'' paid_body paid_sig (s'\<lparr>now := now shop + 1000 * second_us\<rparr>) = Inl (HTTPException 400 ''invalid signature'')
    \<and> stripe_webhook shop_env ''demo'' paid_body later_sig (s'\<lparr>now := now shop + 1000 * second_us\<rparr>)
        = Inr (received ''invoice.paid'' ''demo'' True, s'\<lparr>now := now shop + 1000 * second_us\<rparr>)"
proof -
  obtain r s' where a: "stripe_webhook shop_env ''demo'' paid_body paid_sig shop = Inr (r, s')"
    using paid_accepted by blast
  let ?t = "s'\<lparr>now := now shop + 1000 * second_us\<rparr>"
  have p: "products s' = products shop"
    using a shop_good by (rule stripe_webhook_change) (simp add: stripe_change_def)
  have c: "signed_event shop_env ''demo'' paid_body sig ?t = signed_event shop_env ''demo'' paid_body sig (shop\<lparr>now := now shop + 1000 * second_us\<rparr>)" for sig
    using p by (intro signed_event_cong) simp_all
  have l: "signed_event shop_env ''demo'' paid_body later_sig ?t = Inr (sample_product, paid_event)"
    unfolding c by code_simp
  have o: "signed_event shop_env ''demo'' paid_body paid_sig ?t = Inl (HTTPException 400 ''invalid signature'')"
    unfolding c by code_simp
  have i: "get_attr paid_event ''id'' = Inr (Some (JStr ''evt_1''))" "text_or_none (Some (JStr ''evt_1'')) = Some ''evt_1''"
    "item paid_event ''type'' = Inr (JStr ''invoice.paid'')" by code_simp+
  have d: "distinct (map se_id (stripe_events s'))"
    using stripe_webhook_good[OF a shop_good] by (simp add: good_def constraints_ok_def)
  show ?thesis
    using stripe_exactly_once[OF a shop_good paid_signed i(1,2) _ _ l i(1,2,3)] d a o by simp
qed

theorem stripe_isolation_witness:
  "\<exists>r s'. stripe_webhook shop_env ''demo'' paid_body paid_sig shop = Inr (r, s')
    \<and> products s' = products shop \<and> deliveries s' = []"
proof -
  obtain r s' where a: "stripe_webhook shop_env ''demo'' paid_body paid_sig shop = Inr (r, s')"
    using paid_accepted by blast
  have "deliveries shop = []" by code_simp
  with stripe_isolation[OF a shop_good] a show ?thesis by auto
qed

theorem invoice_paid_renews_witness:
  "\<exists>s'. extend_or_create shop_env sample_product (Some ''cus_1'') None (shop\<lparr>licenses := [sample_license\<lparr>l_status := Revoked\<rparr>]\<rparr>) = Inr s'
    \<and> (\<exists>l \<in> set (licenses s'). l_status l = Active)"
proof -
  let ?s = "shop\<lparr>licenses := [sample_license\<lparr>l_status := Revoked\<rparr>]\<rparr>"
  have "\<exists>s'. extend_or_create shop_env sample_product (Some ''cus_1'') None ?s = Inr s'" by (rule is_okE) code_simp
  then obtain s' where x: "extend_or_create shop_env sample_product (Some ''cus_1'') None ?s = Inr s'" ..
  have c: "stripe_customer ''cus_1'' ?s = Inr (Some sample_customer)" by code_simp
  have l: "latest_license sample_product sample_customer ?s = Some (sample_license\<lparr>l_status := Revoked\<rparr>)" by code_simp
  from invoice_paid_renews[OF x c l] x show ?thesis by auto
qed

end
