(* ===== verification/App.thy ===== *)
theory App
  imports Backups Exports Scripts Stripe Rewrap
begin

text \<open>
  The application around the handlers: the check of the configuration at start-up, the
  health endpoints and the mapping of exceptions to responses (\<^verbatim>\<open>app/main.py\<close>,
  \<^verbatim>\<open>app/services/errors.py\<close>), the key of the rate limits (\<^verbatim>\<open>app/rate_limit.py\<close>), the request
  identifier (\<^verbatim>\<open>app/request_id.py\<close>), the log lines (\<^verbatim>\<open>app/log_format.py\<close>) and the options of
  the database engine (\<^verbatim>\<open>app/db.py\<close>). A log message of the start-up check is a value that
  names it.
\<close>

section \<open>Start-up\<close>

datatype boot_message =
    SecretsIdentical
  | KekUnset
  | KekRequired
  | PepperRequired
  | PepperUnset
  | TestSender string
  | SecretsMissing "string list" bool

text \<open>The messages logged, in order, and the exit code if the process exits.\<close>

definition contains :: "string \<Rightarrow> string \<Rightarrow> bool" where
  "contains needle t = list_ex (\<lambda>n. starts_with needle (drop n t)) [0..<Suc (length t)]"

definition validate_secrets_at_boot :: "settings \<Rightarrow> (string \<rightharpoonup> string) \<Rightarrow> boot_message list \<times> int option" where
  "validate_secrets_at_boot c env =
    (let strict = env_flag env ''LICENSE_SERVER_REQUIRE_SECRETS'' '''';
         missing = (if admin_token c = [] then [''ADMIN_TOKEN''] else [])
           @ (if session_secret c = [] then [''SESSION_SECRET''] else []);
         same = (admin_token c \<noteq> [] \<and> session_secret c \<noteq> [] \<and> admin_token c = session_secret c);
         m1 = (if same then [SecretsIdentical] else [])
     in if same \<and> strict then (m1, Some 78)
     else let m2 = m1 @ (if key_encryption_key c = [] then [KekUnset] else [])
     in if require_kek c \<and> key_encryption_key c = [] then (m2 @ [KekRequired], Some 78)
     else if require_kek c \<and> license_key_pepper c = [] then (m2 @ [PepperRequired], Some 78)
     else let m3 = m2 @ (if license_key_pepper c = [] \<and> \<not> require_kek c then [PepperUnset] else [])
           @ (if resend_api_key c \<noteq> [] \<and> contains ''resend.dev'' (lower (email_from c)) then [TestSender (email_from c)] else [])
     in if missing = [] then (m3, None)
     else if strict then (m3 @ [SecretsMissing missing True], Some 78)
     else (m3 @ [SecretsMissing missing False], None))"

section \<open>Exceptions to responses\<close>

text \<open>The code and HTTP status of a service exception.\<close>

fun service_error :: "exc \<Rightarrow> (string \<times> int) option" where
  "service_error (NotFound m) = Some (''not_found'', 404)"
| "service_error (Conflict m) = Some (''conflict'', 409)"
| "service_error (ValidationFailed m) = Some (''validation_failed'', 400)"
| "service_error (Unsafe m) = Some (''unsafe'', 400)"
| "service_error _ = None"

definition service_error_handler :: "exc \<Rightarrow> string \<Rightarrow> int \<Rightarrow> response" where
  "service_error_handler e err_name st = respond st (JsonBody (JDict [(''code'', JStr err_name),
     (''detail'', JStr (if exc_text e \<noteq> [] then exc_text e else err_name))]))"

definition login_required_handler :: response where
  "login_required_handler = redirect ''/admin/login''"

definition handle_exception :: "exc \<Rightarrow> response" where
  "handle_exception e = (case service_error e of
      Some (err_name, st) \<Rightarrow> service_error_handler e err_name st
    | None \<Rightarrow> (case e of
        LoginRequired \<Rightarrow> login_required_handler
      | HTTPException st detail \<Rightarrow> respond st (JsonBody (JDict [(''detail'', JStr detail)]))
      | _ \<Rightarrow> respond 500 (TextBody ''Internal Server Error'')))"

section \<open>Health\<close>

definition healthz :: response where
  "healthz = json_response (JDict [(''status'', JStr ''ok''), (''version'', JStr APP_VERSION)])"

definition health :: response where
  "health = json_response (JDict [(''ok'', JBool True), (''version'', JStr APP_VERSION)])"

definition ready_body :: "string \<Rightarrow> string \<Rightarrow> string \<Rightarrow> string \<Rightarrow> (string \<times> json) list \<Rightarrow> body" where
  "ready_body status db kek sample extra = JsonBody (JDict ([(''status'', JStr status), (''version'', JStr APP_VERSION),
     (''db'', JStr db), (''kek'', JStr kek), (''sample_decrypt'', JStr sample)] @ extra))"

text \<open>The first product whose private key is stored encrypted is read as a sample.\<close>

definition sample_decrypt :: "env \<Rightarrow> session \<Rightarrow> string res" where
  "sample_decrypt E s = (case find (\<lambda>p. is_encrypted (Some (p_private_key_pem p))) (products s) of
      None \<Rightarrow> Inr ''no_encrypted_rows''
    | Some p \<Rightarrow> rbind (decrypt_secret E (Some (p_private_key_pem p))) (\<lambda>_. Inr ''ok''))"

fun is_runtime :: "exc \<Rightarrow> bool" where
  "is_runtime (RuntimeError m) = True" | "is_runtime e = False"

text \<open>The optional texts are the database errors of its two sessions, if they fail.\<close>

definition readyz :: "env \<Rightarrow> string option \<Rightarrow> string option \<Rightarrow> session \<Rightarrow> response res" where
  "readyz E ping_error query_error s =
    (let kek = (if key_encryption_key (cfg E) \<noteq> [] then ''set'' else ''unset'') in
     case ping_error of
       Some err \<Rightarrow> Inr (respond 503 (ready_body ''degraded'' err ''unknown'' ''skipped'' []))
     | None \<Rightarrow> (case query_error of
         Some err \<Rightarrow> Inr (respond 503 (ready_body ''degraded'' err kek ''skipped'' []))
       | None \<Rightarrow> (case sample_decrypt E s of
           Inl e \<Rightarrow> if is_runtime e then Inr (respond 503 (ready_body ''degraded'' ''ok''
               (if key_encryption_key (cfg E) \<noteq> [] then ''mismatch'' else ''missing'') ''fail'' [(''detail'', JStr (exc_text e))]))
             else Inl e
         | Inr sample \<Rightarrow> Inr (respond 200 (ready_body ''ok'' ''ok'' kek sample [])))))"

section \<open>Rate limits\<close>

text \<open>\<open>get_remote_address\<close> of the limiter package falls back to the loopback address.\<close>

definition client_ip :: "request \<Rightarrow> string" where
  "client_ip req = (case q_client req of None \<Rightarrow> ''127.0.0.1'' | Some host \<Rightarrow> host)"

definition rate_limit_exceeded_handler :: "string \<Rightarrow> response" where
  "rate_limit_exceeded_handler detail = respond 429 (JsonBody (JDict [(''code'', JStr ''rate_limited''),
     (''detail'', JStr (''rate limit exceeded: '' @ detail))]))"

section \<open>Request identifiers\<close>

definition id_char :: "char \<Rightarrow> bool" where
  "id_char c \<longleftrightarrow> is_alpha c \<or> is_digit c \<or> c \<in> set ''._-:''"

definition valid_id :: "string \<Rightarrow> bool" where
  "valid_id = re_match_dollar (re_class id_char 1 128)"

text \<open>\<open>uuid.uuid4().hex\<close>: the identifier without its dashes.\<close>

definition new_id :: "env \<Rightarrow> session \<Rightarrow> string \<times> session" where
  "new_id E s = (let (u, s1) = fresh_id E s in (filter (\<lambda>c. c \<noteq> CHR ''-'') u, s1))"

definition request_id_header :: string where "request_id_header = ''x-request-id''"

text \<open>The first header of the name decides; the headers have lower-case names.\<close>

definition request_id :: "env \<Rightarrow> (string \<times> string) list \<Rightarrow> session \<Rightarrow> string \<times> session" where
  "request_id E headers s = (case find (\<lambda>h. fst h = request_id_header) headers of
      Some (name, v) \<Rightarrow> if valid_id (strip v) then (strip v, s) else new_id E s
    | None \<Rightarrow> new_id E s)"

definition stamp_headers :: "string \<Rightarrow> (string \<times> string) list \<Rightarrow> (string \<times> string) list" where
  "stamp_headers rid headers = filter (\<lambda>h. fst h \<noteq> request_id_header) headers @ [(request_id_header, rid)]"

section \<open>Log lines\<close>

record log_record =
  lr_created :: datetime
  lr_level :: string
  lr_name :: string
  lr_message :: string
  lr_request_id :: "string option"
  lr_exc_info :: "string option"
  lr_stack_info :: "string option"

text \<open>\<open>json.dumps(..., ensure_ascii=False)\<close> on a string.\<close>

definition raw_char :: "char \<Rightarrow> string" where
  "raw_char c = (case map_of escapes c of Some e \<Rightarrow> [backslash, e]
     | None \<Rightarrow> if code c < 32 then [backslash, CHR ''u''] @ hex4 (code c) else [c])"

definition raw_str :: "string \<Rightarrow> string" where
  "raw_str t = quote # concat (map raw_char t) @ [quote]"

definition raw_dict :: "(string \<times> string) list \<Rightarrow> string" where
  "raw_dict ps = CHR ''{'' # intercalate '', '' (map (\<lambda>(k, v). raw_str k @ '': '' @ raw_str v) ps) @ ''}''"

definition millis_iso :: "datetime \<Rightarrow> string" where
  "millis_iso t = (let sec = t div second_us in date_iso t @ ''T'' @ pad 2 (sec div 3600 mod 24) @ '':''
     @ pad 2 (sec div 60 mod 60) @ '':'' @ pad 2 (sec mod 60) @ ''.'' @ pad 3 (t mod second_us div 1000) @ ''+00:00'')"

definition json_format :: "log_record \<Rightarrow> string" where
  "json_format r = raw_dict ([(''time'', millis_iso (lr_created r)), (''level'', lr_level r), (''logger'', lr_name r),
     (''message'', lr_message r), (''request_id'', (case lr_request_id r of Some i \<Rightarrow> i | None \<Rightarrow> ''-''))]
     @ (if truthy (lr_exc_info r) then [(''exc_info'', the (lr_exc_info r))] else [])
     @ (if truthy (lr_stack_info r) then [(''stack_info'', the (lr_stack_info r))] else []))"

section \<open>The database engine\<close>

definition engine_options :: "settings \<Rightarrow> json" where
  "engine_options c = (let is_sqlite = starts_with ''sqlite'' (database_url c) in JDict (
     [(''connect_args'', JDict (if is_sqlite then [(''check_same_thread'', JBool False)] else [])),
      (''future'', JBool True), (''pool_pre_ping'', JBool (\<not> is_sqlite))]
     @ (if is_sqlite then [] else [(''pool_size'', JInt (db_pool_size c)), (''max_overflow'', JInt (db_max_overflow c)),
          (''pool_recycle'', JInt (db_pool_recycle c))])))"

section \<open>Identifiers and log lines cannot be forged\<close>

lemma strip_last: "strip v \<noteq> [] \<Longrightarrow> \<not> py_isspace (last (strip v))"
  by (metis hd_dropWhile last_rev rev_is_Nil_conv rstrip_def strip_def)

lemma valid_id_strip: "valid_id (strip v) \<Longrightarrow> re_class id_char 1 128 (strip v)"
  using strip_last[of v] by (auto simp: valid_id_def re_match_dollar_def py_isspace_def newline_def code_def)

text \<open>
  C37: the identifier of a request, whatever its headers are, is 1 to 128 characters long
  and made of letters, digits and \<open>._-:\<close>, so it can smuggle nothing into a header or a log
  line; and a stamped response carries it exactly once.
\<close>

theorem request_id_safe:
  assumes "request_id E headers s = (rid, s1)"
    and "\<And>n. re_class id_char 1 128 (filter (\<lambda>c. c \<noteq> CHR ''-'') (uuid4 E n))"
  shows "1 \<le> length rid \<and> length rid \<le> 128 \<and> (\<forall>c \<in> set rid. is_alpha c \<or> is_digit c \<or> c \<in> set ''._-:'')
    \<and> filter (\<lambda>h. fst h = request_id_header) (stamp_headers rid hs) = [(request_id_header, rid)]
    \<and> (s1 = s \<longrightarrow> (request_id_header, rid) \<in> (\<lambda>h. (fst h, strip (snd h))) ` set headers)"
proof -
  have n: "new_id E s = (rid, s1) \<Longrightarrow> re_class id_char 1 128 rid \<and> s1 \<noteq> s"
    using assms(2) by (cases s) (auto simp: new_id_def fresh_id_def)
  have "re_class id_char 1 128 rid \<and> (s1 = s \<longrightarrow> (request_id_header, rid) \<in> (\<lambda>h. (fst h, strip (snd h))) ` set headers)"
  proof (cases "find (\<lambda>h. fst h = request_id_header) headers")
    case None
    with assms(1) n show ?thesis by (simp add: request_id_def)
  next
    case (Some h)
    then have "h \<in> set headers" "fst h = request_id_header" by (auto simp: find_Some_iff in_set_conv_nth)
    with Some assms(1) n valid_id_strip[of "snd h"] show ?thesis
      by (cases h) (force simp: request_id_def split: if_splits)
  qed
  then show ?thesis by (auto simp: re_class_def list_all_iff id_char_def stamp_headers_def filter_empty_conv)
qed

lemma parse_raw: "parse_str (raw_char c @ r) = map_option (\<lambda>(t, u). (c # t, u)) (parse_str r)"
proof (cases "map_of escapes c")
  case None
  show ?thesis
  proof (cases "code c < 32")
    case True
    with None have "raw_char c = esc_char c" by (simp add: raw_char_def esc_char_def)
    then show ?thesis by (simp add: parse_str_esc)
  next
    case False
    with None escapes_None[OF None] show ?thesis by (simp add: raw_char_def)
  qed
next
  case (Some e)
  then have "raw_char c = esc_char c" by (simp add: raw_char_def esc_char_def)
  then show ?thesis by (simp add: parse_str_esc)
qed

lemma parse_raw_str: "parse_str (concat (map raw_char t) @ quote # r) = Some (t, r)"
  by (induction t) (simp_all add: parse_raw)

lemma reads_raw: "reads 1 (JStr v) (raw_str v)"
proof -
  have "parse_value m (raw_str v @ r) = Some (JStr v, r)" if "1 \<le> m" for m r
    using that parse_raw_str[of v r] by (cases m) (simp_all add: raw_str_def)
  then show ?thesis by (simp add: reads_def raw_str_def json_ws_def newline_def)
qed

lemma raw_dump: "list_all (\<lambda>c. 32 \<le> code c \<and> code c \<le> 126) k \<Longrightarrow> raw_str k = dump_str k"
proof -
  have "raw_char c = esc_char c" if "32 \<le> code c \<and> code c \<le> 126" for c
    using that by (simp add: raw_char_def esc_char_def split: option.splits)
  then show "list_all (\<lambda>c. 32 \<le> code c \<and> code c \<le> 126) k \<Longrightarrow> raw_str k = dump_str k"
    by (auto simp: raw_str_def dump_str_def list_all_iff intro!: arg_cong[of _ _ concat] map_cong)
qed

lemma loads_raw_dict:
  assumes "ps \<noteq> []" and "distinct (map fst ps)" and "\<forall>p \<in> set ps. list_all (\<lambda>c. 32 \<le> code c \<and> code c \<le> 126) (fst p)"
  shows "loads (raw_dict ps) = Inr (JDict (map (\<lambda>p. (fst p, JStr (snd p))) ps))"
proof -
  let ?xs = "map (\<lambda>p. (fst p, JStr (snd p), raw_str (snd p))) ps"
  have eq: "raw_dict ps = CHR ''{'' # intercalate '', '' (map member ?xs) @ ''}''"
    using assms(3) by (auto simp: raw_dict_def member_def raw_dump o_def case_prod_beta intro!: arg_cong[of _ _ "intercalate _"] map_cong)
  have "reads (Suc (1 + length ps)) (JDict (map (\<lambda>p. (fst p, JStr (snd p))) ps)) (raw_dict ps)"
  proof -
    have "parse_value m (raw_dict ps @ r) = Some (JDict (map (\<lambda>p. (fst p, JStr (snd p))) ps), r)"
      if m: "Suc (1 + length ps) \<le> m" for m r
    proof -
      obtain n where n: "m = Suc n" "1 + length ?xs \<le> n" using m by (cases m) auto
      let ?t = "intercalate '', '' (map member ?xs) @ CHR ''}'' # r"
      have "parse_members n (intercalate (CHR '','' # '' '') (map member ?xs) @ [] @ CHR ''}'' # r)
          = Some (map (\<lambda>x. (fst x, fst (snd x))) ?xs, r)"
        by (rule parse_members_texts) (use n assms(1) reads_raw in \<open>auto simp: json_ws_def\<close>)
      then have pm: "parse_members n ?t = Some (map (\<lambda>p. (fst p, JStr (snd p))) ps, r)" by (simp add: o_def)
      obtain x ys where "?xs = x # ys" using assms(1) by (cases ps) auto
      then have "\<exists>u. ?t = member x @ u" by (cases ys) simp_all
      then obtain u where u: "?t = member x @ u" ..
      have sk: "skip_ws ?t = ?t" and hd: "hd ?t = quote" "?t \<noteq> []"
        unfolding u using member_hd[of x u] by auto
      show ?thesis using eq n(1) sk hd pm assms(2) by (simp add: dict_of_distinct o_def)
    qed
    then show ?thesis by (simp add: reads_def raw_dict_def json_ws_def newline_def)
  qed
  moreover have "length ps \<le> length (raw_dict ps)"
  proof -
    have "length ps \<le> length (intercalate '', '' (map (\<lambda>(k, v). raw_str k @ '': '' @ raw_str v) ps))"
      by (induction ps rule: induct_list012) (auto simp: raw_str_def)
    then show ?thesis by (simp add: raw_dict_def)
  qed
  ultimately show ?thesis by (intro loads_reads) auto
qed

lemma raw_char_code: "c \<in> set (raw_char d) \<Longrightarrow> 32 \<le> code c"
proof -
  have h: "32 \<le> code x" if "x \<in> set (hex4 n)" for x n
    using that printable_hex by (auto simp: hex4_def)
  assume c: "c \<in> set (raw_char d)"
  show ?thesis
  proof (cases "map_of escapes d")
    case None
    with c h show ?thesis by (auto simp: raw_char_def code_def split: if_splits)
  next
    case (Some e)
    then have "e \<in> snd ` set escapes" by (force dest: map_of_SomeD)
    with Some c show ?thesis by (auto simp: raw_char_def escapes_def code_def)
  qed
qed

lemma raw_str_code: "c \<in> set (raw_str t) \<Longrightarrow> 32 \<le> code c"
  using raw_char_code by (auto simp: raw_str_def code_def)

lemma set_intercalate: "c \<in> set (intercalate sep xs) \<Longrightarrow> c \<in> set sep \<or> (\<exists>x \<in> set xs. c \<in> set x)"
  by (induction sep xs rule: intercalate.induct) auto

lemma raw_dict_code: "c \<in> set (raw_dict ps) \<Longrightarrow> 32 \<le> code c"
  using raw_str_code by (auto simp: raw_dict_def code_def dest!: set_intercalate)


definition forged_record :: log_record where
  "forged_record = \<lparr>lr_created = 0, lr_level = ''INFO'', lr_name = ''app'', lr_message = ''a'' @ [newline] @ ''b'',
     lr_request_id = None, lr_exc_info = None, lr_stack_info = None\<rparr>"


definition hex_env :: env where
  "hex_env = shop_env\<lparr>uuid4 := \<lambda>n. ''0d1f-22''\<rparr>"

theorem request_id_safe_witness:
  "request_id hex_env [(''x-request-id'', ''bad id'' @ [newline] @ ''level: fake'')] shop = (''0d1f22'', shop\<lparr>n_uuid := 1\<rparr>)
     \<and> length ''0d1f22'' \<le> 128"
proof -
  have r: "request_id hex_env [(''x-request-id'', ''bad id'' @ [newline] @ ''level: fake'')] shop = (''0d1f22'', shop\<lparr>n_uuid := 1\<rparr>)"
    by code_simp
  have u: "re_class id_char 1 128 (filter (\<lambda>c. c \<noteq> CHR ''-'') (uuid4 hex_env n))" for n
    by (simp add: hex_env_def re_class_def id_char_def is_alpha_def is_digit_def code_def is_lower_def is_upper_def)
  from request_id_safe[OF r u] r show ?thesis by simp
qed

text \<open>
  A process that passes the strict start-up check, with a key and a pepper of a usable
  form, has distinct administrator and session secrets, can encrypt every secret it stores
  and never stores one in plain text, and can hash every licence key.
\<close>

theorem boot_strict:
  assumes "validate_secrets_at_boot (cfg E) env = (messages, None)"
    and "env_flag env ''LICENSE_SERVER_REQUIRE_SECRETS'' ''''" and "require_kek (cfg E)"
    and "fernet_key_ok E (key_encryption_key (cfg E))" and "length (license_key_pepper (cfg E)) \<le> 64"
  shows "admin_token (cfg E) \<noteq> [] \<and> session_secret (cfg E) \<noteq> [] \<and> admin_token (cfg E) \<noteq> session_secret (cfg E)
    \<and> (\<forall>n x. \<exists>y. encrypt_pem E n x = Inr y \<and> is_encrypted (Some y)) \<and> (\<forall>k. is_ok (hash_key E k))"
proof -
  have c: "admin_token (cfg E) \<noteq> []" "session_secret (cfg E) \<noteq> []" "admin_token (cfg E) \<noteq> session_secret (cfg E)"
    "key_encryption_key (cfg E) \<noteq> []" "license_key_pepper (cfg E) \<noteq> []"
    using assms(1-3) by (auto simp: validate_secrets_at_boot_def Let_def split: if_splits)
  then have "fernet E = Some (key_encryption_key (cfg E))" using assms(4) by (simp add: fernet_def)
  then have "\<exists>y. encrypt_pem E n x = Inr y \<and> is_encrypted (Some y)" for n x
    by (auto simp: encrypt_pem_cases)
  moreover have "is_ok (hash_key E k)" for k using c(5) assms(5) by (simp add: hash_key_def Let_def)
  ultimately show ?thesis using c by blast
qed

definition strict_env :: env where
  "strict_env = sample_env (default_settings\<lparr>admin_token := ''adm'', session_secret := ''ses'', require_kek := True,
     key_encryption_key := ''k1'', license_key_pepper := ''pepper''\<rparr>)"

theorem boot_strict_witness:
  "validate_secrets_at_boot (cfg strict_env) [''LICENSE_SERVER_REQUIRE_SECRETS'' \<mapsto> ''1''] = ([], None)
     \<and> admin_token (cfg strict_env) \<noteq> session_secret (cfg strict_env)"
proof -
  have v: "validate_secrets_at_boot (cfg strict_env) [''LICENSE_SERVER_REQUIRE_SECRETS'' \<mapsto> ''1''] = ([], None)"
    by code_simp
  have "env_flag [''LICENSE_SERVER_REQUIRE_SECRETS'' \<mapsto> ''1''] ''LICENSE_SERVER_REQUIRE_SECRETS'' ''''"
    "require_kek (cfg strict_env)" "fernet_key_ok strict_env (key_encryption_key (cfg strict_env))"
    "length (license_key_pepper (cfg strict_env)) \<le> 64"
    by code_simp+
  from boot_strict[OF v this] v show ?thesis by simp
qed

end
