(* ===== verification/System.thy ===== *)
theory System
  imports App
begin

text \<open>
  The program as one state machine. A route is a request path with its parameters; its group
  says which guard stands before the handler: none, the session cookie (pages), the session
  cookie and its CSRF token (forms), or the bearer token (the programmatic interface). A
  command is a request, a run of a scheduled job, or time passing; the state is the database
  with the process's random sources and the backup directory with its bucket.
\<close>

section \<open>Routes\<close>

datatype public_route =
    Root | LoginForm "string option" | Login string | LoginMfaForm "string option" | LoginMfa string
  | Logout string | Pubkey string | CheckIn string string string "string option"
  | StripeEvent string string string | Healthz | Health | Readyz "string option" "string option"

datatype page_route =
    ViewDashboard | ViewProducts | ViewProduct string "string option" | PubkeyDownload string
  | ViewCustomers "string option" | CustomerLookup string | ViewPresets | ViewEvents | EventsCsv
  | ViewDeliveries "string option" | ViewMfa | ViewBackups | BackupDownload string

datatype form_route =
    ProductCreate string string string string string
  | ProductEdit string string string string string string string
  | ProductDelete string
  | ProductsDelete "string list"
  | LicenseIssue string string string string int int string string string
  | LicenseEdit uid string int string string string string string
  | WebhookUpdate uid string string string
  | WebhookConvert uid
  | WebhookTest uid
  | LicenseRevoke uid
  | LicenseDisable uid
  | LicenseEnable uid
  | LicenseDelete uid
  | LicensesDelete string "uid list"
  | CustomerEdit uid string string string
  | PresetCreate string string string string
  | PresetEdit uid string string string
  | PresetDelete uid
  | PresetsDelete "uid list"
  | DeliveryRetry uid
  | MfaEnroll
  | MfaVerify string
  | MfaDisable string
  | MfaRegen string
  | BackupCreate
  | RestoreLocal string string
  | RestoreUpload string string string
  | BackupDelete string
  | BackupsDelete "string list"

datatype api_route =
    ApiCreateProduct string string string "string option" "string option" "string option" "string option"
  | ApiListProducts
  | ApiGetProduct string
  | ApiIssue string string "string option" string int json int "string option" bool "string option"
  | ApiListLicenses string "string option" raw_limit
  | ApiRevoke uid
  | ApiWebhookSet uid string bool "bool option"
  | ApiCustomers "string option" raw_limit
  | ExportCustomers
  | ExportLicenses string
  | ExportEvents string

datatype route = Public public_route | Page page_route | Form string form_route | Api api_route

datatype reply =
    Reply response
  | PubkeyReply string
  | CheckReply check_out
  | ProductReply product_out
  | IssueReply issue_out
  | LicensesReply "license_item list" "string option"

section \<open>Handlers of the routes\<close>

type_synonym world = "site \<times> session"

text \<open>A handler that only reads; one whose result carries the new session; one that has its own state.\<close>

definition looks :: "('a \<Rightarrow> reply) \<Rightarrow> 'a res \<Rightarrow> site \<Rightarrow> session \<Rightarrow> reply run" where
  "looks f r k s = (map_sum id f r, k, s)"

definition writes :: "('a \<Rightarrow> reply) \<Rightarrow> (session \<Rightarrow> ('a \<times> session) res) \<Rightarrow> site \<Rightarrow> session \<Rightarrow> reply run" where
  "writes f h k s = (let (r, s') = run_handler h s in (map_sum id f r, k, s'))"

definition does :: "response run \<Rightarrow> reply run" where
  "does x = (let (r, k, s) = x in (map_sum id Reply r, k, s))"

primrec public_handler :: "env \<Rightarrow> request \<Rightarrow> public_route \<Rightarrow> site \<Rightarrow> session \<Rightarrow> reply run" where
  "public_handler E req Root k s = looks Reply (Inr root_page) k s"
| "public_handler E req (LoginForm err) k s = looks Reply (Inr (login_form err)) k s"
| "public_handler E req (Login token) k s = looks Reply (login E token s) k s"
| "public_handler E req (LoginMfaForm err) k s = looks Reply (login_mfa_form E req err s) k s"
| "public_handler E req (LoginMfa otp) k s = writes Reply (login_mfa E req otp) k s"
| "public_handler E req (Logout csrf) k s = looks Reply (logout E req csrf) k s"
| "public_handler E req (Pubkey slug) k s = looks PubkeyReply (get_pubkey slug s) k s"
| "public_handler E req (CheckIn key install version url) k s =
     writes CheckReply (api_check E key install version url (q_client req)) k s"
| "public_handler E req (StripeEvent slug payload sig) k s =
     writes (\<lambda>j. Reply (json_response j)) (stripe_webhook E slug payload sig) k s"
| "public_handler E req Healthz k s = looks Reply (Inr healthz) k s"
| "public_handler E req Health k s = looks Reply (Inr health) k s"
| "public_handler E req (Readyz e1 e2) k s = looks Reply (readyz E e1 e2 s) k s"

primrec page_handler :: "env \<Rightarrow> request \<Rightarrow> page_route \<Rightarrow> site \<Rightarrow> session \<Rightarrow> response res" where
  "page_handler E req ViewDashboard k s = dashboard E req s"
| "page_handler E req ViewProducts k s = products_list E req s"
| "page_handler E req (ViewProduct slug cursor) k s = product_detail E req slug cursor s"
| "page_handler E req (PubkeyDownload slug) k s = product_pubkey_download E req slug s"
| "page_handler E req (ViewCustomers cursor) k s = customers_list E req cursor s"
| "page_handler E req (CustomerLookup email) k s = customer_lookup E req email s"
| "page_handler E req ViewPresets k s = presets_page E req s"
| "page_handler E req ViewEvents k s = events_list E req s"
| "page_handler E req EventsCsv k s = events_csv E req s"
| "page_handler E req (ViewDeliveries status) k s = list_deliveries E req status s"
| "page_handler E req ViewMfa k s = mfa_page E req s"
| "page_handler E req ViewBackups k s = backups_page E req k s"
| "page_handler E req (BackupDownload name) k s = backup_download E req name k s"

primrec form_handler :: "env \<Rightarrow> request \<Rightarrow> string \<Rightarrow> form_route \<Rightarrow> site \<Rightarrow> session \<Rightarrow> reply run" where
  "form_handler E req csrf (ProductCreate slug name prefix desc issuer) k s =
     writes Reply (product_create E req slug name prefix desc issuer csrf) k s"
| "form_handler E req csrf (ProductEdit slug slug' name prefix issuer desc ret) k s =
     writes Reply (product_edit E req slug slug' name prefix issuer desc ret csrf) k s"
| "form_handler E req csrf (ProductDelete slug) k s = writes Reply (product_delete_one E req slug csrf) k s"
| "form_handler E req csrf (ProductsDelete slugs) k s =
     (let (r, s') = products_bulk_delete E req slugs csrf s in (map_sum id Reply r, k, s'))"
| "form_handler E req csrf (LicenseIssue slug email cname plan users days feats url http) k s =
     writes Reply (license_issue E req slug email cname plan users days feats url http csrf) k s"
| "form_handler E req csrf (LicenseEdit lid plan users until feats url http rot) k s =
     writes Reply (license_edit E req lid plan users until feats url http rot csrf) k s"
| "form_handler E req csrf (WebhookUpdate lid url http rot) k s =
     writes Reply (license_webhook_update E req lid url http rot csrf) k s"
| "form_handler E req csrf (WebhookConvert lid) k s = writes Reply (license_webhook_convert_to_self E req lid csrf) k s"
| "form_handler E req csrf (WebhookTest lid) k s = writes Reply (license_webhook_test E req lid csrf) k s"
| "form_handler E req csrf (LicenseRevoke lid) k s = writes Reply (license_revoke E req lid csrf) k s"
| "form_handler E req csrf (LicenseDisable lid) k s = writes Reply (license_disable E req lid csrf) k s"
| "form_handler E req csrf (LicenseEnable lid) k s = writes Reply (license_enable E req lid csrf) k s"
| "form_handler E req csrf (LicenseDelete lid) k s = writes Reply (license_delete_one E req lid csrf) k s"
| "form_handler E req csrf (LicensesDelete slug lids) k s = writes Reply (licenses_bulk_delete E req slug lids csrf) k s"
| "form_handler E req csrf (CustomerEdit cid name email sid) k s = writes Reply (customer_edit E req cid name email sid csrf) k s"
| "form_handler E req csrf (PresetCreate pid key ty dflt) k s = writes Reply (preset_create E req pid key ty dflt csrf) k s"
| "form_handler E req csrf (PresetEdit pid key ty dflt) k s = writes Reply (preset_edit E req pid key ty dflt csrf) k s"
| "form_handler E req csrf (PresetDelete pid) k s = writes Reply (preset_delete_one E req pid csrf) k s"
| "form_handler E req csrf (PresetsDelete pids) k s = writes Reply (presets_bulk_delete E req pids csrf) k s"
| "form_handler E req csrf (DeliveryRetry did) k s = writes Reply (delivery_retry E req did csrf) k s"
| "form_handler E req csrf MfaEnroll k s = writes Reply (mfa_enroll E req csrf) k s"
| "form_handler E req csrf (MfaVerify otp) k s = writes Reply (mfa_verify_enroll E req otp csrf) k s"
| "form_handler E req csrf (MfaDisable otp) k s = writes Reply (mfa_disable E req otp csrf) k s"
| "form_handler E req csrf (MfaRegen otp) k s = writes Reply (mfa_regen_recovery E req otp csrf) k s"
| "form_handler E req csrf BackupCreate k s = does (backup_create E req csrf k s)"
| "form_handler E req csrf (RestoreLocal name phrase) k s = does (backup_restore_local E req name phrase csrf k s)"
| "form_handler E req csrf (RestoreUpload name data phrase) k s = does (backup_restore_upload E req name data phrase csrf k s)"
| "form_handler E req csrf (BackupDelete name) k s = does (backup_delete_one E req name csrf k s)"
| "form_handler E req csrf (BackupsDelete names) k s = does (backups_bulk_delete E req names csrf k s)"

primrec api_handler :: "env \<Rightarrow> request \<Rightarrow> api_route \<Rightarrow> site \<Rightarrow> session \<Rightarrow> reply run" where
  "api_handler E req (ApiCreateProduct slug name prefix desc issuer wh key) k s =
     writes ProductReply (admin_create_product E req slug name prefix desc issuer wh key) k s"
| "api_handler E req ApiListProducts k s = looks Reply (admin_list_products E req s) k s"
| "api_handler E req (ApiGetProduct slug) k s = looks Reply (admin_get_product E req slug s) k s"
| "api_handler E req (ApiIssue slug email name plan users feats days url http sid) k s =
     writes IssueReply (admin_issue E req slug email name plan users feats days url http sid) k s"
| "api_handler E req (ApiListLicenses slug cursor limit) k s =
     looks (\<lambda>(items, nxt). LicensesReply items nxt) (admin_list_licenses E req slug cursor limit s) k s"
| "api_handler E req (ApiRevoke lid) k s = writes Reply (admin_revoke E req lid) k s"
| "api_handler E req (ApiWebhookSet lid url rot http) k s = writes Reply (admin_api_webhook_set E req lid url rot http) k s"
| "api_handler E req (ApiCustomers cursor limit) k s = looks Reply (admin_customers E req cursor limit s) k s"
| "api_handler E req ExportCustomers k s = looks Reply (export_customers E req s) k s"
| "api_handler E req (ExportLicenses slug) k s = looks Reply (export_licenses E req slug s) k s"
| "api_handler E req (ExportEvents slug) k s = looks Reply (export_events E req slug s) k s"

primrec dispatch :: "env \<Rightarrow> request \<Rightarrow> route \<Rightarrow> site \<Rightarrow> session \<Rightarrow> reply run" where
  "dispatch E req (Public r) k s = public_handler E req r k s"
| "dispatch E req (Page r) k s = looks Reply (page_handler E req r k s) k s"
| "dispatch E req (Form csrf r) k s = form_handler E req csrf r k s"
| "dispatch E req (Api r) k s = api_handler E req r k s"

text \<open>
  The answer to a request, an exception mapped by the application; the background tasks run
  after an ordinary answer and are lost with an exception.
\<close>

definition serve :: "env \<Rightarrow> request \<Rightarrow> route \<Rightarrow> site \<Rightarrow> session \<Rightarrow> reply \<times> world" where
  "serve E req r k s = (case dispatch E req r k (s\<lparr>tasks := []\<rparr>) of
      (Inl e, k1, s1) \<Rightarrow> (Reply (handle_exception e), k1, s1\<lparr>tasks := []\<rparr>)
    | (Inr x, k1, s1) \<Rightarrow> (x, k1, run_tasks E s1))"

section \<open>Commands\<close>

datatype command =
    Request request route
  | RetryJob int
  | PruneJob int string bool
  | ExpiryJob string bool
  | RewrapJob bool bool
  | BackupJob bool bool
  | Wait nat

definition job_session :: "(int \<times> session) res \<Rightarrow> session \<Rightarrow> session" where
  "job_session r s = (case r of Inl e \<Rightarrow> s | Inr (rc, s1) \<Rightarrow> s1)"

primrec perform :: "env \<Rightarrow> command \<Rightarrow> site \<Rightarrow> session \<Rightarrow> world" where
  "perform E (Request req r) k s = snd (serve E req r k s)"
| "perform E (RetryJob limit) k s = (k, snd (retry_run E limit s))"
| "perform E (PruneJob days types dry) k s = (k, job_session (prune_main E days types dry s) s)"
| "perform E (ExpiryJob arg dry) k s = (k, job_session (expiry_main E arg dry s) s)"
| "perform E (RewrapJob dry migrate) k s = (k, snd (rewrap_run E dry migrate s))"
| "perform E (BackupJob retention dry) k s = snd (run_backup E retention dry k s)"
| "perform E (Wait n) k s = (k, s\<lparr>now := now s + int n\<rparr>)"

section \<open>The guards\<close>

primrec guard :: "env \<Rightarrow> datetime \<Rightarrow> request \<Rightarrow> route \<Rightarrow> unit res" where
  "guard E t req (Public r) = Inr ()"
| "guard E t req (Page r) = require_login E t req"
| "guard E t req (Form csrf r) = form_guard E t req csrf"
| "guard E t req (Api r) = require_admin E req"

lemma looks_eq: "looks f (Inl e) k s = (Inl e, k, s)" "looks f (Inr x) k s = (Inr (f x), k, s)"
  by (simp_all add: looks_def)

lemma writes_eq:
  "h s = Inl e \<Longrightarrow> writes f h k s = (Inl e, k, s\<lparr>new_events := []\<rparr>)"
  "h s = Inr (x, s') \<Longrightarrow> writes f h k s = (Inr (f x), k, s')"
  by (simp_all add: writes_def run_handler_def)

lemma guarded_Inl: "form_guard E (now s) req csrf = Inl e \<Longrightarrow> guarded E req csrf k s r = (Inl e, k, s)"
  by (simp add: guarded_def)

lemma license_form_Inl: "form_guard E (now s) req csrf = Inl e \<Longrightarrow> license_form E req csrf lid s = Inl e"
  by (simp add: license_form_def)

lemmas page_defs = dashboard_def products_list_def product_detail_def product_pubkey_download_def customers_list_def
  customer_lookup_def presets_page_def events_list_def events_csv_def list_deliveries_def mfa_page_def
  backups_page_def backup_download_def

lemmas form_defs = product_create_def product_edit_def product_delete_one_def products_bulk_delete_def
  license_issue_def license_edit_def license_webhook_update_def license_webhook_convert_to_self_def
  license_webhook_test_def license_revoke_def license_disable_def license_enable_def license_status_form_def
  license_delete_one_def licenses_bulk_delete_def customer_edit_def preset_create_def preset_edit_def
  preset_delete_one_def presets_bulk_delete_def delivery_retry_def mfa_enroll_def mfa_verify_enroll_def
  mfa_disable_def mfa_regen_recovery_def backup_create_def backup_restore_local_def backup_restore_upload_def
  backup_delete_one_def backups_bulk_delete_def

lemmas api_defs = admin_create_product_def admin_list_products_def admin_get_product_def admin_issue_def
  admin_list_licenses_def admin_revoke_def admin_api_webhook_set_def admin_customers_def
  export_customers_def export_licenses_def export_events_def

lemma page_guarded: "require_login E (now s) req = Inl e \<Longrightarrow> page_handler E req r k s = Inl e"
  by (cases r) (simp_all add: page_defs)

lemma form_guarded:
  "form_guard E (now s) req csrf = Inl e \<Longrightarrow> new_events s = [] \<Longrightarrow> form_handler E req csrf r k s = (Inl e, k, s)"
  by (cases r) (simp_all add: form_defs guarded_Inl license_form_Inl writes_def run_handler_def does_def)

lemma api_guarded:
  "require_admin E req = Inl e \<Longrightarrow> new_events s = [] \<Longrightarrow> api_handler E req r k s = (Inl e, k, s)"
  by (cases r) (simp_all add: api_defs writes_def run_handler_def looks_def)

lemma dispatch_guarded:
  "guard E (now s) req r = Inl e \<Longrightarrow> new_events s = [] \<Longrightarrow> dispatch E req r k s = (Inl e, k, s)"
  by (cases r) (simp_all add: page_guarded form_guarded api_guarded looks_def)

section \<open>Nobody acts without credentials\<close>

text \<open>A session cookie signed by this server at most seven days ago.\<close>

definition session_cookie :: "env \<Rightarrow> datetime \<Rightarrow> request \<Rightarrow> string \<Rightarrow> bool" where
  "session_cookie E t req raw \<longleftrightarrow> map_of (q_cookies req) SESSION_COOKIE = Some raw \<and> session_secret (cfg E) \<noteq> []
     \<and> (\<exists>j i. cookie_load E (session_secret (cfg E)) session_salt raw = Some j \<and> issued_at j = Some i
          \<and> timestamp t - i \<le> 7 * 24 * 60 * 60)"

primrec authorised :: "env \<Rightarrow> datetime \<Rightarrow> request \<Rightarrow> route \<Rightarrow> bool" where
  "authorised E t req (Public r) \<longleftrightarrow> True"
| "authorised E t req (Page r) \<longleftrightarrow> (\<exists>raw. session_cookie E t req raw)"
| "authorised E t req (Form csrf r) \<longleftrightarrow> (\<exists>raw. session_cookie E t req raw \<and> csrf = csrf_token E (session_secret (cfg E)) raw)"
| "authorised E t req (Api r) \<longleftrightarrow> admin_token (cfg E) \<noteq> [] \<and> q_authorization req = Some (''Bearer '' @ admin_token (cfg E))"

lemma logged_in_cookie: "logged_in E t req = Inr True \<Longrightarrow> \<exists>raw. session_cookie E t req raw"
  by (auto simp: logged_in_True session_cookie_def SESSION_MAX_AGE_SECONDS_def)

lemma guard_authorised: "guard E t req r = Inr u \<Longrightarrow> authorised E t req r"
proof (cases r)
  case (Form csrf f)
  assume "guard E t req r = Inr u"
  with Form have g: "form_guard E t req csrf = Inr u" by simp
  then obtain raw where "session_cookie E t req raw" by (auto simp: form_guard_Inr dest: logged_in_cookie)
  with g Form show ?thesis by (auto simp: form_guard_Inr session_cookie_def)
qed (auto simp: require_login_Inr logged_in_cookie require_admin_def check_admin_bearer_iff Let_def split: if_splits)

lemma guard_refusals:
  assumes "guard E t req r = Inl e"
  shows "e = LoginRequired \<or> (\<exists>st detail. e = HTTPException st detail \<and> st \<in> {401, 403, 503})"
  using assms
  by (cases r) (auto simp: form_guard_def require_login_def logged_in_def cookie_age_def serializer_key_def
      require_csrf_def require_admin_def rbind_Inl_iff Let_def split: if_splits option.splits)

text \<open>
  C1: every route that is not public stands behind its guard: a request that is answered by
  anything but the redirect to the login page or a refusal (401, 403 or 503), or that changes
  anything in the database, the backup directory or the bucket, carries the administrator's
  bearer token or a session cookie that this server signed at most seven days ago, with the
  form token of this very cookie where it is a form.
\<close>

theorem routes_guarded:
  assumes "serve E req r k s = (x, k1, s1)" and "new_events s = []" and "\<not> authorised E (now s) req r"
  shows "k1 = k \<and> s1 = s\<lparr>tasks := []\<rparr> \<and> (x = Reply login_required_handler
    \<or> (\<exists>st detail. x = Reply (respond st (JsonBody (JDict [(''detail'', JStr detail)]))) \<and> st \<in> {401, 403, 503}))"
proof -
  obtain e where e: "guard E (now s) req r = Inl e" using assms(3) guard_authorised by (cases "guard E (now s) req r") auto
  then have "dispatch E req r k (s\<lparr>tasks := []\<rparr>) = (Inl e, k, s\<lparr>tasks := []\<rparr>)"
    using assms(2) by (simp add: dispatch_guarded)
  with assms(1) have "x = Reply (handle_exception e) \<and> k1 = k \<and> s1 = s\<lparr>tasks := []\<rparr>" by (auto simp: serve_def)
  moreover from guard_refusals[OF e]
  have "handle_exception e = login_required_handler
      \<or> (\<exists>st detail. handle_exception e = respond st (JsonBody (JDict [(''detail'', JStr detail)])) \<and> st \<in> {401, 403, 503})"
    by (elim disjE exE conjE) (simp add: handle_exception_def, intro disjI2 exI conjI, simp_all add: handle_exception_def)
  ultimately show ?thesis by auto
qed

section \<open>The database stays well-formed\<close>

lemma or_404_Inr [res_simps]: "or_404 r = Inr x \<longleftrightarrow> r = Inr x"
  by (auto simp: or_404_def split: sum.splits)

lemma on_error_Inr: "on_error p h s r = Inr (x, s') \<Longrightarrow> r = Inr (x, s') \<or> s' = s"
  by (auto simp: on_error_def split: sum.splits if_splits)

lemma license_form_Inr:
  assumes "license_form E req csrf lid s = Inr l"
  shows "l \<in> set (licenses s) \<and> l_id l = lid"
  using assms one_or_none_SomeD(1,2)[of "\<lambda>x. l_id x = lid" "licenses s" l]
  by (auto simp: license_form_def license_or_404_def rbind_Inr_iff split: option.splits)

lemma find_preset_Inr: "find_preset pid s = Inr f \<Longrightarrow> f \<in> set (presets s)"
  by (auto simp: find_preset_def split: option.splits dest: find_SomeD)

lemma session_clean: "new_events s = [] \<Longrightarrow> s\<lparr>new_events := []\<rparr> = s"
  by (cases s) simp

lemma good_writes:
  assumes "good E s" and "\<And>x s'. h s = Inr (x, s') \<Longrightarrow> good E s'"
  shows "good E (snd (snd (writes f h k s)))"
  using assms by (cases "h s") (auto simp: writes_def run_handler_def session_clean good_def[of E s])

lemma good_looks: "snd (looks f r k s) = (k, s)"
  by (simp add: looks_def)


lemma good_run_tasks: "good E s \<Longrightarrow> good E (run_tasks E s)"
proof -
  have "good E (foldl (\<lambda>s d. snd (attempt_in_fresh_session E d s)) t ds)" if "good E t" for t ds
    using that by (induction ds arbitrary: t) (simp_all add: good_fresh_session)
  then show "good E s \<Longrightarrow> good E (run_tasks E s)" by (simp add: run_tasks_def good_tasks)
qed

text \<open>The second factor's row and the audit trail are no part of the invariant.\<close>

lemma good_set_codes: "set_codes E r s = Inr (c, s') \<Longrightarrow> good E s \<Longrightarrow> good E s'"
proof -
  obtain n where n: "snd (recovery_codes E 10 s) = s\<lparr>n_rand := n\<rparr>" using recovery_codes_frame by blast
  show "set_codes E r s = Inr (c, s') \<Longrightarrow> good E s \<Longrightarrow> good E s'"
    using n by (auto simp: set_codes_def rbind_Inr_iff good_def[of E s] table_simps split: prod.splits intro!: good_commit)
qed

lemma good_start_enrol: "start_enrol E s = Inr (x, s') \<Longrightarrow> good E s \<Longrightarrow> good E s'"
  by (auto simp: start_enrol_def seal_def draw_def rbind_Inr_iff good_def[of E s] table_simps Let_def
      split: prod.splits intro!: good_commit)

lemma good_verify_login: "verify_login E otp s = Inr (b, s') \<Longrightarrow> good E s \<Longrightarrow> good E s'"
  by (auto simp: verify_login_def rbind_Inr_iff good_def commit_Inr table_simps Let_def split: option.splits if_splits)

lemma good_disable_mfa:
  assumes "disable_mfa E otp s = Inr (b, s')" and "good E s"
  shows "good E s'"
proof -
  obtain ok s1 where v: "verify_login E otp s = Inr (ok, s1)"
    using assms(1) by (auto simp: disable_mfa_def rbind_Inr_iff)
  then have "good E s1" using good_verify_login assms(2) by blast
  with v assms(1) show ?thesis
    by (auto simp: disable_mfa_def rbind_Inr_iff good_def commit_Inr table_simps split: option.splits if_splits)
qed

lemma good_enrolment:
  "verify_enrol E otp s = Inr (c, s') \<Longrightarrow> good E s \<Longrightarrow> good E s'"
  "regen_recovery E otp s = Inr (c, s') \<Longrightarrow> good E s \<Longrightarrow> good E s'"
  by (auto simp: verify_enrol_def regen_recovery_def rbind_Inr_iff split: option.splits if_splits intro: good_set_codes)

lemma good_status:
  assumes "svc \<in> {revoke_license, disable_license, enable_license}"
    and "svc E lic nt sched s = Inr s'" and "good E s" and "lic \<in> set (licenses s)"
  shows "good E s'"
  using assms by (auto simp: revoke_license_def disable_license_def enable_license_def intro: set_status_good)

lemma good_license_issue:
  assumes "license_issue E req slug email nm plan mu vd fj wu ah csrf s = Inr (x, s')" and "good E s"
  shows "good E s'"
proof (cases "parse_features fj")
  case (Inr feats)
  with assms show ?thesis
    by (auto simp: license_issue_def rbind_Inr_iff or_404_Inr dest!: on_error_Inr get_product_Inr dest: issue_license_good)
qed (use assms in \<open>auto simp: license_issue_def rbind_Inr_iff\<close>)

lemma good_product_edit:
  "product_edit E req slug ns nm kp ji de rt csrf s = Inr (x, s') \<Longrightarrow> good E s \<Longrightarrow> good E s'"
  by (auto simp: product_edit_def rbind_Inr_iff or_404_Inr Let_def dest!: on_error_Inr dest: update_product_good)

lemma good_license_forms:
  assumes "good E s"
  shows "license_edit E req lid plan mu vu fj wu ah rs csrf s = Inr (x, s') \<Longrightarrow> good E s'"
    and "license_webhook_update E req lid wu ah rs csrf s = Inr (x, s') \<Longrightarrow> good E s'"
    and "license_webhook_convert_to_self E req lid csrf s = Inr (x, s') \<Longrightarrow> good E s'"
    and "license_webhook_test E req lid csrf s = Inr (x, s') \<Longrightarrow> good E s'"
    and "license_delete_one E req lid csrf s = Inr (x, s') \<Longrightarrow> good E s'"
    and "licenses_bulk_delete E req slug lids csrf s = Inr (x, s') \<Longrightarrow> good E s'"
  using assms
  by (auto simp: form_defs rbind_Inr_iff or_404_Inr split: sum.splits if_splits
      dest!: on_error_Inr license_form_Inr get_product_Inr
      dest: edit_license_good configure_webhook_good convert_webhook_good test_webhook_good
        delete_license_good delete_bulk_good)

lemma good_status_form:
  assumes "license_status_form svc nt E req lid csrf s = Inr (x, s')" and "good E s"
    and "svc \<in> {revoke_license, disable_license, enable_license}"
  shows "good E s'"
  using assms(1,2) by (auto simp: license_status_form_def rbind_Inr_iff dest!: license_form_Inr dest: good_status[OF assms(3)])

lemma good_other_forms:
  assumes "good E s"
  shows "product_create E req slug nm kp de ji csrf s = Inr (x, s') \<Longrightarrow> good E s'"
    and "product_delete_one E req slug csrf s = Inr (x, s') \<Longrightarrow> good E s'"
    and "customer_edit E req cid nm email sid csrf s = Inr (x, s') \<Longrightarrow> good E s'"
    and "preset_create E req pid key vt dv csrf s = Inr (x, s') \<Longrightarrow> good E s'"
    and "preset_edit E req pid key vt dv csrf s = Inr (x, s') \<Longrightarrow> good E s'"
    and "preset_delete_one E req pid csrf s = Inr (x, s') \<Longrightarrow> good E s'"
    and "presets_bulk_delete E req pids csrf s = Inr (x, s') \<Longrightarrow> good E s'"
    and "mfa_enroll E req csrf s = Inr (x, s') \<Longrightarrow> good E s'"
    and "mfa_verify_enroll E req otp csrf s = Inr (x, s') \<Longrightarrow> good E s'"
    and "mfa_disable E req otp csrf s = Inr (x, s') \<Longrightarrow> good E s'"
    and "mfa_regen_recovery E req otp csrf s = Inr (x, s') \<Longrightarrow> good E s'"
  using assms
  by (auto simp: form_defs rbind_Inr_iff or_404_Inr split: sum.splits if_splits
      dest!: on_error_Inr find_preset_Inr
      dest: create_product_good update_product_good delete_product_good edit_customer_good create_preset_good
        update_preset_good delete_presets_good good_start_enrol good_enrolment good_disable_mfa)

lemma good_products_delete: "good E s \<Longrightarrow> good E (snd (products_bulk_delete E req slugs csrf s))"
proof -
  have loop: "good E (snd (delete_products E slugs n m s))" if "good E s" for n m
    using that
  proof (induction slugs arbitrary: n m s)
    case (Cons slug slugs)
    then show ?case by (auto split: sum.splits dest: delete_product_good)
  qed simp
  show "good E s \<Longrightarrow> good E (snd (products_bulk_delete E req slugs csrf s))"
    using loop[of 0 0] by (auto simp: products_bulk_delete_def split: sum.splits prod.splits)
qed

lemma rows_ok_put_delivery: "rows_ok E s \<Longrightarrow> delivery_inv d \<Longrightarrow> rows_ok E (put_delivery d s)"
  using delivery_store.put_all[of s delivery_inv d] by (auto simp: rows_ok_def placed_def put_delivery_def)

lemma good_retry_delivery:
  assumes "retry_delivery E did s = Inr (x, s')" and "good E s"
  shows "good E s'"
proof -
  obtain r where r: "one_or_none (\<lambda>d. d_id d = did) (deliveries s) = Inr r"
    using assms(1) by (auto simp: retry_delivery_def rbind_Inr_iff)
  show ?thesis
  proof (cases r)
    case (Some d)
    then have i: "delivery_inv d" using r one_or_none_SomeD(1) assms(2) by (fastforce simp: good_def rows_ok_def)
    let ?d1 = "if d_status d = Abandoned then d\<lparr>d_status := delivery_status.Pending, d_attempts := 0\<rparr> else d"
    let ?d2 = "?d1\<lparr>d_next_attempt_at := now s, d_last_error := None\<rparr>"
    have "delivery_inv ?d2" using i by (auto simp: delivery_inv_def max_attempts_def)
    then have "rows_ok E (put_delivery ?d2 s)" using assms(2) by (simp add: good_def rows_ok_put_delivery)
    then show ?thesis using assms r Some
      by (auto simp: retry_delivery_def rbind_Inr_iff Let_def split: if_splits dest!: good_commit intro!: good_fresh_session)
  qed (use assms r in \<open>auto simp: retry_delivery_def rbind_Inr_iff\<close>)
qed

lemma good_delivery_retry: "delivery_retry E req did csrf s = Inr (x, s') \<Longrightarrow> good E s \<Longrightarrow> good E s'"
  by (auto simp: delivery_retry_def rbind_Inr_iff dest: good_retry_delivery)

lemma good_retry_loop: "good E s \<Longrightarrow> good E (snd (retry_loop E ds s))"
proof (induction ds arbitrary: s)
  case (Cons d ds)
  show ?case
  proof (cases "try_deliver E (d_id d) s")
    case (Inr r)
    obtain ok s1 where r: "r = (ok, s1)" by (cases r)
    with Inr have q: "queue_run E s s1" using queue_run_try_deliver by blast
    have "good E (rollback s s1)" using q Cons.prems
      by (intro good_queue_run[OF Cons.prems queue_run_rollback[OF q]]) (simp_all add: constraints_ok_frame good_def)
    moreover have "good E s2" if "commit E s1 = Inr s2" for s2
      using that by (intro good_queue_run[OF Cons.prems queue_run_commit[OF q that]]) (auto simp: commit_Inr table_simps)
    ultimately show ?thesis using Inr r Cons.IH by (auto split: sum.splits)
  qed (simp add: Cons.prems)
qed simp

lemma good_audit_commit: "commit E (audit l p ty pl nt s) = Inr s' \<Longrightarrow> good E s \<Longrightarrow> good E s'"
  by (auto simp: good_def[of E s] table_simps intro: good_commit)

lemma good_frame:
  "good E (s\<lparr>outbox := ob\<rparr>) = good E s" "good E (s\<lparr>n_rand := k\<rparr>) = good E s" "good E (s\<lparr>now := t\<rparr>) = good E s"
  by (simp_all add: good_def table_simps constraints_ok_def)

lemma good_create_backup: "good E s \<Longrightarrow> good E (snd (snd (create_backup E prefix nt k s)))"
  by (auto simp: create_backup_def Let_def good_frame split: sum.splits prod.splits dest: good_audit_commit)

lemma good_run_backup: "good E s \<Longrightarrow> good E (snd (snd (run_backup E retention dry k s)))"
  using good_create_backup[of E s BACKUP_PREFIX "''script/scheduled''" k]
  by (auto simp: run_backup_def Let_def split: sum.splits prod.splits)

lemma good_expiry_mail: "good E (snd (send_expiry_warning_email E to key nm n day s)) = good E s"
  by (simp add: send_expiry_warning_email_def send_email_def good_frame)

lemma good_warn_license:
  assumes "good E s"
  shows "good E (snd (warn_license E ts dry lic s))"
proof -
  have undone: "good E (rollback s1 s1)" if "good E s1" for s1
    using that by (intro good_queue_run[OF that queue_run_rollback[OF queue_run_refl]])
      (simp_all add: constraints_ok_frame good_def)
  have mail: "good E s1" if "send_expiry_warning_email E to key nm n day s = (ok, s1)" for to key nm n day ok s1
    using good_expiry_mail[of E to key nm n day s] that assms by simp
  show ?thesis using assms
    by (simp add: warn_license_def Let_def split: option.splits prod.splits sum.splits)
      (blast intro: mail undone good_audit_commit)
qed

lemma good_warn_all: "good E s \<Longrightarrow> good E (snd (warn_all E ts dry lics s))"
proof (induction lics arbitrary: s)
  case (Cons lic lics)
  obtain ok s1 where w: "warn_license E ts dry lic s = (ok, s1)" by fastforce
  with good_warn_license[OF Cons.prems, of ts dry lic] Cons.IH[of s1] show ?case by simp
qed simp

lemma good_expiry_main:
  assumes "expiry_main E arg dry s = Inr (rc, s')" and "good E s"
  shows "good E s'"
proof -
  have "good E s'" if "warn_all E ts dry lics s = (rc, s')" for ts lics
    using good_warn_all[OF assms(2), of ts dry lics] that by simp
  with assms show ?thesis
    by (auto simp: expiry_main_def expiry_run_def rbind_Inr_iff split: if_splits)
qed

lemma good_prune_main:
  assumes "prune_main E days types dry s = Inr (rc, s')" and "good E s"
  shows "good E s'"
proof -
  have "good E s1" if "commit E (s\<lparr>events := delete_where (prunable ts cut) (events s)\<rparr>) = Inr s1" for ts cut s1
    using that assms(2) by (intro good_commit[OF that]) (simp add: good_def table_simps)
  with assms show ?thesis
    by (auto simp: prune_main_def prune_run_def rbind_Inr_iff split: if_splits sum.splits)
qed

lemma rewrap_loop_ids: "rewrap_loop E prev n ps = Inr (qs, k) \<Longrightarrow> map p_id qs = map p_id ps"
proof (induction ps arbitrary: n qs k)
  case (Cons p ps)
  then show ?case by (fastforce simp: res_simps rewrap_product_def split: if_splits)
qed simp

lemma good_rewrap_session: "good E s \<Longrightarrow> good E (snd (rewrap_session E dry prev s))"
proof -
  assume g: "good E s"
  have "good E s1" if r: "rewrap_loop E prev (n_rand s) (products s) = Inr (ps, k)"
    and c: "commit E (s\<lparr>products := ps, n_rand := n\<rparr>) = Inr s1" for ps k n s1
  proof (rule good_commit[OF c])
    have "p_id ` set ps = p_id ` set (products s)" using rewrap_loop_ids[OF r] by (metis list.set_map)
    with g show "rows_ok E (s\<lparr>products := ps, n_rand := n\<rparr>)" by (auto simp: good_def rows_ok_def placed_def)
  qed
  with g show ?thesis by (auto simp: rewrap_session_def split: sum.splits)
qed

lemma good_rewrap_run: "good E s \<Longrightarrow> good E (snd (rewrap_run E dry migrate s))"
  by (auto simp: rewrap_run_def split: option.splits intro: good_rewrap_session)

lemma good_login_mfa: "login_mfa E req otp s = Inr (x, s') \<Longrightarrow> good E s \<Longrightarrow> good E s'"
  by (auto simp: login_mfa_def rbind_Inr_iff split: if_splits dest: good_verify_login)

lemma good_api_check: "api_check E key iid v url c s = Inr (x, s') \<Longrightarrow> good E s \<Longrightarrow> good E s'"
  by (auto simp: api_check_def reject_def rbind_Inr_iff split: sum.splits exc.splits dest: check_license_good)

lemma good_public: "good E s \<Longrightarrow> good E (snd (snd (public_handler E req r k s)))"
  by (cases r) (auto simp: good_looks intro!: good_writes intro: good_login_mfa good_api_check stripe_webhook_good)

text \<open>Restoring an archive replaces every table by what the archive holds.\<close>

fun restores :: "route \<Rightarrow> bool" where
  "restores (Form csrf (RestoreLocal name phrase)) = True"
| "restores (Form csrf (RestoreUpload name data phrase)) = True"
| "restores r = False"

lemma guarded_run: "P s \<Longrightarrow> P (snd (snd r)) \<Longrightarrow> P (snd (snd (guarded E req csrf k s r)))"
  by (simp add: guarded_def split: sum.splits)

lemma does_run: "snd (snd (does x)) = snd (snd x)"
  by (simp add: does_def split: prod.splits)

lemma good_backup_forms:
  assumes "good E s"
  shows "good E (snd (snd (backup_create E req csrf k s)))"
    and "good E (snd (snd (backup_delete_one E req name csrf k s)))"
    and "good E (snd (snd (backups_bulk_delete E req names csrf k s)))"
  using assms good_create_backup[OF assms, of BACKUP_PREFIX "''ui/backup''" k]
  by (auto simp: backup_create_def backup_delete_one_def backups_bulk_delete_def Let_def
      intro!: guarded_run[where P = "good E"] split: sum.splits prod.splits)

lemma good_status_forms:
  assumes "good E s"
  shows "license_revoke E req lid csrf s = Inr (x, s') \<Longrightarrow> good E s'"
    and "license_disable E req lid csrf s = Inr (x, s') \<Longrightarrow> good E s'"
    and "license_enable E req lid csrf s = Inr (x, s') \<Longrightarrow> good E s'"
  unfolding license_revoke_def license_disable_def license_enable_def
  by (erule good_status_form[OF _ assms], simp)+

lemma good_form:
  assumes "good E s" and "\<not> restores (Form csrf r)"
  shows "good E (snd (snd (form_handler E req csrf r k s)))"
proof -
  note fs = good_license_issue[OF _ assms(1)] good_product_edit[OF _ assms(1)] good_license_forms[OF assms(1)]
    good_other_forms[OF assms(1)] good_status_forms[OF assms(1)] good_delivery_retry[OF _ assms(1)]
  show ?thesis
  proof (cases r)
    case (ProductsDelete slugs)
    then show ?thesis using good_products_delete[OF assms(1), of req slugs csrf]
      by (cases "products_bulk_delete E req slugs csrf s") simp
  qed (use assms(2) in simp; (rule good_writes[OF assms(1)], erule fs | simp add: does_run good_backup_forms[OF assms(1)])?)+
qed

lemma good_webhook_set:
  assumes "admin_api_webhook_set E req lid url rot allow s = Inr (z, s')" and "good E s"
  shows "good E s'"
proof -
  obtain r where r: "one_or_none (\<lambda>l. l_id l = lid) (licenses s) = Inr r"
    using assms(1) by (auto simp: admin_api_webhook_set_def rbind_Inr_iff)
  show ?thesis
  proof (cases r)
    case (Some lic)
    then have l: "lic \<in> set (licenses s)" using r by (auto dest: one_or_none_SomeD(1))
    show ?thesis
    proof (cases "configure_webhook E lic (or_none (strip url)) rot False Admin allow ''api/webhook'' [(''rotated'', JBool rot)] s")
      case (Inr s1)
      with assms(1) r Some have "s' = s1" by (auto simp: admin_api_webhook_set_def rbind_Inr_iff)
      with configure_webhook_good[OF Inr assms(2) l] show ?thesis by simp
    qed (use assms(1) r Some in \<open>auto simp: admin_api_webhook_set_def rbind_Inr_iff\<close>)
  qed (use assms(1) r in \<open>auto simp: admin_api_webhook_set_def rbind_Inr_iff\<close>)
qed

lemma good_api_writes:
  assumes "good E s"
  shows "admin_create_product E req slug nm kp de ji wh ak s = Inr (x, s') \<Longrightarrow> good E s'"
    and "admin_issue E req slug em nm2 pl mu fe vd wu ah sid s = Inr (y, s') \<Longrightarrow> good E s'"
    and "admin_revoke E req lid s = Inr (z, s') \<Longrightarrow> good E s'"
  using assms
  by (auto simp: api_defs rbind_Inr_iff product_or_404_def revoke_license_def split: sum.splits option.splits if_splits
      dest!: get_product_Inr one_or_none_SomeD(1)
      dest: create_product_good issue_license_good set_status_good)

lemma good_api: "good E s \<Longrightarrow> good E (snd (snd (api_handler E req r k s)))"
  by (cases r) (auto simp: good_looks intro!: good_writes intro: good_api_writes good_webhook_set)

lemma good_dispatch: "good E s \<Longrightarrow> \<not> restores r \<Longrightarrow> good E (snd (snd (dispatch E req r k s)))"
  by (cases r) (simp_all add: good_public good_form good_api good_looks)

lemma good_serve: "good E s \<Longrightarrow> \<not> restores r \<Longrightarrow> good E (snd (snd (serve E req r k s)))"
  using good_dispatch[of E "s\<lparr>tasks := []\<rparr>" r req k]
  by (auto simp: serve_def good_tasks good_run_tasks split: prod.splits sum.splits)

fun restoring :: "command \<Rightarrow> bool" where
  "restoring (Request req r) = restores r" | "restoring c = False"

lemma good_perform: "good E s \<Longrightarrow> \<not> restoring c \<Longrightarrow> good E (snd (perform E c k s))"
  by (cases c) (auto simp: good_serve retry_run_def good_retry_loop good_rewrap_run good_run_backup good_frame job_session_def
      split: sum.splits dest: good_prune_main good_expiry_main)

text \<open>A sequence of commands, and the step relation of the whole system.\<close>

definition run :: "env \<Rightarrow> command list \<Rightarrow> world \<Rightarrow> world" where
  "run E cs w = foldl (\<lambda>(k, s) c. perform E c k s) w cs"

definition system_step :: "env \<Rightarrow> world \<Rightarrow> world \<Rightarrow> bool" where
  "system_step E w w' \<longleftrightarrow> (\<exists>c. \<not> restoring c \<and> w' = perform E c (fst w) (snd w))"

definition no_rows :: "session \<Rightarrow> bool" where
  "no_rows s \<longleftrightarrow> products s = [] \<and> customers s = [] \<and> licenses s = [] \<and> presets s = [] \<and> installs s = []
     \<and> deliveries s = [] \<and> events s = [] \<and> stripe_events s = [] \<and> new_events s = []"

lemma no_rows_good: "no_rows s \<Longrightarrow> good E s"
  by (simp add: no_rows_def good_def rows_ok_def constraints_ok_def)

interpretation system: machine "\<lambda>w. no_rows (snd w)" "system_step E" "\<lambda>w. good E (snd w)" for E
  by unfold_locales (auto simp: no_rows_good system_step_def good_perform)

lemma run_steps: "list_all (\<lambda>c. \<not> restoring c) cs \<Longrightarrow> (system_step E)\<^sup>*\<^sup>* w (run E cs w)"
proof (induction cs arbitrary: w)
  case (Cons c cs)
  then have "system_step E w (perform E c (fst w) (snd w))" by (auto simp: system_step_def)
  moreover have "run E (c # cs) w = run E cs (perform E c (fst w) (snd w))" by (simp add: run_def case_prod_beta)
  moreover have "(system_step E)\<^sup>*\<^sup>* (perform E c (fst w) (snd w)) (run E cs (perform E c (fst w) (snd w)))"
    using Cons by (intro Cons.IH) simp
  ultimately show ?case by (metis converse_rtranclp_into_rtranclp)
qed (simp add: run_def)


section \<open>Examples\<close>

text \<open>A visitor without credentials.\<close>

definition visitor :: request where
  "visitor = \<lparr>q_cookies = [], q_authorization = None, q_client = Some ''192.0.2.1'', q_forwarded = None\<rparr>"

theorem routes_guarded_witness:
  "\<exists>x. serve auth_env visitor (Form ''guess'' (LicenseEnable ''l1'')) empty_site shop = (x, empty_site, shop\<lparr>tasks := []\<rparr>)
     \<and> x = Reply login_required_handler"
proof -
  let ?r = "Form ''guess'' (LicenseEnable ''l1'')"
  obtain x k1 s1 where e: "serve auth_env visitor ?r empty_site shop = (x, k1, s1)" using prod_cases3 by blast
  have n: "new_events shop = []" by code_simp
  have a: "\<not> authorised auth_env (now shop) visitor ?r" by (simp add: session_cookie_def visitor_def)
  have "(case serve auth_env visitor ?r empty_site shop of (y, w) \<Rightarrow> (case y of Reply p \<Rightarrow> rs_status p = 303 | _ \<Rightarrow> False))"
    by code_simp
  with routes_guarded[OF e n a] e show ?thesis by (auto simp: respond_def)
qed

text \<open>A first day: a product, a licence, a check that fails, and the jobs.\<close>

definition cookie_text :: string where
  "cookie_text = cookie_dump auth_env ''sec'' session_salt (ticket 63838368000000000)"

definition operator :: request where
  "operator = \<lparr>q_cookies = [(SESSION_COOKIE, cookie_text)], q_authorization = Some ''Bearer adm'', q_client = None, q_forwarded = None\<rparr>"

definition first_day :: "command list" where
  "first_day = [Request operator (Api (ApiCreateProduct ''demo'' ''Demo'' ''demo'' None None None None)),
     Request operator (Api (ApiIssue ''demo'' ''a@example.com'' None ''standard'' 5 (JDict []) 30 None False None)),
     Request visitor (Public (CheckIn ''nope'' ''i1'' ''1.0'' None)), Wait 3600, RetryJob 10,
     PruneJob 90 ''heartbeat'' False]"


end
