(* ===== verification/Revocation.thy ===== *)
theory Revocation
  imports System
begin

text \<open>
  A licence that was revoked or disabled stays unusable: what every command does to the
  status of one licence, traced through the services. Only the form that enables it, an
  invoice event of the payment provider (paid or failed) and the restoring of an archive can
  make it usable again.
\<close>

section \<open>Calm changes\<close>

abbreviation barred :: "license_status \<Rightarrow> bool" where
  "barred st \<equiv> st = Revoked \<or> st = Disabled"

text \<open>
  From one state to the next: a licence with the identifier has its key and the status it had, or is
  barred, or was issued in between under a fresh identifier.
\<close>

definition calm :: "env \<Rightarrow> uid \<Rightarrow> session \<Rightarrow> session \<Rightarrow> bool" where
  "calm E i s s' \<longleftrightarrow> n_uuid s \<le> n_uuid s' \<and> (\<forall>l' \<in> set (licenses s'). l_id l' = i \<longrightarrow>
     (\<exists>l \<in> set (licenses s). l_id l = i \<and> l_key l' = l_key l \<and> (l_status l' = l_status l \<or> barred (l_status l')))
     \<or> (\<exists>n. n_uuid s \<le> n \<and> n < n_uuid s' \<and> i = uuid4 E n))"

lemma calm_same: "licenses s' = licenses s \<Longrightarrow> n_uuid s \<le> n_uuid s' \<Longrightarrow> calm E i s s'"
  by (auto simp: calm_def)

lemma calm_refl [simp]: "calm E i s s"
  by (simp add: calm_same)

lemma calm_trans:
  assumes "calm E i s t" and "calm E i t u"
  shows "calm E i s u"
  unfolding calm_def
proof (intro conjI ballI impI)
  show "n_uuid s \<le> n_uuid u" using assms by (simp add: calm_def)
  fix l' assume "l' \<in> set (licenses u)" "l_id l' = i"
  with assms(2) consider (old) l where "l \<in> set (licenses t)" "l_id l = i" "l_key l' = l_key l" "l_status l' = l_status l \<or> barred (l_status l')"
    | (new) n where "n_uuid t \<le> n" "n < n_uuid u" "i = uuid4 E n" by (auto simp: calm_def)
  then show "(\<exists>l \<in> set (licenses s). l_id l = i \<and> l_key l' = l_key l \<and> (l_status l' = l_status l \<or> barred (l_status l')))
     \<or> (\<exists>n. n_uuid s \<le> n \<and> n < n_uuid u \<and> i = uuid4 E n)"
  proof cases
    case old
    from assms old(1,2) consider (k) k where "k \<in> set (licenses s)" "l_id k = i" "l_key l = l_key k" "l_status l = l_status k \<or> barred (l_status l)"
      | (n) n where "n_uuid s \<le> n" "n < n_uuid t" "i = uuid4 E n" by (auto simp: calm_def)
    then show ?thesis
    proof cases
      case k
      then have "l_status l' = l_status k \<or> barred (l_status l')" using old(4) by metis
      with k old(3) show ?thesis by auto
    next
      case n
      then have "n < n_uuid u" using assms(2) by (simp add: calm_def)
      with n show ?thesis by blast
    qed
  next
    case new
    then have "n_uuid s \<le> n" using assms(1) by (simp add: calm_def)
    with new show ?thesis by blast
  qed
qed

lemma calm_cong: "licenses s = licenses s0 \<Longrightarrow> n_uuid s = n_uuid s0 \<Longrightarrow> licenses t = licenses t0 \<Longrightarrow> n_uuid t = n_uuid t0
    \<Longrightarrow> calm E i s t = calm E i s0 t0"
  by (simp add: calm_def)

lemma flush_uuid: "n_uuid (flush_events E s) = n_uuid s + length (new_events s)"
  by (simp add: flush_events_eq)

lemma calm_flush: "calm E i s t \<Longrightarrow> calm E i s (flush_events E t)"
  by (rule calm_trans, assumption, rule calm_same) (simp_all add: table_simps flush_uuid)

lemma calm_commit: "commit E t = Inr u \<Longrightarrow> calm E i t u"
  by (auto simp: commit_Inr intro: calm_flush)

lemma calm_frame:
  "calm E i s (audit l p ty pl nt t) = calm E i s t" "calm E i s (t\<lparr>n_rand := k\<rparr>) = calm E i s t"
  "calm E i s (t\<lparr>n_dns := d\<rparr>) = calm E i s t" "calm E i s (t\<lparr>outbox := ob\<rparr>) = calm E i s t"
  "calm E i s (t\<lparr>tasks := ts\<rparr>) = calm E i s t" "calm E i s (t\<lparr>new_events := nes\<rparr>) = calm E i s t"
  "calm E i s (t\<lparr>now := tm\<rparr>) = calm E i s t" "calm E i s (t\<lparr>events := evs\<rparr>) = calm E i s t"
  "calm E i s (t\<lparr>mfa_row := m\<rparr>) = calm E i s t" "calm E i s (t\<lparr>products := ps\<rparr>) = calm E i s t"
  "calm E i s (t\<lparr>customers := cs\<rparr>) = calm E i s t" "calm E i s (t\<lparr>presets := fs\<rparr>) = calm E i s t"
  "calm E i s (t\<lparr>installs := is\<rparr>) = calm E i s t" "calm E i s (t\<lparr>deliveries := ds\<rparr>) = calm E i s t"
  by (rule calm_cong; simp add: audit_fields)+

lemma calm_frame_left:
  "calm E i (audit l p ty pl nt s) t = calm E i s t" "calm E i (s\<lparr>n_rand := k\<rparr>) t = calm E i s t"
  "calm E i (s\<lparr>n_dns := d\<rparr>) t = calm E i s t" "calm E i (s\<lparr>outbox := ob\<rparr>) t = calm E i s t"
  "calm E i (s\<lparr>tasks := ts\<rparr>) t = calm E i s t" "calm E i (s\<lparr>new_events := nes\<rparr>) t = calm E i s t"
  "calm E i (s\<lparr>mfa_row := m\<rparr>) t = calm E i s t" "calm E i (s\<lparr>products := ps\<rparr>) t = calm E i s t"
  "calm E i (s\<lparr>customers := cs\<rparr>) t = calm E i s t" "calm E i (s\<lparr>presets := fs\<rparr>) t = calm E i s t"
  "calm E i (s\<lparr>installs := is\<rparr>) t = calm E i s t" "calm E i (s\<lparr>deliveries := ds\<rparr>) t = calm E i s t"
  "calm E i (s\<lparr>events := evs\<rparr>) t = calm E i s t"
  by (rule calm_cong; simp add: audit_fields)+

lemmas calm_frames = calm_frame calm_frame_left

lemma calm_uuid: "calm E i s (s\<lparr>n_uuid := Suc (n_uuid s)\<rparr>)"
  by (rule calm_same) simp_all

lemma calm_put:
  assumes "lic \<in> set (licenses s)" and "l_id lic' = l_id lic" and "l_key lic' = l_key lic"
    and "l_status lic' = l_status lic \<or> barred (l_status lic') \<or> l_id lic \<noteq> i"
  shows "calm E i s (put_license lic' s)"
  unfolding calm_def
proof (intro conjI ballI impI)
  fix l' assume "l' \<in> set (licenses (put_license lic' s))" "l_id l' = i"
  then show "(\<exists>l \<in> set (licenses s). l_id l = i \<and> l_key l' = l_key l \<and> (l_status l' = l_status l \<or> barred (l_status l')))
     \<or> (\<exists>n. n_uuid s \<le> n \<and> n < n_uuid (put_license lic' s) \<and> i = uuid4 E n)"
    using license_store.put_only[of l' lic' s] assms by auto
qed (simp add: table_simps)

lemma calm_delete: "calm E i s (s\<lparr>licenses := delete_where P (licenses s)\<rparr>)"
  by (auto simp: calm_def delete_where_def)

section \<open>Deliveries\<close>

lemma calm_or_uuid: "or_uuid E e s = (x, s') \<Longrightarrow> calm E i s s'"
  by (rule calm_same) (auto simp: or_uuid_def fresh_id_def split: option.splits)

lemma calm_deliver:
  assumes "deliver E url secret ty data eid ts allow s = Inr (r, s')"
  shows "calm E i s s'"
proof (cases "is_safe_url_shape url allow")
  case True
  with assms obtain t s1 where t: "resolve_safe_address E url allow s = Inr (t, s1)"
    by (auto simp: deliver_def rbind_Inr_iff)
  then obtain k where k: "s1 = s\<lparr>n_dns := k\<rparr>" using resolve_safe_address_state[OF t] by blast
  have "calm E i s s2" if "or_uuid E eid s1 = (x, s2)" for x s2
    using calm_or_uuid[OF that] k by (simp add: calm_def)
  with True assms t k show ?thesis
    by (auto simp: deliver_def rbind_Inr_iff post_Inr calm_frame Let_def split: option.splits prod.splits)
qed (use assms in \<open>simp add: deliver_def\<close>)

lemma calm_put_delivery: "calm E i s (put_delivery d t) = calm E i s t"
  by (rule calm_cong) (simp_all add: put_delivery_def)

lemma calm_try_deliver:
  assumes "try_deliver E d s = Inr (ok, s')"
  shows "calm E i s s'"
proof -
  obtain r where r: "one_or_none (\<lambda>x. d_id x = d) (deliveries s) = Inr r"
    using assms by (auto simp: try_deliver_def rbind_Inr_iff)
  show ?thesis
  proof (cases r)
    case (Some x)
    show ?thesis
    proof (cases "loads (d_payload_json x)")
      case (Inr j)
      with assms r Some show ?thesis
        by (auto simp: try_deliver_def rbind_Inr_iff calm_put_delivery split: if_splits intro: calm_deliver)
    qed (use assms r Some in \<open>auto simp: try_deliver_def calm_put_delivery split: if_splits\<close>)
  qed (use assms r in \<open>simp add: try_deliver_def\<close>)
qed

lemma calm_rollback: "calm E i s t \<Longrightarrow> calm E i s (rollback s t)"
  by (rule calm_same) (simp_all add: rollback_def calm_def)

lemma calm_fresh_session: "calm E i s (snd (attempt_in_fresh_session E d s))"
  by (auto simp: attempt_in_fresh_session_def split: sum.splits
      intro: calm_rollback dest: calm_try_deliver calm_commit calm_trans[OF calm_try_deliver calm_commit])

lemma calm_run_delivery: "calm E i s (run_delivery E sched d s)"
  by (auto simp: run_delivery_def run_attempt_def calm_frame calm_fresh_session split: option.splits schedule.splits)

lemma calm_run_deliveries: "calm E i s (run_deliveries E sched ds s)"
  by (induction ds arbitrary: s) (auto simp: run_deliveries_def intro: calm_trans calm_run_delivery)

lemma calm_run_tasks: "calm E i s t \<Longrightarrow> calm E i s (run_tasks E t)"
proof -
  have "calm E i u (foldl (\<lambda>s d. snd (attempt_in_fresh_session E d s)) u ds)" for u ds
    by (induction ds arbitrary: u) (auto intro: calm_trans calm_fresh_session)
  then show "calm E i s t \<Longrightarrow> calm E i s (run_tasks E t)"
    unfolding run_tasks_def by (blast intro: calm_trans calm_frame(5)[THEN iffD2])
qed

lemma calm_retry_loop: "calm E i s (snd (retry_loop E ds s))"
proof (induction ds arbitrary: s)
  case (Cons d ds)
  show ?case
    by (auto split: sum.splits intro: calm_rollback dest: calm_try_deliver)
      (meson Cons.IH calm_commit calm_trans calm_try_deliver)
qed simp

lemma calm_finish: "finish E sched d t = Inr u \<Longrightarrow> calm E i t u"
  by (auto simp: finish_Inr intro: calm_trans[OF calm_flush calm_run_delivery])

lemma calm_enqueue: "enqueue E url sec ty data lid pid t = Inr (d, u) \<Longrightarrow> calm E i t u"
  by (auto simp: enqueue_Inr calm_frames calm_uuid intro!: calm_flush)

lemma calm_notify: "notify E lic ty data t = Inr (d, u) \<Longrightarrow> calm E i t u"
  by (auto simp: notify_def rbind_Inr_iff split: if_splits intro: calm_enqueue)

lemma calm_notify_deleted: "notify_deleted E lic sn t = Inr (d, u) \<Longrightarrow> calm E i t u"
  by (auto simp: notify_deleted_def rbind_Inr_iff split: if_splits intro: calm_enqueue)

section \<open>Licence operations\<close>

lemma calm_set_status:
  assumes "set_status E lic st nt sched s = Inr s'" and "lic \<in> set (licenses s)" and "barred st \<or> l_id lic \<noteq> i"
  shows "calm E i s s'"
proof -
  have "calm E i s (put_license (lic\<lparr>l_status := st\<rparr>) s)" by (rule calm_put[OF assms(2)]) (use assms(3) in auto)
  with assms(1) show ?thesis
    by (auto simp: set_status_def Let_def rbind_Inr_iff dest!: calm_finish[where i = i] calm_notify[where i = i]
      simp: calm_frames; blast intro: calm_trans)
qed

lemma calm_put_terms:
  assumes "lic \<in> set (licenses s)" and "same_identity lic lic'" and "l_status lic' = l_status lic" and "fresh_rand s s1"
  shows "calm E i s (put_license lic' s1)"
proof -
  have "calm E i s (put_license lic' s)" using assms by (intro calm_put[OF assms(1)]) (auto simp: same_identity_def)
  moreover obtain k where "s1 = s\<lparr>n_rand := k\<rparr>" using assms(4) by (auto simp: fresh_rand_def)
  ultimately show ?thesis by (simp add: calm_def put_license_def)
qed

lemma calm_configure:
  assumes "configure_webhook E lic url rot m src allow nt pe s = Inr s'" and "lic \<in> set (licenses s)"
  shows "calm E i s s'"
proof -
  obtain lic' s1 where a: "apply_webhook_config E lic url rot m src allow s = Inr (lic', s1)"
    and c: "commit E (audit (Some (l_id lic)) (Some (l_product_id lic)) ''webhook:updated''
       (JDict (update_dict [(''set'', JBool (truthy url))] pe)) (Some nt) (put_license lic' s1)) = Inr s'"
    using assms(1) by (auto simp: configure_webhook_def res_simps)
  have "calm E i s (put_license lic' s1)"
    using apply_webhook_config_wf[OF a] by (intro calm_put_terms[OF assms(2)]) (auto simp: same_terms_def)
  with calm_commit[OF c, of i] show ?thesis by (auto simp: calm_frames intro: calm_trans)
qed

lemma calm_convert:
  assumes "convert_webhook_to_self E lic nt s = Inr s'" and "lic \<in> set (licenses s)"
  shows "calm E i s s'"
proof -
  have "calm E i s (put_license (lic\<lparr>l_webhook_url_source := Self, l_webhook_secret := k\<rparr>) (s\<lparr>n_rand := n\<rparr>))" for k n
    by (rule calm_put_terms[OF assms(2)]) (simp_all add: same_identity_def)
  with assms(1) show ?thesis
    by (auto simp: convert_webhook_to_self_def mint_def calm_frames split: if_splits dest!: calm_commit[where i = i]; blast intro: calm_trans)
qed

lemma calm_edit:
  assumes "edit_license E lic plan mu vur fj wu allow rot nt sched s = Inr (r, s')" and "good E s"
    and "lic \<in> set (licenses s)"
  shows "calm E i s s'"
proof -
  obtain fe vu lic2 s1 where
    w: "edit_webhook E (edited_terms lic plan mu (fst vu) fe) (or_none (strip wu)) allow rot s = Inr (lic2, s1)"
    and e: "edit_record E lic lic2 (or_none (strip wu)) (changed_fields lic plan mu vu fe) nt sched s1 = Inr (r, s')"
    using assms(1) by (rule edit_license_cases)
  have "webhook_wf (edited_terms lic plan mu (fst vu) fe)"
    using assms(2,3) by (auto simp: good_def license_wf_def webhook_wf_def edited_terms_def dest: rows_ok_license)
  from edit_webhook_wf[OF w this] have "same_identity lic lic2" "l_status lic2 = l_status lic" "fresh_rand s s1"
    by (auto simp: same_identity_def same_terms_def edited_terms_def)
  from calm_put_terms[OF assms(3) this] have p: "calm E i s (put_license lic2 s1)" .
  from e show ?thesis
    by (rule edit_record_cases) (use p in \<open>auto simp: calm_frames split: if_splits dest!: calm_finish[where i = i] calm_notify[where i = i]; blast intro: calm_trans\<close>)
qed

lemma calm_test:
  assumes "test_webhook E lic s = Inr (r, s')"
  shows "calm E i s s'"
proof -
  have "calm E i s (s1\<lparr>n_uuid := Suc (n_uuid s1)\<rparr>)" if "deliver E u k ty data eid ts allow s = Inr (x, s1)" for u k ty data eid ts allow x s1
    by (rule calm_trans[OF calm_deliver[OF that] calm_uuid])
  with assms show ?thesis
    by (auto simp: test_webhook_def fresh_id_def rbind_Inr_iff calm_frames Let_def split: if_splits
        dest!: calm_commit[where i = i]; blast intro: calm_trans)
qed

lemma calm_forget: "calm E i s (forget_license j s)"
  by (auto simp: calm_def forget_license_def delete_where_def)

lemma calm_delete_in_tx:
  assumes "delete_license_in_tx E lic nt s = Inr (x, s')"
  shows "calm E i s s'"
proof -
  obtain sn d where x: "x = (sn, d)" by (cases x)
  from assms[unfolded x] obtain s2 where
    n: "notify_deleted E lic sn (audit_deleted lic sn nt s) = Inr (d, s2)" and s': "s' = forget_license (l_id lic) s2"
    by (rule delete_in_tx_cases)
  from calm_notify_deleted[OF n, of i] have "calm E i s s2" by (simp add: audit_deleted_def calm_frames)
  then show ?thesis unfolding s' by (rule calm_trans[OF _ calm_forget])
qed

lemma calm_delete_all: "delete_all_in_tx E lics nt s = Inr (xs, s') \<Longrightarrow> calm E i s s'"
proof (induction lics arbitrary: s xs)
  case (Cons lic lics)
  then obtain x s1 ys where "delete_license_in_tx E lic nt s = Inr (x, s1)" "delete_all_in_tx E lics nt s1 = Inr (ys, s')"
    by (auto simp: rbind_Inr_iff)
  then show ?case using calm_delete_in_tx Cons.IH by (blast intro: calm_trans)
qed simp

lemma calm_delete_license: "delete_license E lic sched nt s = Inr s' \<Longrightarrow> calm E i s s'"
  by (auto simp: delete_license_def rbind_Inr_iff dest!: calm_delete_in_tx[where i = i] calm_finish[where i = i];
      blast intro: calm_trans)

lemma calm_delete_bulk: "delete_licenses_bulk E lics sched nt s = Inr (r, s') \<Longrightarrow> calm E i s s'"
  by (auto simp: delete_licenses_bulk_def rbind_Inr_iff dest!: calm_delete_all[where i = i] calm_commit[where i = i];
      blast intro: calm_trans calm_run_deliveries)

lemma calm_find_or_add:
  assumes "find_or_add_customer E sid email nm s = Inr (cust, s')"
  shows "calm E i s s'"
  using assms by (cases rule: find_or_add_customer_cases) (auto simp: calm_frames calm_uuid intro!: calm_flush)

lemma calm_new_license:
  assumes "new_license E p cust plan mu vd fe url allow s = Inr (lic, s')"
  shows "calm E i s (s'\<lparr>licenses := licenses s' @ [lic]\<rparr>)"
proof -
  obtain k where "l_id lic = uuid4 E (n_uuid s)" "s' = s\<lparr>n_rand := k, n_uuid := Suc (n_uuid s)\<rparr>"
    using new_license_row[OF assms] by auto
  then show ?thesis by (auto simp: calm_def)
qed

lemma calm_issue:
  assumes "issue_license E p email nm plan mu vd fe wu allow sid nt send s = Inr ((lic, cust), s')"
  shows "calm E i s s'"
  using assms
proof (rule issue_license_state)
  fix s1 s4 s6
  assume f: "find_or_add_customer E sid email (clean nm) s = Inr (cust, s1)"
    and n: "new_license E p cust plan mu vd fe (clean wu) allow s1 = Inr (lic, s4)"
    and c: "commit E (audit None (Some (p_id p)) ''issued''
       (JDict [(''plan'', JStr plan), (''webhook'', JBool (clean wu \<noteq> None))]) (Some nt)
       (s4\<lparr>licenses := licenses s4 @ [lic]\<rparr>)) = Inr s6"
    and s': "s' = s6\<lparr>outbox := outbox s'\<rparr>"
  have "calm E i s1 s6" using calm_trans[OF calm_new_license[OF n]] calm_commit[OF c, of i] by (simp add: calm_frames)
  then have "calm E i s s6" by (rule calm_trans[OF calm_find_or_add[OF f]])
  then show ?thesis by (subst s') (simp add: calm_frames)
qed

lemma calm_record_install:
  assumes "record_install E lid iid v ip s = Inr s'"
  shows "calm E i s s'"
  using assms by (cases rule: record_install_cases) (auto simp: calm_frames calm_uuid put_install_def)

lemma calm_check:
  assumes "check_license E key iid v url ip s = Inr ((tok, lic), s')" and "good E s"
  shows "calm E i s s'"
  using assms(1)
proof (rule check_license_cases)
  fix l s1 s2
  assume a: "admit E key s = Inr l" and r: "register_url E l url s = Inr (lic, s1)"
    and i: "record_install E (l_id lic) iid v ip (put_license lic s1) = Inr s2"
    and c: "commit E (audit (Some (l_id lic)) (Some (l_product_id lic)) ''heartbeat''
       (JDict [(''version'', JStr v), (''install_id'', JStr iid)]) None s2) = Inr s'"
  have l: "l \<in> set (licenses s)" using admitD(1)[OF a] .
  then have "webhook_wf l" using assms(2) by (auto simp: good_def license_wf_def dest: rows_ok_license)
  from register_url_wf[OF r this] have t: "same_identity l lic" "l_status lic = l_status l" "drew s s1"
    by (auto simp: same_terms_def)
  then have "calm E i s (put_license lic s)" using l by (intro calm_put[OF l]) (auto simp: same_identity_def)
  then have "calm E i s (put_license lic s1)" using t(3) by (auto simp: calm_def put_license_def drew_def)
  then show ?thesis using calm_record_install[OF i, of i] calm_commit[OF c, of i]
    by (auto simp: calm_frames intro: calm_trans)
qed

section \<open>Operations beside the licences\<close>

text \<open>A commit after any change that keeps the licences and does not turn the identifiers back.\<close>

lemma calm_commit_of:
  "commit E t = Inr u \<Longrightarrow> licenses t = licenses s \<Longrightarrow> n_uuid s \<le> n_uuid t \<Longrightarrow> calm E i s u"
  by (blast intro: calm_trans calm_same calm_commit)

lemma calm_create_product: "create_product E slug name kp de ji wh api val s = Inr (p, s') \<Longrightarrow> calm E i s s'"
  by (erule create_product_cases, erule calm_commit_of) (simp_all add: audit_fields)

lemma calm_update_product: "update_product E slug ns nm kp ji de s = Inr (p, s') \<Longrightarrow> calm E i s s'"
  by (auto simp: update_product_def rbind_Inr_iff Let_def audit_fields put_product_def split: if_splits intro: calm_commit_of)

lemma calm_delete_product:
  assumes "delete_product E slug sched s = Inr (n, s')"
  shows "calm E i s s'"
  using assms
proof (rule delete_product_cases)
  fix p pairs s1 s3
  assume d: "delete_all_in_tx E (product_licenses p s) ''service/product-cascade'' s = Inr (pairs, s1)"
    and c: "commit E (forget_product (p_id p) (audit None None ''product:deleted'' (JDict [(''product_id'', JStr (p_id p)),
              (''slug'', JStr (p_slug p)), (''name'', JStr (p_name p)),
              (''license_count'', JInt (int n))]) (Some ''service/delete'') s1)) = Inr s3"
    and s': "s' = run_deliveries E sched (map snd pairs) s3"
  have "calm E i s1 s3" by (rule calm_commit_of[OF c]) (simp_all add: forget_product_def audit_fields)
  with calm_delete_all[OF d, of i] show ?thesis unfolding s' by (blast intro: calm_trans calm_run_deliveries)
qed

lemma calm_edit_customer: "edit_customer E cid em nm sid nt s = Inr (c, s') \<Longrightarrow> calm E i s s'"
  by (erule edit_customer_cases, erule calm_commit_of) (simp_all add: audit_fields put_customer_def)

lemma calm_create_preset: "create_preset E pid key vt raw nt s = Inr (f, s') \<Longrightarrow> calm E i s s'"
  by (auto simp: create_preset_def rbind_Inr_iff Let_def fresh_id_def preset_event_def audit_fields
      split: if_splits intro!: calm_commit_of)

lemma calm_update_preset: "update_preset E f key vt raw nt s = Inr (g, s') \<Longrightarrow> calm E i s s'"
  by (erule update_preset_cases, erule calm_commit_of) (simp_all add: preset_event_def audit_fields put_preset_def)

lemma fold_presets_fields: "licenses (fold (delete_preset_in_tx nt) fs s) = licenses s \<and> n_uuid (fold (delete_preset_in_tx nt) fs s) = n_uuid s"
  by (induction fs arbitrary: s) (simp_all add: delete_preset_in_tx_def preset_event_def audit_fields)

lemma calm_delete_presets: "delete_presets E fs nt s = Inr (n, s') \<Longrightarrow> calm E i s s'"
  by (auto simp: delete_presets_def rbind_Inr_iff fold_presets_fields intro!: calm_commit_of)

lemma recovery_codes_fields: "licenses (snd (recovery_codes E n s)) = licenses s \<and> n_uuid (snd (recovery_codes E n s)) = n_uuid s"
  using recovery_codes_frame[of E n s] by auto

lemma calm_set_codes: "set_codes E r s = Inr (c, s') \<Longrightarrow> calm E i s s'"
  using recovery_codes_fields[of E 10 s] by (auto simp: set_codes_def rbind_Inr_iff split: prod.splits intro!: calm_commit_of)

lemma calm_start_enrol: "start_enrol E s = Inr (x, s') \<Longrightarrow> calm E i s s'"
  by (auto simp: start_enrol_def seal_def draw_def rbind_Inr_iff Let_def intro!: calm_commit_of)

lemma calm_verify_login: "verify_login E otp s = Inr (b, s') \<Longrightarrow> calm E i s s'"
  by (auto simp: verify_login_def rbind_Inr_iff Let_def split: option.splits if_splits intro: calm_commit_of)

lemma calm_disable_mfa:
  assumes "disable_mfa E otp s = Inr (b, s')"
  shows "calm E i s s'"
proof -
  obtain ok s1 where v: "verify_login E otp s = Inr (ok, s1)" using assms by (auto simp: disable_mfa_def rbind_Inr_iff)
  with assms have "calm E i s1 s'"
    by (auto simp: disable_mfa_def rbind_Inr_iff split: option.splits if_splits intro: calm_commit_of)
  then show ?thesis by (rule calm_trans[OF calm_verify_login[OF v]])
qed

lemma calm_enrolment:
  "verify_enrol E otp s = Inr (c, s') \<Longrightarrow> calm E i s s'" "regen_recovery E otp s = Inr (c, s') \<Longrightarrow> calm E i s s'"
  by (auto simp: verify_enrol_def regen_recovery_def rbind_Inr_iff split: option.splits if_splits intro: calm_set_codes)

lemma calm_retry_delivery: "retry_delivery E did s = Inr (x, s') \<Longrightarrow> calm E i s s'"
  by (auto simp: retry_delivery_def rbind_Inr_iff Let_def put_delivery_def split: option.splits if_splits
      intro!: calm_trans[OF calm_commit_of calm_fresh_session])

lemma calm_create_backup: "calm E i s (snd (snd (create_backup E prefix nt k s)))"
  by (auto simp: create_backup_def Let_def calm_frames audit_fields split: sum.splits prod.splits intro!: calm_commit_of)

section \<open>Jobs\<close>

lemma calm_rollback_self: "licenses t = licenses s \<Longrightarrow> n_uuid t = n_uuid s \<Longrightarrow> calm E i s (rollback t t)"
  by (rule calm_same) (simp_all add: rollback_def)

lemma expiry_mail_fields:
  assumes "send_expiry_warning_email E to key nm n day s = (ok, s1)"
  shows "licenses s1 = licenses s \<and> n_uuid s1 = n_uuid s"
  using assms by (auto simp: send_expiry_warning_email_def send_email_def split: if_splits)

lemma calm_warn_license: "calm E i s (snd (warn_license E ts dry lic s))"
  by (auto simp: warn_license_def Let_def audit_fields split: option.splits prod.splits sum.splits
      dest!: expiry_mail_fields intro: calm_commit_of calm_rollback_self calm_same)

lemma calm_warn_all: "calm E i s (snd (warn_all E ts dry lics s))"
proof (induction lics arbitrary: s)
  case (Cons lic lics)
  obtain ok s1 where w: "warn_license E ts dry lic s = (ok, s1)" by fastforce
  with calm_warn_license[of E i s ts dry lic] Cons.IH[of s1] show ?case by (auto intro: calm_trans)
qed simp

lemma calm_expiry_main:
  assumes "expiry_main E arg dry s = Inr (rc, s')"
  shows "calm E i s s'"
proof -
  have "calm E i s s'" if "warn_all E ts dry lics s = (rc, s')" for ts lics
    using calm_warn_all[of E i s ts dry lics] that by simp
  with assms show ?thesis by (auto simp: expiry_main_def expiry_run_def rbind_Inr_iff split: if_splits)
qed

lemma calm_prune_main:
  assumes "prune_main E days types dry s = Inr (rc, s')"
  shows "calm E i s s'"
proof -
  have "calm E i s s1" if "commit E (s\<lparr>events := delete_where (prunable ts cut) (events s)\<rparr>) = Inr s1" for ts cut s1
    by (rule calm_commit_of[OF that]) simp_all
  with assms show ?thesis by (auto simp: prune_main_def prune_run_def rbind_Inr_iff split: if_splits sum.splits)
qed

lemma calm_rewrap_run: "calm E i s (snd (rewrap_run E dry migrate s))"
  by (auto simp: rewrap_run_def rewrap_session_def split: option.splits sum.splits intro: calm_commit_of)

lemma calm_run_backup: "calm E i s (snd (snd (run_backup E retention dry k s)))"
  using calm_create_backup[of E i s BACKUP_PREFIX "''script/scheduled''" k]
  by (auto simp: run_backup_def Let_def split: sum.splits prod.splits)

section \<open>Routes\<close>

lemma calm_writes:
  assumes "\<And>x s'. h s = Inr (x, s') \<Longrightarrow> calm E i s s'"
  shows "calm E i s (snd (snd (writes f h k s)))"
  using assms by (cases "h s") (auto simp: writes_def run_handler_def calm_frames)

lemma calm_on_error: "on_error p h s r = Inr (x, s') \<Longrightarrow> (r = Inr (x, s') \<Longrightarrow> calm E i s s') \<Longrightarrow> calm E i s s'"
  by (auto dest: on_error_Inr)

lemma calm_license_issue: "license_issue E req slug email nm plan mu vd fj wu ah csrf s = Inr (x, s') \<Longrightarrow> calm E i s s'"
  by (cases "parse_features fj")
    (auto simp: license_issue_def rbind_Inr_iff or_404_Inr intro: calm_issue elim!: calm_on_error)

lemma calm_product_edit: "product_edit E req slug ns nm kp ji de rt csrf s = Inr (x, s') \<Longrightarrow> calm E i s s'"
  by (auto simp: product_edit_def rbind_Inr_iff or_404_Inr Let_def intro: calm_update_product elim!: calm_on_error)

lemma calm_license_forms:
  assumes "good E s"
  shows "license_edit E req lid plan mu vu fj wu ah rs csrf s = Inr (x, s') \<Longrightarrow> calm E i s s'"
    and "license_webhook_update E req lid wu ah rs csrf s = Inr (x, s') \<Longrightarrow> calm E i s s'"
    and "license_webhook_convert_to_self E req lid csrf s = Inr (x, s') \<Longrightarrow> calm E i s s'"
    and "license_webhook_test E req lid csrf s = Inr (x, s') \<Longrightarrow> calm E i s s'"
    and "license_delete_one E req lid csrf s = Inr (x, s') \<Longrightarrow> calm E i s s'"
    and "licenses_bulk_delete E req slug lids csrf s = Inr (x, s') \<Longrightarrow> calm E i s s'"
  using assms
  by (auto simp: form_defs rbind_Inr_iff or_404_Inr split: sum.splits if_splits
      dest!: license_form_Inr elim!: calm_on_error
      intro: calm_edit calm_configure calm_convert calm_test calm_delete_license calm_delete_bulk)

lemma calm_status_form:
  assumes "license_status_form svc nt E req lid csrf s = Inr (x, s')"
    and "svc \<in> {revoke_license, disable_license} \<or> svc = enable_license \<and> lid \<noteq> i"
  shows "calm E i s s'"
proof -
  obtain lic where l: "license_form E req csrf lid s = Inr lic" and v: "svc E lic nt Background s = Inr s'"
    using assms(1) by (auto simp: license_status_form_def rbind_Inr_iff)
  from license_form_Inr[OF l] v assms(2) show ?thesis
    by (auto simp: revoke_license_def disable_license_def enable_license_def intro: calm_set_status)
qed

lemma calm_other_forms:
  "product_create E req slug nm kp de ji csrf s = Inr (x, s') \<Longrightarrow> calm E i s s'"
  "product_delete_one E req slug csrf s = Inr (x, s') \<Longrightarrow> calm E i s s'"
  "customer_edit E req cid nm email sid csrf s = Inr (x, s') \<Longrightarrow> calm E i s s'"
  "preset_create E req pid key vt dv csrf s = Inr (x, s') \<Longrightarrow> calm E i s s'"
  "preset_edit E req pid key vt dv csrf s = Inr (x, s') \<Longrightarrow> calm E i s s'"
  "preset_delete_one E req pid csrf s = Inr (x, s') \<Longrightarrow> calm E i s s'"
  "presets_bulk_delete E req pids csrf s = Inr (x, s') \<Longrightarrow> calm E i s s'"
  "mfa_enroll E req csrf s = Inr (x, s') \<Longrightarrow> calm E i s s'"
  "mfa_verify_enroll E req otp csrf s = Inr (x, s') \<Longrightarrow> calm E i s s'"
  "mfa_disable E req otp csrf s = Inr (x, s') \<Longrightarrow> calm E i s s'"
  "mfa_regen_recovery E req otp csrf s = Inr (x, s') \<Longrightarrow> calm E i s s'"
  "delivery_retry E req did csrf s = Inr (x, s') \<Longrightarrow> calm E i s s'"
  by (auto simp: form_defs rbind_Inr_iff or_404_Inr split: sum.splits if_splits elim!: calm_on_error
      intro: calm_create_product calm_delete_product calm_edit_customer calm_create_preset calm_update_preset
        calm_delete_presets calm_start_enrol calm_enrolment calm_disable_mfa calm_retry_delivery)

lemma calm_products_delete: "calm E i s (snd (products_bulk_delete E req slugs csrf s))"
proof -
  have loop: "calm E i s (snd (delete_products E slugs n m s))" for n m
    by (induction slugs arbitrary: n m s)
      (auto split: sum.splits dest: calm_delete_product intro: calm_trans)
  show ?thesis using loop[of 0 0] by (auto simp: products_bulk_delete_def split: sum.splits prod.splits)
qed

lemma calm_backup_forms:
  "calm E i s (snd (snd (backup_create E req csrf k s)))"
  "calm E i s (snd (snd (backup_delete_one E req name csrf k s)))"
  "calm E i s (snd (snd (backups_bulk_delete E req names csrf k s)))"
  using calm_create_backup[of E i s BACKUP_PREFIX "''ui/backup''" k]
  by (auto simp: backup_create_def backup_delete_one_def backups_bulk_delete_def Let_def
      intro!: guarded_run[where P = "calm E i s"] split: sum.splits prod.splits)

text \<open>
  The payment provider's events. A body that verifies, under whatever secret and at whatever
  time, as the event of a paid or of a failed invoice can set a licence to active or to
  delinquent; every other delivery is calm.
\<close>

definition invoice_event :: "env \<Rightarrow> string \<Rightarrow> string \<Rightarrow> bool" where
  "invoice_event E payload sig \<longleftrightarrow> (\<exists>t k ev ty. stripe_event_of E t payload sig k = Some ev
     \<and> item ev ''type'' = Inr ty \<and> payload_str ty \<in> {''invoice.paid'', ''invoice.payment_failed''})"

lemma mark_license_origin:
  "x \<in> set (licenses (mark_license p st nt lic s)) \<Longrightarrow> x \<in> set (licenses s)
     \<or> x = lic\<lparr>l_status := st\<rparr> \<and> (\<exists>y \<in> set (licenses s). l_id y = l_id lic)"
  by (auto simp: mark_license_def put_license_def update_where_def audit_fields split: if_splits)

lemma calm_mark_license:
  assumes "\<forall>x \<in> set (licenses s). l_id x = l_id lic \<longrightarrow> l_key x = l_key lic" and "barred st"
  shows "calm E i s (mark_license p st nt lic s)"
  unfolding calm_def
proof (intro conjI ballI impI)
  show "n_uuid s \<le> n_uuid (mark_license p st nt lic s)" by (simp add: mark_license_def table_simps)
  fix x assume "x \<in> set (licenses (mark_license p st nt lic s))" "l_id x = i"
  from mark_license_origin[OF this(1)] this(2)
  show "(\<exists>l \<in> set (licenses s). l_id l = i \<and> l_key x = l_key l \<and> (l_status x = l_status l \<or> barred (l_status x)))
     \<or> (\<exists>n. n_uuid s \<le> n \<and> n < n_uuid (mark_license p st nt lic s) \<and> i = uuid4 E n)"
    using assms by force
qed

lemma calm_mark_all:
  assumes "\<forall>l \<in> set ls. \<forall>x \<in> set (licenses s). l_id x = l_id l \<longrightarrow> l_key x = l_key l" and "barred st"
  shows "calm E i s (fold (mark_license p st nt) ls s)"
  using assms(1)
proof (induction ls arbitrary: s)
  case (Cons l ls)
  let ?s = "mark_license p st nt l s"
  have "calm E i s ?s" using Cons.prems assms(2) by (intro calm_mark_license) auto
  moreover have "l_key x = l_key m" if "m \<in> set ls" "x \<in> set (licenses ?s)" "l_id x = l_id m" for m x
    using mark_license_origin[OF that(2)] Cons.prems that(1,3) by force
  ultimately show ?case using Cons.IH[of ?s] by (auto intro: calm_trans)
qed simp

lemma calm_claim: "claim_event E p j ty s = Inr (Some s1) \<Longrightarrow> calm E i s s1 \<and> licenses s1 = licenses s"
  by (auto simp: claim_event_def rbind_Inr_iff flush_Inr table_simps intro!: calm_flush calm_same split: option.splits sum.splits if_splits)

lemma calm_status_event:
  assumes "on_status_event st p ev s = Inr s'" and "distinct (map l_id (licenses s))" and "barred st"
  shows "calm E i s s'"
proof -
  have "calm E i s (fold (mark_license p st nt) (filter P (licenses s)) s)" for P nt
    using assms(2) by (intro calm_mark_all[OF _ assms(3)]) (auto simp: distinct_map dest: inj_onD)
  with assms(1) show ?thesis
    by (auto simp: on_status_event_def mark_status_def rbind_Inr_iff split: option.splits)
qed

lemma calm_stripe:
  assumes "stripe_webhook E slug body sig s = Inr (j, s')" and "good E s" and "\<not> invoice_event E body sig"
  shows "calm E i s s'"
proof -
  obtain p ev where v: "signed_event E slug body sig s = Inr (p, ev)"
    using assms(1) by (auto simp: stripe_webhook_def rbind_Inr_iff)
  obtain k where signed: "stripe_event_of E (now s) body sig k = Some ev"
    using signed_event_Inr[OF v] by blast
  obtain t ei cl where t: "item ev ''type'' = Inr t" and c: "claim_event E p (text_or_none ei) (payload_str t) s = Inr cl"
    using assms(1) v by (auto simp: stripe_webhook_def rbind_Inr_iff)
  have ty: "payload_str t \<noteq> ''invoice.paid''" "payload_str t \<noteq> ''invoice.payment_failed''"
    using signed v t assms(3) by (auto simp: invoice_event_def)
  show ?thesis
  proof (cases "s' = s")
    case False
    then obtain s1 s2 where h: "handle_event E p (payload_str t) ev s1 = Inr s2" and m: "commit E s2 = Inr s'"
      and c1: "\<exists>k. claim_event E p k (payload_str t) s = Inr (Some s1)"
      using assms(1) v t by (fastforce simp: stripe_webhook_def rbind_Inr_iff split: option.splits)
    from c1 have s1: "calm E i s s1" "licenses s1 = licenses s" using calm_claim by blast+
    have "distinct (map l_id (licenses s1))" using assms(2) s1(2) by (simp add: good_def constraints_ok_def)
    then have "calm E i s1 s2" using h ty
      by (auto simp: handle_event_def intro: calm_status_event split: if_splits)
    with s1(1) calm_commit[OF m] show ?thesis by (blast intro: calm_trans)
  qed simp
qed

text \<open>The commands that can make the licence usable again.\<close>

fun reviving :: "env \<Rightarrow> uid \<Rightarrow> command \<Rightarrow> bool" where
  "reviving E i (Request req (Form csrf (LicenseEnable lid))) \<longleftrightarrow> lid = i"
| "reviving E i (Request req (Public (StripeEvent slug payload sig))) \<longleftrightarrow> invoice_event E payload sig"
| "reviving E i (Request req r) \<longleftrightarrow> restores r"
| "reviving E i c \<longleftrightarrow> False"

lemma calm_form:
  assumes "good E s" and "\<not> reviving E i (Request req (Form csrf r))"
  shows "calm E i s (snd (snd (form_handler E req csrf r k s)))"
proof -
  note fs = calm_license_issue calm_product_edit calm_license_forms[OF assms(1)] calm_other_forms
  show ?thesis
  proof (cases r)
    case (ProductsDelete slugs)
    then show ?thesis using calm_products_delete[of E i s req slugs csrf]
      by (cases "products_bulk_delete E req slugs csrf s") simp
  next
    case (LicenseRevoke lid)
    then show ?thesis
      by (simp add: license_revoke_def) (rule calm_writes, erule calm_status_form, simp)
  next
    case (LicenseDisable lid)
    then show ?thesis
      by (simp add: license_disable_def) (rule calm_writes, erule calm_status_form, simp)
  next
    case (LicenseEnable lid)
    with assms(2) show ?thesis
      by (simp add: license_enable_def) (rule calm_writes, erule calm_status_form, simp)
  qed (use assms(2) in simp; (rule calm_writes, erule fs | simp add: does_run calm_backup_forms)?)+
qed

lemma calm_webhook_set:
  assumes "admin_api_webhook_set E req lid url rot allow s = Inr (z, s')"
  shows "calm E i s s'"
proof -
  obtain r where r: "one_or_none (\<lambda>l. l_id l = lid) (licenses s) = Inr r"
    using assms by (auto simp: admin_api_webhook_set_def rbind_Inr_iff)
  show ?thesis
  proof (cases r)
    case (Some lic)
    then have l: "lic \<in> set (licenses s)" using r by (auto dest: one_or_none_SomeD(1))
    show ?thesis
    proof (cases "configure_webhook E lic (or_none (strip url)) rot False Admin allow ''api/webhook'' [(''rotated'', JBool rot)] s")
      case (Inr s1)
      with assms r Some have "s' = s1" by (auto simp: admin_api_webhook_set_def rbind_Inr_iff)
      with calm_configure[OF Inr l] show ?thesis by simp
    qed (use assms r Some in \<open>auto simp: admin_api_webhook_set_def rbind_Inr_iff\<close>)
  qed (use assms r in \<open>auto simp: admin_api_webhook_set_def rbind_Inr_iff\<close>)
qed

lemma calm_api_writes:
  "admin_create_product E req slug nm kp de ji wh ak s = Inr (x, s') \<Longrightarrow> calm E i s s'"
  "admin_issue E req slug em nm2 pl mu fe vd wu ah sid s = Inr (y, s') \<Longrightarrow> calm E i s s'"
  "admin_revoke E req lid s = Inr (z, s') \<Longrightarrow> calm E i s s'"
  by (auto simp: api_defs rbind_Inr_iff product_or_404_def revoke_license_def split: sum.splits option.splits if_splits
      dest!: one_or_none_SomeD(1) intro: calm_create_product calm_issue calm_set_status)

lemma calm_api: "calm E i s (snd (snd (api_handler E req r k s)))"
  by (cases r) (auto simp: good_looks intro!: calm_writes intro: calm_api_writes calm_webhook_set)

lemma calm_public:
  assumes "good E s" and "\<not> reviving E i (Request req (Public r))"
  shows "calm E i s (snd (snd (public_handler E req r k s)))"
proof -
  have "calm E i s s'" if "api_check E key iid v url c s = Inr (x, s')" for key iid v url c x s'
    using that calm_check[OF _ assms(1)]
    by (auto simp: api_check_def reject_def rbind_Inr_iff split: sum.splits exc.splits)
  moreover have "calm E i s s'" if "login_mfa E req otp s = Inr (x, s')" for otp x s'
    using that by (auto simp: login_mfa_def rbind_Inr_iff split: if_splits intro: calm_verify_login)
  moreover have "calm E i s s'" if "stripe_webhook E slug b sg s = Inr (x, s')" "\<not> invoice_event E b sg" for slug b sg x s'
    using calm_stripe[OF that(1) assms(1) that(2)] .
  ultimately show ?thesis using assms(2) by (cases r) (auto simp: good_looks intro!: calm_writes)
qed

lemma calm_dispatch:
  assumes "good E s" and "\<not> reviving E i (Request req r)"
  shows "calm E i s (snd (snd (dispatch E req r k s)))"
  using assms by (cases r) (simp_all add: calm_public calm_form calm_api good_looks)

lemma calm_perform:
  assumes "good E s" and "\<not> reviving E i c"
  shows "calm E i s (snd (perform E c k s))"
proof (cases c)
  case (Request req r)
  have "calm E i s (snd (snd (dispatch E req r k (s\<lparr>tasks := []\<rparr>))))"
    using calm_dispatch[of E "s\<lparr>tasks := []\<rparr>" i req r k] assms Request by (simp add: good_tasks calm_frames)
  then show ?thesis using Request
    by (auto simp: serve_def calm_frames calm_run_tasks split: prod.splits sum.splits)
qed (auto simp: retry_run_def calm_retry_loop calm_rewrap_run calm_run_backup calm_frames job_session_def
    split: sum.splits dest: calm_prune_main calm_expiry_main)

section \<open>Revocation lasts\<close>

text \<open>Every licence with the identifier is barred, and the identifier is not drawn again.\<close>

definition shut :: "env \<Rightarrow> uid \<Rightarrow> string \<Rightarrow> session \<Rightarrow> bool" where
  "shut E i key s \<longleftrightarrow> (\<forall>l \<in> set (licenses s). l_id l = i \<longrightarrow> barred (l_status l) \<and> l_key l = key) \<and> (\<forall>n \<ge> n_uuid s. uuid4 E n \<noteq> i)"

lemma shut_calm: "shut E i key s \<Longrightarrow> calm E i s s' \<Longrightarrow> shut E i key s'"
  by (fastforce simp: shut_def calm_def)

lemma reviving_restoring: "restoring c \<Longrightarrow> reviving E i c"
  by (cases "(E, i, c)" rule: reviving.cases) auto

definition sober_step :: "env \<Rightarrow> uid \<Rightarrow> world \<Rightarrow> world \<Rightarrow> bool" where
  "sober_step E i w w' \<longleftrightarrow> (\<exists>c. \<not> reviving E i c \<and> w' = perform E c (fst w) (snd w))"

interpretation revocation: machine "\<lambda>w. good E (snd w) \<and> shut E i key (snd w)" "sober_step E i"
    "\<lambda>w. good E (snd w) \<and> shut E i key (snd w)" for E i key
proof unfold_locales
  fix w w' assume w: "good E (snd w) \<and> shut E i key (snd w)" and "sober_step E i w w'"
  then obtain c where c: "\<not> reviving E i c" "w' = perform E c (fst w) (snd w)" by (auto simp: sober_step_def)
  then have "\<not> restoring c" using reviving_restoring by blast
  with c w show "good E (snd w') \<and> shut E i key (snd w')"
    by (auto intro: good_perform shut_calm[OF _ calm_perform])
qed

lemma run_sober: "list_all (\<lambda>c. \<not> reviving E i c) cs \<Longrightarrow> (sober_step E i)\<^sup>*\<^sup>* w (run E cs w)"
proof (induction cs arbitrary: w)
  case (Cons c cs)
  then have "sober_step E i w (perform E c (fst w) (snd w))" by (auto simp: sober_step_def)
  moreover have "run E (c # cs) w = run E cs (perform E c (fst w) (snd w))" by (simp add: run_def case_prod_beta)
  moreover have "(sober_step E i)\<^sup>*\<^sup>* (perform E c (fst w) (snd w)) (run E cs (perform E c (fst w) (snd w)))"
    using Cons by (intro Cons.IH) simp
  ultimately show ?case by (metis converse_rtranclp_into_rtranclp)
qed (simp add: run_def)

lemma barred_rejected:
  assumes "good E s" and "x \<in> set (licenses s)" and "barred (l_status x)"
  shows "check_license E (l_key x) iid version url ip s
    = Inl (CheckRejected (if l_status x = Revoked then ''revoked'' else ''disabled'') 401)"
proof -
  have "hash_key E (l_key x) = Inr (l_key_hash x)" using assms by (auto simp: good_def license_wf_def dest: rows_ok_license)
  moreover have "one_or_none (\<lambda>l. l_key_hash l = l_key_hash x) (licenses s) = Inr (Some x)"
    using assms by (intro one_or_none_key) (auto simp: good_def constraints_ok_def)
  ultimately have "admit E (l_key x) s = Inl (CheckRejected (if l_status x = Revoked then ''revoked'' else ''disabled'') 401)"
    using assms(3) by (auto simp: admit_def admit_row_def)
  then show ?thesis by (simp add: check_license_def)
qed


section \<open>Examples\<close>

text \<open>
  A revoked licence, and a day on which its subscription ends, its key is tried and the queue
  is served.
\<close>

definition closed_shop :: session where
  "closed_shop = put_license (sample_license\<lparr>l_status := Revoked\<rparr>) shop"

definition ended_body :: string where
  "ended_body = dumps_compact (JDict [(''id'', JStr ''evt_9''), (''type'', JStr ''customer.subscription.deleted''),
     (''data'', JDict [(''object'', JDict [(''customer'', JStr ''cus_1'')])])])"

lemma ended_calm: "\<not> invoice_event shop_env ended_body sig"
proof -
  have "case loads ended_body of Inl e \<Rightarrow> False | Inr ev \<Rightarrow> item ev ''type'' = Inr (JStr ''customer.subscription.deleted'')"
    by code_simp
  then show ?thesis
    by (auto simp: invoice_event_def shop_env_def sample_env_def Let_def split: sum.split_asm if_split_asm prod.split_asm)
qed

definition quiet_day :: "command list" where
  "quiet_day = [Request visitor (Public (StripeEvent ''demo'' ended_body paid_sig)), Request visitor (Public (CheckIn ''demo_key1'' ''i1'' ''1.0'' None)), Wait 3600,
     RetryJob 10, Request visitor (Form [] (LicenseEnable ''l2''))]"

lemma closed_shop_good: "good shop_env closed_shop"
  unfolding closed_shop_def using shop_good
  by (auto simp: good_def constraints_ok_def put_license_def update_where_def shop_def empty_session_def
      rows_ok_def placed_def license_wf_def webhook_wf_def)


end
