(* ===== verification/Spec2Isabelle.thy ===== *)
theory Spec2Isabelle
  imports JsonRoundtrip Pagination Migrations Revocation
begin

text \<open>
  A model of the licence server under \<^verbatim>\<open>src/\<close>: a web application that issues licence keys
  for products, answers the periodic check of an installation with a short-lived signed
  token, tells a customer's service of changes through signed webhooks, and is run by one
  administrator through pages, forms and a programmatic interface. This theory imports every
  other one; a theory is named here beside the source files it models.

  \<^bold>\<open>How the parts interact.\<close> A request is a route (\<open>System.route\<close>) that \<open>System.dispatch\<close>
  gives to its handler. The handlers of \<^verbatim>\<open>app/routers\<close> (theories \<open>Auth\<close>, \<open>AdminUi\<close>,
  \<open>AdminPages\<close>, \<open>Api\<close>, \<open>Backups\<close>, \<open>Exports\<close>, \<open>Check\<close>) pass the guards of \<open>Http\<close> and
  call the services of \<^verbatim>\<open>app/services\<close> (\<open>Licenses\<close>, \<open>Check\<close>, \<open>Products\<close>, \<open>Customers\<close>,
  \<open>Presets\<close>, \<open>Mfa\<close>, \<open>Backups\<close>). A service reads and writes the tables of one database session
  (\<open>Models.session\<close>), which carries the pending audit events, the request's background tasks,
  the requests sent to the outside (\<open>outbox\<close>), the clock and the positions of the random
  sources; an operation takes the session and yields a result with the new session, or the
  exception (\<open>Prelude.exc\<close>, \<open>Prelude.res\<close>) that a handler catches or the application maps
  to a response. After a commit, a queued webhook is attempted at once or as a background task, and
  then by the retry job. \<open>System.command\<close> adds the jobs and the passing of time, and
  \<open>System.run\<close> is a sequence of commands.
\<close>

text \<open>
  \<^bold>\<open>Foundations.\<close> \<open>Prelude\<close>: exceptions, results, queries, instants. \<open>PyStr\<close>, \<open>Json\<close>,
  \<open>Datetime\<close>, \<open>IPAddress\<close>: the parts of Python's standard library the program calls.
  \<open>Config\<close> (\<^verbatim>\<open>app/config.py\<close>): the settings, and the record \<open>env\<close> of everything outside the
  repository. \<open>Models\<close> (\<^verbatim>\<open>app/models.py\<close>): a record per table, the insertion default of an
  event's subject, flush and commit with the table constraints.

  \<^bold>\<open>Components.\<close>
  \<^item> \<open>Keystore\<close>, \<open>Rewrap\<close>, \<open>Migrations\<close> (\<^verbatim>\<open>app/keystore.py\<close>,
    \<^verbatim>\<open>app/scripts/rewrap_secrets.py\<close>, five files of \<^verbatim>\<open>alembic/versions\<close>): secrets at rest,
    the rotation of their key, and the migrations that rewrite rows. Lemmas: a sealed secret reads back,
    rewriting never changes what a reader gets, a run changes all rows or none, the migrations
    establish what the invariant asks of webhooks and key hashes.
  \<^item> \<open>Signing\<close> (\<^verbatim>\<open>app/license_keys.py\<close>, \<^verbatim>\<open>app/signing.py\<close>): the peppered hash and the display
    form of a key, the token and its expiry.
  \<^item> \<open>Security\<close> (\<^verbatim>\<open>app/security.py\<close>): form and bearer tokens, and the guard on outbound URLs.
    Lemmas: an address that the guard passes is in none of the private ranges.
  \<^item> \<open>Webhooks\<close>, \<open>Delivery\<close> (\<^verbatim>\<open>app/webhooks.py\<close>, \<^verbatim>\<open>app/scripts/retry_webhooks.py\<close>,
    \<^verbatim>\<open>app/routers/admin_ui/webhook_deliveries.py\<close>): the signed request and the durable queue.
    Lemmas: an attempt refines a small step relation with a rank, so that seven attempts settle a row;
    requests go to checked addresses and are authentic.
  \<^item> \<open>Licenses\<close>, \<open>Lifecycle\<close>, \<open>Email\<close> (\<^verbatim>\<open>app/services/licenses.py\<close>, \<^verbatim>\<open>app/email.py\<close>): issuing,
    status, edits, webhook configuration, deletion.
  \<^item> \<open>Check\<close> (\<^verbatim>\<open>app/services/check.py\<close>, \<^verbatim>\<open>app/routers/api.py\<close>): admission, self-registration of
    a webhook, heartbeat, token.
  \<^item> \<open>Products\<close>, \<open>Customers\<close>, \<open>Presets\<close>, \<open>Pagination\<close> (the files of these names): the other
    tables and the keyset pages over them.
  \<^item> \<open>Stripe\<close> (\<^verbatim>\<open>app/stripe_webhook.py\<close>): payment events, claimed once by their identifier.
  \<^item> \<open>Mfa\<close>, \<open>Http\<close>, \<open>Auth\<close> (\<^verbatim>\<open>app/services/mfa.py\<close>, \<^verbatim>\<open>app/routers/admin_ui/_deps.py\<close>,
    \<^verbatim>\<open>auth.py\<close>, \<^verbatim>\<open>mfa.py\<close>): the second factor, the cookies, the guards and the login.
  \<^item> \<open>AdminUi\<close>, \<open>AdminPages\<close>, \<open>Api\<close>, \<open>Exports\<close> (\<^verbatim>\<open>app/routers\<close>): pages, forms, the
    programmatic interface and the CSV downloads.
  \<^item> \<open>Archive\<close>, \<open>ArchiveRoundtrip\<close>, \<open>Backups\<close> (\<^verbatim>\<open>app/backup.py\<close>, \<^verbatim>\<open>app/backup_s3.py\<close>,
    \<^verbatim>\<open>app/services/backups.py\<close>, \<^verbatim>\<open>app/scripts/run_backup.py\<close>): backup, restore, retention.
  \<^item> \<open>Scripts\<close> (\<^verbatim>\<open>app/scripts/prune_events.py\<close>, \<^verbatim>\<open>app/scripts/send_expiry_warnings.py\<close>).
  \<^item> \<open>App\<close> (\<^verbatim>\<open>app/main.py\<close>, \<^verbatim>\<open>rate_limit.py\<close>, \<^verbatim>\<open>request_id.py\<close>, \<^verbatim>\<open>log_format.py\<close>, \<^verbatim>\<open>db.py\<close>): the
    check at start-up, the health endpoints, exception handlers, request identifiers, log lines.
  \<^item> \<open>Wellformed\<close>, \<open>System\<close>, \<open>Revocation\<close>: what spans components. \<open>good\<close> is the well-formed
    database: the uniqueness constraints, no dangling references, a hash per key, a secret and an
    acceptable URL per webhook; every handler and job keeps it. \<open>calm\<close> relates two states in which a
    barred licence stayed barred; every job is calm, and every handler but those that enable the
    licence, take a payment event or restore an archive.
\<close>

text \<open>
  \<^bold>\<open>Interfaces.\<close> \<open>Store.row_store\<close>: a table whose rows are written back by key, interpreted on
  each of the six tables the services update. \<open>Keystore.codec\<close>, extended by \<open>envelope\<close>: what is wrapped reads
  back, interpreted on the key store (\<open>secret\<close>) and on the archives (\<open>archive\<close>).
  \<open>Machine.machine\<close>, extended by \<open>ranked_machine\<close>: an invariant kept by steps, interpreted on
  the delivery queue (\<open>queue\<close>, with the attempts left as its rank), the second factor
  (\<open>mfa\<close>), the whole system (\<open>system\<close>) and one barred licence (\<open>revocation\<close>).

  \<^bold>\<open>Parameters.\<close> A field of \<open>env\<close> stands for each thing outside the repository: the settings,
  \<open>uuid4\<close>, \<open>token_urlsafe\<close>, \<open>token_hex\<close>, \<open>random_base32\<close> and \<open>ed25519_pair\<close> as sequences of draws,
  the hashes, Fernet, the JWT encoder, the one-time password check, name resolution, the HTTP client,
  the cookie signer, the payment provider's signature check, the archive format, the upload to
  the object store. What a theorem needs of one is a hypothesis of it: \<open>fernet_inverse\<close> (a
  token decrypts under its key), \<open>archive_laws\<close> (the archive keeps its members),
  that a draw is fresh. Each such theorem has a witness on \<open>Config.sample_env\<close>, or on a variant of it.

  \<^bold>\<open>Bounds and fuel.\<close> The JSON reader takes fuel \<open>2 * length s + 2\<close>; \<open>JsonRoundtrip\<close> shows it
  enough for every text the program writes. \<open>Pagination.walk\<close>, a client that follows the
  cursors, needs one page more than there are rows, which \<open>pagination_complete\<close> proves. The CSV
  reader of the statements about exports (\<open>Exports.read_csv\<close>) takes one unit per record; its
  theorems prove that it succeeds. A delivery row is attempted at most seven times. Text is ASCII
  (JSON strings: code points below 256); the one other character, the ellipsis of a displayed
  key, is handled where it is written. The engine is SQLite, the one of the repository's deployment: column
  lengths and foreign keys are not enforced, and a request sees its own session only. Handlers and jobs run
  one after another.
\<close>

text \<open>
  \<^bold>\<open>Not modelled.\<close> Templates and browser code (\<^verbatim>\<open>app/templates\<close>, \<^verbatim>\<open>app/static\<close>): presentation,
  a page is the data its template is given. The migrations that only define tables and columns, all
  downgrades, the offline mode and \<^verbatim>\<open>alembic/env.py\<close>: statements for the database engine; the model starts from the schema of
  \<^verbatim>\<open>app/models.py\<close>. \<^verbatim>\<open>app/http_client.py\<close>: the construction of one object of a library,
  whose answers are a parameter. The counters of the rate limiter,
  the middleware stack, form and path parsing and response encoding: the framework's. The argument parsers
  of the scripts: a job takes the parsed values. \<^verbatim>\<open>scripts/smoke_v1_0_3.py\<close>, \<^verbatim>\<open>tests\<close>,
  \<^verbatim>\<open>deploy\<close> and \<^verbatim>\<open>docs\<close>: a client of a running deployment, the test suite, shell scripts and
  prose. Interleaved requests: the model runs one request after another; what two sessions
  that read and write one row between each other's statements may do is not covered.
\<close>

end
